(* ===== verification/Prelude.thy ===== *)
theory Prelude
  imports Main "HOL-Library.Word"
begin

unbundle bit_operations_syntax

text \<open>
  Shared vocabulary of the development. The program is written in Go, so this theory
  fixes how Go's basic notions are represented:

  \<^item> an \<open>error\<close> value is a \<open>goerr\<close>: a sentinel (\<open>errors.New\<close>), a gRPC status, or an
    error wrapped by \<open>fmt.Errorf\<close> with \<open>%w\<close>, with the text before and after it. \<open>Error\<close>
    renders the message and \<open>errors_Is\<close> is \<open>errors.Is\<close>;
  \<^item> a function returning \<open>(T, error)\<close> returns \<open>goerr + 'a\<close>, \<open>Inl\<close> for the error;
  \<^item> \<open>int64\<close> values are integers kept in range by \<open>wrap64\<close>;
  \<^item> a Go \<open>string\<close> is a byte list, Isabelle's \<open>string\<close>; the functions of the packages
    \<open>strings\<close> and \<open>strconv\<close> that the program calls are defined here on bytes.

  The collections \<open>go_strings\<close> and \<open>result_simps\<close> gather the facts component proofs use.
\<close>

named_theorems go_strings "definitions and facts on Go's string functions"
named_theorems result_simps "facts on error results"

section \<open>Errors\<close>

datatype code =
    OK | Canceled | Unknown | InvalidArgument | DeadlineExceeded | NotFound | AlreadyExists
  | PermissionDenied | ResourceExhausted | FailedPrecondition | Aborted | OutOfRange
  | Unimplemented | Internal | Unavailable | DataLoss | Unauthenticated

datatype goerr =
    New string
  | GStatus code string
  | Wrap string goerr string

type_synonym 'a result = "goerr + 'a"

fun Error :: "goerr \<Rightarrow> string" where
  "Error (New msg) = msg"
| "Error (GStatus c msg) = msg"
| "Error (Wrap pre e post) = pre @ Error e @ post"

fun errors_Is :: "goerr \<Rightarrow> goerr \<Rightarrow> bool" where
  "errors_Is (Wrap pre e post) t = (Wrap pre e post = t \<or> errors_Is e t)"
| "errors_Is e t = (e = t)"

definition wrapf :: "string \<Rightarrow> goerr \<Rightarrow> goerr" where
  "wrapf pre e = Wrap (pre @ '': '') e []"

lemma errors_Is_refl [simp]: "errors_Is e e"
  by (cases e) simp_all

lemma errors_Is_wrapf [simp]: "errors_Is (wrapf pre e) (New m) = errors_Is e (New m)"
  by (simp add: wrapf_def)

lemma errors_Is_New [simp]: "errors_Is (New m) (New m') = (m = m')"
  by simp

definition isOk :: "'a result \<Rightarrow> bool" where
  "isOk r = (case r of Inl _ \<Rightarrow> False | Inr _ \<Rightarrow> True)"

lemma isOk_simps [simp]: "isOk (Inr a)" "\<not> isOk (Inl e)"
  by (simp_all add: isOk_def)

lemma isOk_iff [result_simps]: "isOk r = (\<exists>a. r = Inr a)"
  by (cases r) simp_all

text \<open>Stateful calls return the new state and a result. \<open>bindr\<close> is the \<open>if err != nil { return
  err }\<close> idiom, \<open>onErr\<close> rewrites the error on the way out.\<close>

definition bindr :: "'w \<times> 'a result \<Rightarrow> ('w \<Rightarrow> 'a \<Rightarrow> 'w \<times> 'b result) \<Rightarrow> 'w \<times> 'b result" where
  "bindr x k = (case x of (w, Inl e) \<Rightarrow> (w, Inl e) | (w, Inr a) \<Rightarrow> k w a)"

definition onErr :: "(goerr \<Rightarrow> goerr) \<Rightarrow> 'w \<times> 'a result \<Rightarrow> 'w \<times> 'a result" where
  "onErr f x = (case x of (w, Inl e) \<Rightarrow> (w, Inl (f e)) | (w, Inr a) \<Rightarrow> (w, Inr a))"

lemma bindr_simps [simp]:
  "bindr (w, Inl e) k = (w, Inl e)" "bindr (w, Inr a) k = k w a"
  by (simp_all add: bindr_def)

lemma onErr_simps [simp]:
  "onErr f (w, Inl e) = (w, Inl (f e))" "onErr f (w, Inr a) = (w, Inr a)"
  by (simp_all add: onErr_def)

lemma bindr_ok [result_simps]:
  "bindr x k = (w', Inr b) \<longleftrightarrow> (\<exists>w a. x = (w, Inr a) \<and> k w a = (w', Inr b))"
  by (auto simp: bindr_def split: prod.splits sum.splits)

lemma onErr_ok [result_simps]: "onErr f x = (w', Inr b) \<longleftrightarrow> x = (w', Inr b)"
  by (auto simp: onErr_def split: prod.splits sum.splits)

lemma isOk_bindr [simp]:
  "isOk (snd (bindr x k)) = (isOk (snd x) \<and> isOk (snd (k (fst x) (projr (snd x)))))"
  by (cases x; cases "snd x") auto

lemma isOk_onErr [simp]: "isOk (snd (onErr f x)) = isOk (snd x)"
  by (cases x; cases "snd x") auto

lemma fst_onErr [simp]: "fst (onErr f x) = fst x"
  by (cases x; cases "snd x") auto

lemma bindr_keeps:
  assumes "I (fst x)" "\<And>w a. x = (w, Inr a) \<Longrightarrow> I w \<Longrightarrow> I (fst (k w a))"
  shows "I (fst (bindr x k))"
  using assms by (cases x; cases "snd x") auto

lemma okE:
  assumes "isOk (snd x)"
  obtains w a where "x = (w, Inr a)"
  using assms by (cases x) (auto simp: isOk_iff)

section \<open>Machine integers\<close>

type_synonym int64 = int

definition wrap64 :: "int \<Rightarrow> int64" where
  "wrap64 i = (i + 2 ^ 63) mod 2 ^ 64 - 2 ^ 63"

definition in_int64 :: "int \<Rightarrow> bool" where
  "in_int64 i = (- (2 ^ 63) \<le> i \<and> i < 2 ^ 63)"

lemma wrap64_id: "in_int64 i \<Longrightarrow> wrap64 i = i"
  by (simp add: wrap64_def in_int64_def)

lemma wrap64_range: "in_int64 (wrap64 i)"
proof -
  have "0 \<le> (i + 2 ^ 63) mod 2 ^ 64" and "(i + 2 ^ 63) mod 2 ^ 64 < (2::int) ^ 64"
    by (rule pos_mod_sign pos_mod_bound; simp)+
  then show ?thesis by (simp add: wrap64_def in_int64_def)
qed

lemma div_eq_iff_bounds:
  fixes d :: int
  assumes "0 < d"
  shows "x div d = q \<longleftrightarrow> d * q \<le> x \<and> x < d * q + d"
proof
  assume "x div d = q"
  then show "d * q \<le> x \<and> x < d * q + d"
    using mult_div_mod_eq [of d x] pos_mod_sign [OF assms, of x] pos_mod_bound [OF assms, of x]
    by auto
next
  assume "d * q \<le> x \<and> x < d * q + d"
  then show "x div d = q"
    using int_div_pos_eq [of x d q "x - d * q"] by simp
qed

section \<open>Decimal numerals: \<open>%d\<close>, \<open>strconv.Itoa\<close>, \<open>strconv.FormatInt\<close>, \<open>strconv.ParseInt\<close>\<close>

definition digit_char :: "nat \<Rightarrow> char" where
  "digit_char d = char_of (48 + d)"

definition is_digit :: "char \<Rightarrow> bool" where
  "is_digit c = (48 \<le> (of_char c :: nat) \<and> (of_char c :: nat) \<le> 57)"

definition digit_val :: "char \<Rightarrow> nat" where
  "digit_val c = of_char c - 48"

fun dec_nat :: "nat \<Rightarrow> string" where
  "dec_nat n = (if n < 10 then [digit_char n] else dec_nat (n div 10) @ [digit_char (n mod 10)])"

declare dec_nat.simps [simp del]

definition fmt_d :: "int \<Rightarrow> string" where
  "fmt_d i = (if i < 0 then ''-'' @ dec_nat (nat (- i)) else dec_nat (nat i))"

definition val_dec :: "string \<Rightarrow> nat" where
  "val_dec s = foldl (\<lambda>acc c. acc * 10 + digit_val c) 0 s"

lemma digit_char_roundtrip: "d < 10 \<Longrightarrow> is_digit (digit_char d) \<and> digit_val (digit_char d) = d"
  by (simp add: is_digit_def digit_char_def digit_val_def of_char_of)

lemma digit_char_simps [simp]:
  "digit_char 0 = CHR ''0''" "digit_char (Suc 0) = CHR ''1''" "digit_char 2 = CHR ''2''"
  "digit_char 3 = CHR ''3''" "digit_char 4 = CHR ''4''" "digit_char 5 = CHR ''5''"
  "digit_char 6 = CHR ''6''" "digit_char 7 = CHR ''7''" "digit_char 8 = CHR ''8''"
  "digit_char 9 = CHR ''9''"
  by (simp_all add: digit_char_def char_of_def bit_0)

lemma val_dec_snoc: "val_dec (s @ [c]) = val_dec s * 10 + digit_val c"
  by (simp add: val_dec_def)

lemma dec_nat_spec: "dec_nat n \<noteq> [] \<and> list_all is_digit (dec_nat n) \<and> val_dec (dec_nat n) = n"
proof (induction n rule: dec_nat.induct)
  case (1 n)
  show ?case
  proof (cases "n < 10")
    case True
    then show ?thesis
      using digit_char_roundtrip [OF True]
      by (subst (1 2 3) dec_nat.simps) (simp add: val_dec_def)
  next
    case False
    have "n mod 10 < 10" by simp
    from False "1.IH" digit_char_roundtrip [OF this] show ?thesis
      by (subst (1 2 3) dec_nat.simps) (simp add: val_dec_snoc)
  qed
qed

lemma dec_nat_inj [simp]: "dec_nat m = dec_nat n \<longleftrightarrow> m = n"
  by (metis dec_nat_spec)

lemma dec_nat_not_minus: "hd (dec_nat n) \<noteq> CHR ''-''"
proof -
  have "is_digit (hd (dec_nat n))"
    using dec_nat_spec [of n] by (cases "dec_nat n") auto
  then show ?thesis by (auto simp: is_digit_def)
qed

lemma fmt_d_inj [simp]: "fmt_d i = fmt_d j \<longleftrightarrow> i = j"
proof -
  have "dec_nat m \<noteq> CHR ''-'' # s" for m s
    using dec_nat_not_minus [of m] by (cases "dec_nat m") auto
  then show ?thesis
    by (auto simp: fmt_d_def dest: sym)
qed

definition ErrSyntax :: goerr where
  "ErrSyntax = New ''invalid syntax''"

definition ErrRange :: goerr where
  "ErrRange = New ''value out of range''"

text \<open>\<open>strconv.ParseInt(s, 10, 64)\<close>: an optional sign, then at least one decimal digit.\<close>

definition ParseInt :: "string \<Rightarrow> int64 result" where
  "ParseInt s =
    (let neg = (s \<noteq> [] \<and> hd s = CHR ''-'');
         ds = (if s \<noteq> [] \<and> (hd s = CHR ''-'' \<or> hd s = CHR ''+'') then tl s else s);
         v = int (val_dec ds)
     in if ds = [] \<or> \<not> list_all is_digit ds
        then Inl (Wrap (''strconv.ParseInt: parsing '' @ s @ '': '') ErrSyntax [])
        else if in_int64 (if neg then - v else v) then Inr (if neg then - v else v)
        else Inl (Wrap (''strconv.ParseInt: parsing '' @ s @ '': '') ErrRange []))"

lemma ParseInt_fmt_d: "in_int64 i \<Longrightarrow> ParseInt (fmt_d i) = Inr i"
proof -
  assume i: "in_int64 i"
  have dig: "is_digit (hd (dec_nat n))" for n
    using dec_nat_spec [of n] by (cases "dec_nat n") auto
  have "hd (dec_nat n) \<noteq> CHR ''+''" for n
    using dig [of n] by (auto simp: is_digit_def)
  then show ?thesis
    using i dec_nat_spec dec_nat_not_minus
    by (auto simp: ParseInt_def fmt_d_def Let_def)
qed

section \<open>Package \<open>strings\<close>\<close>

definition HasPrefix :: "string \<Rightarrow> string \<Rightarrow> bool" where
  "HasPrefix s p = (take (length p) s = p)"

definition HasSuffix :: "string \<Rightarrow> string \<Rightarrow> bool" where
  "HasSuffix s p = (length p \<le> length s \<and> drop (length s - length p) s = p)"

definition TrimPrefix :: "string \<Rightarrow> string \<Rightarrow> string" where
  "TrimPrefix s p = (if HasPrefix s p then drop (length p) s else s)"

definition TrimSuffix :: "string \<Rightarrow> string \<Rightarrow> string" where
  "TrimSuffix s p = (if HasSuffix s p then take (length s - length p) s else s)"

definition lower_char :: "char \<Rightarrow> char" where
  "lower_char c = (if 65 \<le> (of_char c :: nat) \<and> (of_char c :: nat) \<le> 90
                   then char_of ((of_char c :: nat) + 32) else c)"

definition ToLower :: "string \<Rightarrow> string" where
  "ToLower s = map lower_char s"

fun Contains :: "string \<Rightarrow> string \<Rightarrow> bool" where
  "Contains [] sub = (sub = [])"
| "Contains (c # s) sub = (HasPrefix (c # s) sub \<or> Contains s sub)"

fun Join :: "string list \<Rightarrow> string \<Rightarrow> string" where
  "Join [] sep = []"
| "Join [s] sep = s"
| "Join (s # t # ss) sep = s @ sep @ Join (t # ss) sep"

definition is_space :: "char \<Rightarrow> bool" where
  "is_space c = (c = CHR '' '' \<or> (9 \<le> (of_char c :: nat) \<and> (of_char c :: nat) \<le> 13))"

definition TrimSpace :: "string \<Rightarrow> string" where
  "TrimSpace s = rev (dropWhile is_space (rev (dropWhile is_space s)))"

function Fields :: "string \<Rightarrow> string list" where
  "Fields s = (let t = dropWhile is_space s
               in if t = [] then []
                  else takeWhile (\<lambda>c. \<not> is_space c) t
                       # Fields (dropWhile (\<lambda>c. \<not> is_space c) t))"
  by pat_completeness auto

termination Fields
proof (relation "measure length")
  show "wf (measure (length :: string \<Rightarrow> nat))" by simp
next
  fix s t :: string
  assume tdef: "t = dropWhile is_space s" and ne: "t \<noteq> []"
  from ne obtain c u where t: "t = c # u" and "\<not> is_space c"
    unfolding tdef by (metis dropWhile_eq_Cons_conv list.exhaust)
  then have "length (dropWhile (\<lambda>c. \<not> is_space c) t) \<le> length u"
    by (simp add: length_dropWhile_le)
  also have "length u < length t" by (simp add: t)
  also have "length t \<le> length s"
    unfolding tdef by (simp add: length_dropWhile_le)
  finally show "(dropWhile (\<lambda>c. \<not> is_space c) t, s) \<in> measure length" by simp
qed

declare Fields.simps [simp del]

definition quote :: "string \<Rightarrow> string" where
  "quote s = [CHR 0x22] @ s @ [CHR 0x22]"

lemma HasPrefix_iff [go_strings]: "HasPrefix s p \<longleftrightarrow> (\<exists>r. s = p @ r)"
  by (metis HasPrefix_def append_eq_conv_conj append_take_drop_id)

lemma HasSuffix_iff [go_strings]: "HasSuffix s p \<longleftrightarrow> (\<exists>r. s = r @ p)"
  unfolding HasSuffix_def
  by (metis append_take_drop_id diff_diff_cancel le_add2 length_append add_diff_cancel_right'
      append_eq_conv_conj)

lemma HasPrefix_append [simp]: "HasPrefix (p @ r) p"
  by (simp add: HasPrefix_def)

lemma HasSuffix_append [simp]: "HasSuffix (r @ p) p"
  by (simp add: HasSuffix_def)

lemma TrimPrefix_append [simp]: "TrimPrefix (p @ r) p = r"
  by (simp add: TrimPrefix_def)

lemma TrimSuffix_append [simp]: "TrimSuffix (r @ p) p = r"
  by (simp add: TrimSuffix_def)

lemma lower_char_idem [simp]: "lower_char (lower_char c) = lower_char c"
  by (auto simp: lower_char_def of_char_of)

lemma ToLower_idem [simp]: "ToLower (ToLower s) = ToLower s"
  by (simp add: ToLower_def)

lemma ToLower_append [simp]: "ToLower (s @ t) = ToLower s @ ToLower t"
  by (simp add: ToLower_def)

lemma length_ToLower [simp]: "length (ToLower s) = length s"
  by (simp add: ToLower_def)

lemma Contains_iff [go_strings]: "Contains s sub \<longleftrightarrow> (\<exists>u v. s = u @ sub @ v)"
proof (induction s)
  case (Cons c s)
  show ?case
  proof
    assume "Contains (c # s) sub"
    then show "\<exists>u v. c # s = u @ sub @ v"
      using Cons by (auto simp: HasPrefix_iff) (metis append_Cons append_Nil)+
  next
    assume "\<exists>u v. c # s = u @ sub @ v"
    then obtain u v where "c # s = u @ sub @ v" by blast
    then show "Contains (c # s) sub"
    proof (cases u)
      case Nil
      then have "HasPrefix (c # s) sub"
        using \<open>c # s = u @ sub @ v\<close> by (auto simp: HasPrefix_iff)
      then show ?thesis by simp
    next
      case (Cons a w)
      then show ?thesis
        using \<open>c # s = u @ sub @ v\<close> Cons.IH by auto
    qed
  qed
qed auto

section \<open>Package \<open>encoding/binary\<close>, big endian\<close>

type_synonym byte = "8 word"

definition PutUint32 :: "32 word \<Rightarrow> byte list" where
  "PutUint32 w = [ucast (drop_bit 24 w), ucast (drop_bit 16 w), ucast (drop_bit 8 w), ucast w]"

definition Uint32 :: "byte list \<Rightarrow> 32 word" where
  "Uint32 b = push_bit 24 (ucast (b ! 0)) OR push_bit 16 (ucast (b ! 1))
              OR push_bit 8 (ucast (b ! 2)) OR ucast (b ! 3)"

lemma length_PutUint32 [simp]: "length (PutUint32 w) = 4"
  by (simp add: PutUint32_def)

lemma Uint32_PutUint32 [simp]: "Uint32 (PutUint32 w) = w"
proof (rule bit_word_eqI)
  fix n
  assume "n < LENGTH(32)"
  then consider "n < 8" | "8 \<le> n" "n < 16" | "16 \<le> n" "n < 24" | "24 \<le> n" "n < 32"
    by fastforce
  then show "bit (Uint32 (PutUint32 w)) n = bit w n"
    by cases (auto simp: Uint32_def PutUint32_def bit_simps)
qed

lemma PutUint32_inj [simp]: "PutUint32 v = PutUint32 w \<longleftrightarrow> v = w"
  by (metis Uint32_PutUint32)

lemma byte_bit_beyond: "8 \<le> n \<Longrightarrow> bit (b :: byte) n = False"
  using bit_imp_le_length [of b n] by auto

lemma PutUint32_Uint32: "length b = 4 \<Longrightarrow> PutUint32 (Uint32 b) = b"
proof -
  assume "length b = 4"
  then obtain b0 b1 b2 b3 where b: "b = [b0, b1, b2, b3]"
    by (auto simp: length_Suc_conv numeral_eq_Suc)
  show ?thesis
    unfolding b
    by (auto simp: Uint32_def PutUint32_def bit_simps byte_bit_beyond intro!: bit_word_eqI)
qed

end
