(* ===== verification/Netip.thy ===== *)
theory Netip
  imports Prelude
begin

text \<open>
  The part of Go's package \<open>net/netip\<close> the daemon uses: addresses (the zero \<open>Addr\<close>, IPv4,
  IPv6 with an optional zone), prefixes, their textual forms and their parsers. The parsers
  return \<open>None\<close> where Go returns an error; their callers only log the error's text.
\<close>

section \<open>Addresses and prefixes\<close>

datatype Addr = Addr0 | Addr4 "32 word" | Addr6 "128 word" string

datatype Prefix = PrefixFrom (pfx_Addr: Addr) (pfx_Bits: int)

definition IsValid :: "Addr \<Rightarrow> bool" where
  "IsValid a = (a \<noteq> Addr0)"

definition AddrFrom4 :: "byte list \<Rightarrow> Addr" where
  "AddrFrom4 b = Addr4 (Uint32 b)"

definition As4 :: "Addr \<Rightarrow> byte list" where
  "As4 a = (case a of Addr4 w \<Rightarrow> PutUint32 w | _ \<Rightarrow> [0, 0, 0, 0])"

definition Uint128 :: "byte list \<Rightarrow> 128 word" where
  "Uint128 b = foldl (\<lambda>acc x. push_bit 8 acc OR ucast x) 0 b"

definition AddrFromSlice :: "byte list \<Rightarrow> Addr option" where
  "AddrFromSlice b = (if length b = 4 then Some (AddrFrom4 b)
                      else if length b = 16 then Some (Addr6 (Uint128 b) []) else None)"

definition Is4In6 :: "Addr \<Rightarrow> bool" where
  "Is4In6 a = (case a of Addr6 w z \<Rightarrow> drop_bit 32 w = 0xffff | _ \<Rightarrow> False)"

definition Unmap :: "Addr \<Rightarrow> Addr" where
  "Unmap a = (case a of Addr6 w z \<Rightarrow> if Is4In6 a then Addr4 (ucast w) else a | _ \<Rightarrow> a)"

definition PrefixIsValid :: "Prefix \<Rightarrow> bool" where
  "PrefixIsValid p = (0 \<le> pfx_Bits p \<and>
     (case pfx_Addr p of Addr0 \<Rightarrow> False | Addr4 _ \<Rightarrow> pfx_Bits p \<le> 32 | Addr6 _ _ \<Rightarrow> pfx_Bits p \<le> 128))"

definition PrefixContains :: "Prefix \<Rightarrow> Addr \<Rightarrow> bool" where
  "PrefixContains p a =
    (case (pfx_Addr p, a) of
       (Addr4 n, Addr4 w) \<Rightarrow> 0 \<le> pfx_Bits p \<and> pfx_Bits p \<le> 32 \<and>
         drop_bit (32 - nat (pfx_Bits p)) (w XOR n) = 0
     | (Addr6 n zn, Addr6 w z) \<Rightarrow> 0 \<le> pfx_Bits p \<and> pfx_Bits p \<le> 128 \<and> z = [] \<and>
         drop_bit (128 - nat (pfx_Bits p)) (w XOR n) = 0
     | _ \<Rightarrow> False)"

section \<open>Textual form\<close>

definition hex_char :: "nat \<Rightarrow> char" where
  "hex_char d = (if d < 10 then digit_char d else char_of (87 + d))"

fun hex_nat :: "nat \<Rightarrow> string" where
  "hex_nat n = (if n < 16 then [hex_char n] else hex_nat (n div 16) @ [hex_char (n mod 16)])"

declare hex_nat.simps [simp del]

definition dotted :: "32 word \<Rightarrow> string" where
  "dotted w = Join (map (\<lambda>b. dec_nat (unat b)) (PutUint32 w)) ''.''"

definition v6u16 :: "128 word \<Rightarrow> nat list" where
  "v6u16 w = map (\<lambda>i. unat (ucast (drop_bit (112 - 16 * i) w) :: 16 word)) [0..<8]"

definition zero_run :: "nat list \<Rightarrow> nat \<times> nat" where
  "zero_run gs = foldl (\<lambda>(s, l) i. let k = length (takeWhile (\<lambda>g. g = 0) (drop i gs))
                                   in if 2 \<le> k \<and> l < k then (i, k) else (s, l)) (0, 0) [0..<8]"

definition colons :: "128 word \<Rightarrow> string" where
  "colons w = (let gs = v6u16 w; (s, l) = zero_run gs
               in if l = 0 then Join (map hex_nat gs) '':''
                  else Join (map hex_nat (take s gs)) '':'' @ ''::''
                       @ Join (map hex_nat (drop (s + l) gs)) '':'')"

definition AddrString :: "Addr \<Rightarrow> string" where
  "AddrString a = (case a of Addr0 \<Rightarrow> ''invalid IP'' | Addr4 w \<Rightarrow> dotted w
     | Addr6 w z \<Rightarrow> (if Is4In6 a then ''::ffff:'' @ dotted (ucast w) else colons w)
                    @ (if z = [] then [] else ''%'' @ z))"

definition PrefixString :: "Prefix \<Rightarrow> string" where
  "PrefixString p = (if PrefixIsValid p then AddrString (pfx_Addr p) @ ''/'' @ fmt_d (pfx_Bits p)
                     else ''invalid Prefix'')"

section \<open>Parsers\<close>

fun splitOn :: "char \<Rightarrow> string \<Rightarrow> string list" where
  "splitOn c [] = [[]]"
| "splitOn c (x # xs) = (if x = c then [] # splitOn c xs
     else (case splitOn c xs of [] \<Rightarrow> [[x]] | f # fs \<Rightarrow> (x # f) # fs))"

definition octet :: "string \<Rightarrow> byte option" where
  "octet f = (if f = [] \<or> \<not> list_all is_digit f \<or> (hd f = CHR ''0'' \<and> 1 < length f)
                 \<or> 255 < val_dec f
              then None else Some (of_nat (val_dec f)))"

fun octets :: "string list \<Rightarrow> byte list option" where
  "octets [] = Some []"
| "octets (f # fs) = (case (octet f, octets fs) of
     (Some b, Some bs) \<Rightarrow> Some (b # bs) | _ \<Rightarrow> None)"

definition parseIPv4 :: "string \<Rightarrow> byte list option" where
  "parseIPv4 s = (case octets (splitOn CHR ''.'' s) of
     Some bs \<Rightarrow> if length bs = 4 then Some bs else None | None \<Rightarrow> None)"

definition hex_val :: "char \<Rightarrow> nat option" where
  "hex_val c = (let n = of_char c :: nat in
     if 48 \<le> n \<and> n \<le> 57 then Some (n - 48)
     else if 97 \<le> n \<and> n \<le> 102 then Some (n - 87)
     else if 65 \<le> n \<and> n \<le> 70 then Some (n - 55) else None)"

definition is_hex :: "char \<Rightarrow> bool" where
  "is_hex c = (hex_val c \<noteq> None)"

definition hex_field :: "string \<Rightarrow> byte list" where
  "hex_field f = (let acc = foldl (\<lambda>a c. a * 16 + the (hex_val c)) 0 f
                  in [of_nat (acc div 256), of_nat acc])"

text \<open>The field loop of \<open>parseIPv6\<close>: \<open>ip\<close> holds the bytes written so far (the source's \<open>i\<close>
  is its length), \<open>ell\<close> the position of the ellipsis.\<close>

fun v6_fields :: "nat \<Rightarrow> string \<Rightarrow> byte list \<Rightarrow> nat option \<Rightarrow> (byte list \<times> nat option) option" where
  "v6_fields 0 s ip ell = (if s = [] then Some (ip, ell) else None)"
| "v6_fields (Suc n) s ip ell =
    (if 16 \<le> length ip then (if s = [] then Some (ip, ell) else None) else
     let f = takeWhile is_hex s; r = dropWhile is_hex s in
     if f = [] \<or> 4 < length f then None
     else if r \<noteq> [] \<and> hd r = CHR ''.'' then
       (if (ell = None \<and> length ip \<noteq> 12) \<or> 16 < length ip + 4 then None
        else case parseIPv4 s of None \<Rightarrow> None | Some bs \<Rightarrow> Some (ip @ bs, ell))
     else let ip' = ip @ hex_field f in
       if r = [] then Some (ip', ell)
       else if hd r \<noteq> CHR '':'' \<or> tl r = [] then None
       else if hd (tl r) = CHR '':'' then
         (if ell \<noteq> None then None
          else if tl (tl r) = [] then Some (ip', Some (length ip'))
          else v6_fields n (tl (tl r)) ip' (Some (length ip')))
       else v6_fields n (tl r) ip' ell)"

definition v6_expand :: "byte list \<Rightarrow> nat option \<Rightarrow> byte list option" where
  "v6_expand ip ell = (case ell of
     None \<Rightarrow> if length ip = 16 then Some ip else None
   | Some e \<Rightarrow> if length ip < 16
               then Some (take e ip @ replicate (16 - length ip) 0 @ drop e ip) else None)"

definition parseIPv6 :: "string \<Rightarrow> Addr option" where
  "parseIPv6 inp =
    (let s = takeWhile (\<lambda>c. c \<noteq> CHR ''%'') inp;
         zr = dropWhile (\<lambda>c. c \<noteq> CHR ''%'') inp;
         zone = tl zr
     in if zr \<noteq> [] \<and> zone = [] then None
        else if s = ''::'' then Some (Addr6 0 zone)
        else case (if HasPrefix s ''::'' then v6_fields 8 (drop 2 s) [] (Some 0)
                   else v6_fields 8 s [] None) of
          None \<Rightarrow> None
        | Some (ip, ell) \<Rightarrow> (case v6_expand ip ell of
            None \<Rightarrow> None | Some b \<Rightarrow> Some (Addr6 (Uint128 b) zone)))"

fun ParseAddr_from :: "string \<Rightarrow> string \<Rightarrow> Addr option" where
  "ParseAddr_from s [] = None"
| "ParseAddr_from s (c # cs) =
    (if c = CHR ''.'' then map_option AddrFrom4 (parseIPv4 s)
     else if c = CHR '':'' then parseIPv6 s
     else if c = CHR ''%'' then None
     else ParseAddr_from s cs)"

definition ParseAddr :: "string \<Rightarrow> Addr option" where
  "ParseAddr s = ParseAddr_from s s"

text \<open>\<open>ParsePrefix\<close> splits at the last slash.\<close>

definition ParsePrefix :: "string \<Rightarrow> Prefix option" where
  "ParsePrefix s =
    (let r = rev s; bits = rev (takeWhile (\<lambda>c. c \<noteq> CHR ''/'') r);
         rest = dropWhile (\<lambda>c. c \<noteq> CHR ''/'') r
     in if rest = [] then None
        else case ParseAddr (rev (tl rest)) of
          None \<Rightarrow> None
        | Some ip \<Rightarrow>
          if (case ip of Addr6 w z \<Rightarrow> z \<noteq> [] | _ \<Rightarrow> False) then None
          else if bits = [] \<or> \<not> list_all is_digit bits \<or> (1 < length bits \<and> hd bits = CHR ''0'')
          then None
          else let n = int (val_dec bits) in
            if n > (case ip of Addr4 _ \<Rightarrow> 32 | _ \<Rightarrow> 128) then None
            else Some (PrefixFrom ip n))"

section \<open>Facts\<close>

lemma AddrFrom4_PutUint32 [simp]: "AddrFrom4 (PutUint32 w) = Addr4 w"
  by (simp add: AddrFrom4_def)

lemma hd_dec_nat: "0 < n \<Longrightarrow> hd (dec_nat n) \<noteq> CHR ''0''"
proof (induction n rule: dec_nat.induct)
  case (1 n)
  show ?case
  proof (cases "n < 10")
    case True
    have "hd (dec_nat n) = digit_char n" by (simp add: dec_nat.simps True)
    moreover have "digit_val (digit_char n) = n" using digit_char_roundtrip True by blast
    ultimately show ?thesis using 1 by (auto simp: digit_val_def)
  next
    case False
    then have "hd (dec_nat n) = hd (dec_nat (n div 10))"
      using dec_nat_spec [of "n div 10"] by (subst dec_nat.simps) simp
    then show ?thesis using 1 False by simp
  qed
qed

lemma octet_dec_nat: "octet (dec_nat (unat (b :: byte))) = Some b"
proof -
  have "unat b \<le> 255" using unsigned_less [of b, where 'a = nat] by simp
  moreover have "\<not> (hd (dec_nat n) = CHR ''0'' \<and> 1 < length (dec_nat n))" for n
    using hd_dec_nat [of n] by (cases "n = 0") (simp_all add: dec_nat.simps)
  ultimately show ?thesis
    using dec_nat_spec [of "unat b"] by (simp add: octet_def)
qed

lemma splitOn_no: "c \<notin> set f \<Longrightarrow> splitOn c f = [f]"
  by (induction f) auto

lemma splitOn_app: "c \<notin> set f \<Longrightarrow> splitOn c (f @ c # s) = f # splitOn c s"
  by (induction f) auto

lemma dot_not_digit: "CHR ''.'' \<notin> set (dec_nat n)"
  using dec_nat_spec [of n] by (auto simp: list_all_iff is_digit_def)

lemma splitOn_dotted:
  "splitOn CHR ''.'' (dotted w) = map (\<lambda>b. dec_nat (unat b)) (PutUint32 w)"
  by (simp add: dotted_def PutUint32_def splitOn_app splitOn_no dot_not_digit)

lemma octets_map: "octets (map (\<lambda>b. dec_nat (unat b)) bs) = Some bs"
  by (induction bs) (simp_all add: octet_dec_nat)

lemma parseIPv4_dotted: "parseIPv4 (dotted w) = Some (PutUint32 w)"
  by (simp add: parseIPv4_def splitOn_dotted octets_map)

lemma ParseAddr_from_digits:
  "list_all is_digit ds \<Longrightarrow>
   ParseAddr_from s (ds @ CHR ''.'' # r) = map_option AddrFrom4 (parseIPv4 s)"
  by (induction ds) (auto simp: is_digit_def)

lemma ParseAddr_dotted: "ParseAddr (dotted w) = Some (Addr4 w)"
proof -
  obtain n r where "dotted w = dec_nat n @ CHR ''.'' # r"
    by (force simp: dotted_def PutUint32_def)
  then have "ParseAddr_from (dotted w) (dotted w) = map_option AddrFrom4 (parseIPv4 (dotted w))"
    using ParseAddr_from_digits dec_nat_spec by metis
  then show ?thesis by (simp add: ParseAddr_def parseIPv4_dotted)
qed

lemma dotted_inj [simp]: "dotted v = dotted w \<longleftrightarrow> v = w"
  by (metis ParseAddr_dotted Addr.inject(1) option.inject)

lemma slash_not_digit: "CHR ''/'' \<notin> set (dec_nat n)"
  using dec_nat_spec [of n] by (auto simp: list_all_iff is_digit_def)

lemma ParsePrefix_v4:
  assumes "b \<le> 32"
  shows "ParsePrefix (PrefixString (PrefixFrom (Addr4 w) (int b))) = Some (PrefixFrom (Addr4 w) (int b))"
proof -
  have str: "PrefixString (PrefixFrom (Addr4 w) (int b)) = dotted w @ CHR ''/'' # dec_nat b"
    using assms by (simp add: PrefixString_def PrefixIsValid_def AddrString_def fmt_d_def)
  have tw: "takeWhile (\<lambda>c. c \<noteq> CHR ''/'') (rev (dec_nat b) @ CHR ''/'' # xs) = rev (dec_nat b)"
    "dropWhile (\<lambda>c. c \<noteq> CHR ''/'') (rev (dec_nat b) @ CHR ''/'' # xs) = CHR ''/'' # xs" for xs
    using slash_not_digit [of b] by (auto simp: takeWhile_append dropWhile_append)
  have lead: "\<not> (1 < length (dec_nat b) \<and> hd (dec_nat b) = CHR ''0'')"
    using hd_dec_nat [of b] by (cases "b = 0") (simp_all add: dec_nat.simps)
  show ?thesis
    unfolding str ParsePrefix_def Let_def
    using dec_nat_spec [of b] lead assms by (auto simp: tw ParseAddr_dotted)
qed

lemma PrefixContains4:
  "PrefixContains (PrefixFrom (Addr4 n) (int b)) (Addr4 w) \<longleftrightarrow>
   b \<le> 32 \<and> drop_bit (32 - b) w = drop_bit (32 - b) n"
proof -
  have "drop_bit k (w XOR n) = 0 \<longleftrightarrow> drop_bit k w = drop_bit k n" for k
    by (auto simp: bit_eq_iff bit_simps)
  then show ?thesis by (auto simp: PrefixContains_def)
qed

end
