(* ===== verification/Firewall.thy ===== *)
theory Firewall
  imports Netip
begin

text \<open>
  The netfilter rules of a sandbox, \<open>daemon/pkg/network/firewall\<close>: the rule strings each
  function appends, in order, and the ipset commands it runs. The iptables client and the
  process runner are parameters. What they promise is stated by two locales: \<open>iptables_client\<close>
  (what \<open>ChainExists\<close>, \<open>NewChain\<close> and \<open>AppendUnique\<close> do to the rule lists) and \<open>rule_reading\<close> (which
  packets a rule string matches, for the options this package writes). The theorems then give
  the verdict a packet of the guest gets under each kind of egress policy.
\<close>

section \<open>Data\<close>

type_synonym rulespec = "string list"

record 'w adder =
  ChainExists :: "'w \<Rightarrow> string \<Rightarrow> string \<Rightarrow> bool result"
  NewChain :: "'w \<Rightarrow> string \<Rightarrow> string \<Rightarrow> 'w \<times> unit result"
  AppendUnique :: "'w \<Rightarrow> string \<Rightarrow> string \<Rightarrow> rulespec \<Rightarrow> 'w \<times> unit result"

record 'w iptablesFirewall =
  f_ipt :: "'w adder"
  f_sets :: "'w \<Rightarrow> int \<Rightarrow> 'w \<times> unit result"

type_synonym EgressMode = int

definition EgressAllow :: EgressMode where
  "EgressAllow = 1"

definition EgressDeny :: EgressMode where
  "EgressDeny = 2"

record EgressPolicy =
  ep_Mode :: EgressMode
  ep_IPs :: "Addr list"
  ep_CIDRs :: "Prefix list"
  ep_Domains :: "string list"

record NamespaceConfig =
  nc_NamespaceVethName :: string
  nc_GuestSubnet :: Prefix
  nc_Egress :: "EgressPolicy option"
  nc_SandboxIndex :: int
  nc_ResolverIP :: Addr

definition hostForwardChain :: string where
  "hostForwardChain = ''YAGHAN-FORWARD''"

definition hostNATChain :: string where
  "hostNATChain = ''YAGHAN-POSTROUTING''"

definition ruleComment :: string where
  "ruleComment = ''yaghan''"

definition dnsPort :: string where
  "dnsPort = ''53''"

text \<open>The UTF-8 bytes of the arrow in two of the error texts.\<close>

definition arrow :: string where
  "arrow = [CHR 0xE2, CHR 0x86, CHR 0x92]"

definition comment_match :: rulespec where
  "comment_match = [''-m'', ''comment'', ''--comment'', ruleComment]"

definition reject_target :: rulespec where
  "reject_target = [''-j'', ''REJECT'', ''--reject-with'', ''icmp-admin-prohibited'']"

section \<open>ipset.go\<close>

definition ipsetBinary :: string where
  "ipsetBinary = ''ipset''"

definition sandboxIPSetPrefix :: string where
  "sandboxIPSetPrefix = ''yaghan-egress-''"

definition sandboxIPSetType :: string where
  "sandboxIPSetType = ''hash:ip''"

definition SandboxIPSetName :: "int \<Rightarrow> string" where
  "SandboxIPSetName index = sandboxIPSetPrefix @ fmt_d index"

text \<open>\<open>exec\<close> stands for \<open>exec.Command(name, args...).CombinedOutput()\<close>.\<close>

type_synonym 'w runner = "'w \<Rightarrow> string \<Rightarrow> string list \<Rightarrow> 'w \<times> string \<times> goerr option"

definition run :: "'w runner \<Rightarrow> 'w \<Rightarrow> string \<Rightarrow> string list \<Rightarrow> 'w \<times> unit result" where
  "run exec w name args =
    (case exec w name args of
       (w', out, Some err) \<Rightarrow>
         (w', Inl (Wrap (name @ '' '' @ Join args '' '' @ '': '') err ('' ('' @ TrimSpace out @ '')'')))
     | (w', out, None) \<Rightarrow> (w', Inr ()))"

definition EnsureSandboxSet :: "'w runner \<Rightarrow> 'w \<Rightarrow> int \<Rightarrow> 'w \<times> unit result" where
  "EnsureSandboxSet exec w index =
    (let name = SandboxIPSetName index
     in run exec w ipsetBinary [''create'', name, sandboxIPSetType, ''timeout'', ''0'', ''-exist''])"

text \<open>Durations are in nanoseconds. The error for a non-positive \<open>ttl\<close> also prints it; the
  rendering of durations is left out. \<open>int(ttl.Seconds())\<close> is the whole number of seconds.\<close>

definition AddSandboxEntry ::
  "'w runner \<Rightarrow> 'w \<Rightarrow> string \<Rightarrow> int \<Rightarrow> Addr \<Rightarrow> int64 \<Rightarrow> 'w \<times> unit result" where
  "AddSandboxEntry exec w nsName index addr ttl =
    (if nsName = [] then (w, Inl (New ''namespace name must be non-empty''))
     else if ttl \<le> 0 then (w, Inl (New ''ttl must be positive''))
     else let name = SandboxIPSetName index;
              secs = (if ttl div 1000000000 < 1 then 1 else ttl div 1000000000)
          in run exec w ''ip'' [''netns'', ''exec'', nsName, ipsetBinary, ''add'', name, AddrString addr,
                                ''timeout'', fmt_d secs, ''-exist''])"

section \<open>iptables.go\<close>

definition ensureChain :: "'w adder \<Rightarrow> 'w \<Rightarrow> string \<Rightarrow> string \<Rightarrow> 'w \<times> unit result" where
  "ensureChain a w table chain =
    (case ChainExists a w table chain of
       Inl err \<Rightarrow> (w, Inl (wrapf (''check '' @ table @ ''/'' @ chain @ '' exists'') err))
     | Inr exists \<Rightarrow>
         if exists then (w, Inr ())
         else onErr (wrapf (''create '' @ table @ ''/'' @ chain)) (NewChain a w table chain))"

definition EnsureHost ::
  "'w iptablesFirewall \<Rightarrow> 'w \<Rightarrow> string \<Rightarrow> Prefix \<Rightarrow> 'w \<times> unit result" where
  "EnsureHost f w upstream vmSubnet =
    (if upstream = [] then (w, Inl (New ''upstream device must be non-empty''))
     else if \<not> PrefixIsValid vmSubnet
     then (w, Inl (New (''vm subnet '' @ quote (PrefixString vmSubnet) @ '' is invalid'')))
     else let subnet = PrefixString vmSubnet; ipt = f_ipt f in
     bindr (ensureChain ipt w ''filter'' hostForwardChain) (\<lambda>w _.
     bindr (onErr (wrapf (''link filter/FORWARD '' @ arrow @ '' '' @ hostForwardChain))
       (AppendUnique ipt w ''filter'' ''FORWARD'' (comment_match @ [''-j'', hostForwardChain]))) (\<lambda>w _.
     bindr (onErr (wrapf ''allow host forward egress'')
       (AppendUnique ipt w ''filter'' hostForwardChain
         ([''-s'', subnet, ''-o'', upstream] @ comment_match @ [''-j'', ''ACCEPT'']))) (\<lambda>w _.
     bindr (onErr (wrapf ''allow host forward return'')
       (AppendUnique ipt w ''filter'' hostForwardChain
         ([''-i'', upstream, ''-d'', subnet, ''-m'', ''conntrack'', ''--ctstate'', ''RELATED,ESTABLISHED'']
          @ comment_match @ [''-j'', ''ACCEPT'']))) (\<lambda>w _.
     bindr (ensureChain ipt w ''nat'' hostNATChain) (\<lambda>w _.
     bindr (onErr (wrapf (''link nat/POSTROUTING '' @ arrow @ '' '' @ hostNATChain))
       (AppendUnique ipt w ''nat'' ''POSTROUTING'' (comment_match @ [''-j'', hostNATChain]))) (\<lambda>w _.
     onErr (wrapf ''masquerade host egress'')
       (AppendUnique ipt w ''nat'' hostNATChain
         ([''-s'', subnet, ''-o'', upstream] @ comment_match @ [''-j'', ''MASQUERADE''])))))))))"

fun dnsAccess :: "'w adder \<Rightarrow> 'w \<Rightarrow> string \<Rightarrow> string \<Rightarrow> string list \<Rightarrow> 'w \<times> unit result" where
  "dnsAccess ipt w subnet dst [] = (w, Inr ())"
| "dnsAccess ipt w subnet dst (proto # protos) =
    bindr (onErr (wrapf (''allow host input '' @ proto @ '' to '' @ dst))
      (AppendUnique ipt w ''filter'' ''INPUT''
        ([''-s'', subnet, ''-d'', dst, ''-p'', proto, ''--dport'', dnsPort] @ comment_match
         @ [''-j'', ''ACCEPT'']))) (\<lambda>w _. dnsAccess ipt w subnet dst protos)"

definition EnsureDNSAccess ::
  "'w iptablesFirewall \<Rightarrow> 'w \<Rightarrow> Addr \<Rightarrow> Prefix \<Rightarrow> 'w \<times> unit result" where
  "EnsureDNSAccess f w resolverIP vmSubnet =
    (if \<not> IsValid resolverIP then (w, Inl (New ''resolver ip is invalid''))
     else if \<not> PrefixIsValid vmSubnet
     then (w, Inl (New (''vm subnet '' @ quote (PrefixString vmSubnet) @ '' is invalid'')))
     else dnsAccess (f_ipt f) w (PrefixString vmSubnet) (AddrString resolverIP) [''udp'', ''tcp''])"

definition appendReturnAccept ::
  "'w iptablesFirewall \<Rightarrow> 'w \<Rightarrow> string \<Rightarrow> string \<Rightarrow> 'w \<times> unit result" where
  "appendReturnAccept f w subnet veth =
    onErr (wrapf ''allow ns forward return'')
      (AppendUnique (f_ipt f) w ''filter'' ''FORWARD''
        ([''-i'', veth, ''-d'', subnet, ''-m'', ''conntrack'', ''--ctstate'', ''RELATED,ESTABLISHED'']
         @ comment_match @ [''-j'', ''ACCEPT'']))"

definition appendEgressAccept ::
  "'w iptablesFirewall \<Rightarrow> 'w \<Rightarrow> string \<Rightarrow> string \<Rightarrow> 'w \<times> unit result" where
  "appendEgressAccept f w subnet veth =
    onErr (wrapf ''allow ns forward egress'')
      (AppendUnique (f_ipt f) w ''filter'' ''FORWARD''
        ([''-s'', subnet, ''-o'', veth] @ comment_match @ [''-j'', ''ACCEPT'']))"

text \<open>The two loops over \<open>policy.IPs\<close> and \<open>policy.CIDRs\<close>, on the rendered destinations: one rule
  per destination, with the given verb in the error and the given target.\<close>

fun appendDests ::
  "'w adder \<Rightarrow> 'w \<Rightarrow> string \<Rightarrow> string \<Rightarrow> string \<Rightarrow> rulespec \<Rightarrow> string list \<Rightarrow> 'w \<times> unit result" where
  "appendDests ipt w verb subnet veth target [] = (w, Inr ())"
| "appendDests ipt w verb subnet veth target (d # ds) =
    bindr (onErr (wrapf (verb @ '' ns egress to '' @ d))
      (AppendUnique ipt w ''filter'' ''FORWARD''
        ([''-s'', subnet, ''-o'', veth, ''-d'', d] @ comment_match @ target)))
      (\<lambda>w _. appendDests ipt w verb subnet veth target ds)"

fun resolverRules ::
  "'w adder \<Rightarrow> 'w \<Rightarrow> string \<Rightarrow> string \<Rightarrow> Addr \<Rightarrow> string list \<Rightarrow> 'w \<times> unit result" where
  "resolverRules ipt w subnet veth resolverIP [] = (w, Inr ())"
| "resolverRules ipt w subnet veth resolverIP (proto # protos) =
    bindr (onErr (wrapf (''allow ns resolver '' @ proto @ '' '' @ AddrString resolverIP))
      (AppendUnique ipt w ''filter'' ''FORWARD''
        ([''-s'', subnet, ''-o'', veth, ''-d'', AddrString resolverIP, ''-p'', proto, ''--dport'', dnsPort]
         @ comment_match @ [''-j'', ''ACCEPT''])))
      (\<lambda>w _. resolverRules ipt w subnet veth resolverIP protos)"

definition appendResolverCarveOut ::
  "'w iptablesFirewall \<Rightarrow> 'w \<Rightarrow> string \<Rightarrow> string \<Rightarrow> Addr \<Rightarrow> 'w \<times> unit result" where
  "appendResolverCarveOut f w subnet veth resolverIP =
    resolverRules (f_ipt f) w subnet veth resolverIP [''udp'', ''tcp'']"

definition appendEgressAllow ::
  "'w iptablesFirewall \<Rightarrow> 'w \<Rightarrow> string \<Rightarrow> NamespaceConfig \<Rightarrow> EgressPolicy \<Rightarrow> 'w \<times> unit result" where
  "appendEgressAllow f w subnet c policy =
    (let veth = nc_NamespaceVethName c; ipt = f_ipt f in
     bindr (appendDests ipt w ''allow'' subnet veth [''-j'', ''ACCEPT''] (map AddrString (ep_IPs policy))) (\<lambda>w _.
     bindr (appendDests ipt w ''allow'' subnet veth [''-j'', ''ACCEPT''] (map PrefixString (ep_CIDRs policy))) (\<lambda>w _.
     bindr (if ep_Domains policy = [] then (w, Inr ())
            else if \<not> IsValid (nc_ResolverIP c)
            then (w, Inl (New ''domain_names policy requires a valid ResolverIP''))
            else bindr (onErr (wrapf ''ensure sandbox ipset'') (f_sets f w (nc_SandboxIndex c))) (\<lambda>w _.
                 bindr (appendResolverCarveOut f w subnet veth (nc_ResolverIP c)) (\<lambda>w _.
                 onErr (wrapf ''allow ns egress via ipset'')
                   (AppendUnique ipt w ''filter'' ''FORWARD''
                     ([''-s'', subnet, ''-o'', veth, ''-m'', ''set'', ''--match-set'',
                       SandboxIPSetName (nc_SandboxIndex c), ''dst''] @ comment_match
                      @ [''-j'', ''ACCEPT'']))))) (\<lambda>w _.
     onErr (wrapf ''reject ns egress fallthrough'')
       (AppendUnique ipt w ''filter'' ''FORWARD''
         ([''-s'', subnet, ''-o'', veth] @ comment_match @ reject_target))))))"

definition appendEgressDeny ::
  "'w iptablesFirewall \<Rightarrow> 'w \<Rightarrow> string \<Rightarrow> string \<Rightarrow> EgressPolicy \<Rightarrow> 'w \<times> unit result" where
  "appendEgressDeny f w subnet veth policy =
    bindr (appendDests (f_ipt f) w ''deny'' subnet veth reject_target (map AddrString (ep_IPs policy))) (\<lambda>w _.
    bindr (appendDests (f_ipt f) w ''deny'' subnet veth reject_target (map PrefixString (ep_CIDRs policy))) (\<lambda>w _.
    appendEgressAccept f w subnet veth))"

definition ConfigureNamespace ::
  "'w iptablesFirewall \<Rightarrow> 'w \<Rightarrow> NamespaceConfig \<Rightarrow> 'w \<times> unit result" where
  "ConfigureNamespace f w c =
    (if nc_NamespaceVethName c = [] then (w, Inl (New ''namespace veth name must be non-empty''))
     else if \<not> PrefixIsValid (nc_GuestSubnet c)
     then (w, Inl (New (''guest subnet '' @ quote (PrefixString (nc_GuestSubnet c)) @ '' is invalid'')))
     else let subnet = PrefixString (nc_GuestSubnet c); veth = nc_NamespaceVethName c in
     bindr (appendReturnAccept f w subnet veth) (\<lambda>w _.
     bindr (case nc_Egress c of
              None \<Rightarrow> appendEgressAccept f w subnet veth
            | Some p \<Rightarrow>
                if ep_Mode p = EgressAllow then appendEgressAllow f w subnet c p
                else if ep_Mode p = EgressDeny then appendEgressDeny f w subnet veth p
                else (w, Inl (New (''unsupported egress mode '' @ fmt_d (ep_Mode p))))) (\<lambda>w _.
     onErr (wrapf ''masquerade ns egress'')
       (AppendUnique (f_ipt f) w ''nat'' ''POSTROUTING''
         ([''-s'', subnet, ''-o'', veth] @ comment_match @ [''-j'', ''MASQUERADE''])))))"

section \<open>The rules of a namespace as a list\<close>

text \<open>What \<open>ConfigureNamespace\<close> is meant to install in \<open>filter/FORWARD\<close>, as one list.\<close>

definition dest_rule :: "string \<Rightarrow> string \<Rightarrow> rulespec \<Rightarrow> string \<Rightarrow> rulespec" where
  "dest_rule subnet veth target d = [''-s'', subnet, ''-o'', veth, ''-d'', d] @ comment_match @ target"

definition resolver_rule :: "string \<Rightarrow> string \<Rightarrow> Addr \<Rightarrow> string \<Rightarrow> rulespec" where
  "resolver_rule subnet veth r proto =
    [''-s'', subnet, ''-o'', veth, ''-d'', AddrString r, ''-p'', proto, ''--dport'', dnsPort]
    @ comment_match @ [''-j'', ''ACCEPT'']"

definition set_rule :: "string \<Rightarrow> string \<Rightarrow> int \<Rightarrow> rulespec" where
  "set_rule subnet veth index =
    [''-s'', subnet, ''-o'', veth, ''-m'', ''set'', ''--match-set'', SandboxIPSetName index, ''dst'']
    @ comment_match @ [''-j'', ''ACCEPT'']"

definition all_rule :: "string \<Rightarrow> string \<Rightarrow> rulespec \<Rightarrow> rulespec" where
  "all_rule subnet veth target = [''-s'', subnet, ''-o'', veth] @ comment_match @ target"

definition egress_rules :: "NamespaceConfig \<Rightarrow> rulespec list" where
  "egress_rules c =
    (let subnet = PrefixString (nc_GuestSubnet c); veth = nc_NamespaceVethName c;
         accept_all = all_rule subnet veth [''-j'', ''ACCEPT''];
         reject_all = all_rule subnet veth reject_target
     in case nc_Egress c of
          None \<Rightarrow> [accept_all]
        | Some p \<Rightarrow>
            let ds = map AddrString (ep_IPs p) @ map PrefixString (ep_CIDRs p) in
            if ep_Mode p = EgressAllow then
              map (dest_rule subnet veth [''-j'', ''ACCEPT'']) ds
              @ (if ep_Domains p = [] then []
                 else map (resolver_rule subnet veth (nc_ResolverIP c)) [''udp'', ''tcp'']
                      @ [set_rule subnet veth (nc_SandboxIndex c)])
              @ [reject_all]
            else map (dest_rule subnet veth reject_target) ds @ [accept_all])"

definition forward_rules :: "NamespaceConfig \<Rightarrow> rulespec list" where
  "forward_rules c =
    ([''-i'', nc_NamespaceVethName c, ''-d'', PrefixString (nc_GuestSubnet c),
      ''-m'', ''conntrack'', ''--ctstate'', ''RELATED,ESTABLISHED''] @ comment_match @ [''-j'', ''ACCEPT''])
    # egress_rules c"

definition addU :: "rulespec list \<Rightarrow> rulespec \<Rightarrow> rulespec list" where
  "addU rs r = (if r \<in> set rs then rs else rs @ [r])"

text \<open>The rules and chains \<open>EnsureHost\<close> leaves behind.\<close>

definition host_rules :: "string \<Rightarrow> string \<Rightarrow> (string \<times> string \<times> rulespec) list" where
  "host_rules upstream subnet =
    [(''filter'', ''FORWARD'', comment_match @ [''-j'', hostForwardChain]),
     (''filter'', hostForwardChain, [''-s'', subnet, ''-o'', upstream] @ comment_match @ [''-j'', ''ACCEPT'']),
     (''filter'', hostForwardChain,
      [''-i'', upstream, ''-d'', subnet, ''-m'', ''conntrack'', ''--ctstate'', ''RELATED,ESTABLISHED'']
      @ comment_match @ [''-j'', ''ACCEPT'']),
     (''nat'', ''POSTROUTING'', comment_match @ [''-j'', hostNATChain]),
     (''nat'', hostNATChain, [''-s'', subnet, ''-o'', upstream] @ comment_match @ [''-j'', ''MASQUERADE''])]"

lemma host_rules_mem:
  "(''filter'', ''FORWARD'', comment_match @ [''-j'', hostForwardChain]) \<in> set (host_rules u s)"
  "(''filter'', hostForwardChain, [''-s'', s, ''-o'', u] @ comment_match @ [''-j'', ''ACCEPT''])
     \<in> set (host_rules u s)"
  "(''filter'', hostForwardChain,
      [''-i'', u, ''-d'', s, ''-m'', ''conntrack'', ''--ctstate'', ''RELATED,ESTABLISHED'']
      @ comment_match @ [''-j'', ''ACCEPT'']) \<in> set (host_rules u s)"
  "(''nat'', ''POSTROUTING'', comment_match @ [''-j'', hostNATChain]) \<in> set (host_rules u s)"
  "(''nat'', hostNATChain, [''-s'', s, ''-o'', u] @ comment_match @ [''-j'', ''MASQUERADE''])
     \<in> set (host_rules u s)"
  by (simp_all add: host_rules_def)

text \<open>What the iptables client promises, for a view \<open>rules\<close> of the kernel's rule lists
  and \<open>has_chain\<close> of the chains that exist: \<open>AppendUnique\<close> appends a rule that is not there yet and changes no other chain, \<open>NewChain\<close> adds
  an empty chain, a failed call changes nothing, and creating an ipset changes no rule.\<close>

locale iptables_client =
  fixes f :: "'w iptablesFirewall"
    and rules :: "'w \<Rightarrow> string \<Rightarrow> string \<Rightarrow> rulespec list"
    and has_chain :: "'w \<Rightarrow> string \<Rightarrow> string \<Rightarrow> bool"
  assumes append_ok: "AppendUnique (f_ipt f) w t c r = (w', Inr ()) \<Longrightarrow>
      rules w' = (rules w)(t := (rules w t)(c := addU (rules w t c) r))"
    and append_err: "AppendUnique (f_ipt f) w t c r = (w', Inl e) \<Longrightarrow> rules w' = rules w"
    and new_ok: "NewChain (f_ipt f) w t c = (w', Inr ()) \<Longrightarrow>
      rules w' = (rules w)(t := (rules w t)(c := []))
      \<and> has_chain w' = (has_chain w)(t := (has_chain w t)(c := True))"
    and new_err: "NewChain (f_ipt f) w t c = (w', Inl e) \<Longrightarrow> rules w' = rules w"
    and exists_ok: "ChainExists (f_ipt f) w t c = Inr b \<Longrightarrow> b = has_chain w t c"
    and append_chains: "AppendUnique (f_ipt f) w t c r = (w', res) \<Longrightarrow> has_chain w' = has_chain w"
    and sets_rules: "f_sets f w i = (w', res) \<Longrightarrow> rules w' = rules w"
begin

abbreviation fwd :: "'w \<Rightarrow> rulespec list" where
  "fwd w \<equiv> rules w ''filter'' ''FORWARD''"

lemma append_fwd:
  "AppendUnique (f_ipt f) w ''filter'' ''FORWARD'' r = (w', Inr u) \<Longrightarrow> fwd w' = addU (fwd w) r"
  using append_ok by auto

lemma appendDests_fwd:
  "appendDests (f_ipt f) w verb subnet veth target ds = (w', Inr u) \<Longrightarrow>
   fwd w' = foldl addU (fwd w) (map (dest_rule subnet veth target) ds)"
proof (induction ds arbitrary: w)
  case Nil
  then show ?case by simp
next
  case (Cons d ds)
  then show ?case
    by (auto simp: bindr_ok onErr_ok dest_rule_def dest!: append_fwd)
qed

lemma resolverRules_fwd:
  "resolverRules (f_ipt f) w subnet veth r protos = (w', Inr u) \<Longrightarrow>
   fwd w' = foldl addU (fwd w) (map (resolver_rule subnet veth r) protos)"
proof (induction protos arbitrary: w)
  case Nil
  then show ?case by simp
next
  case (Cons d ds)
  then show ?case
    by (auto simp: bindr_ok onErr_ok resolver_rule_def dest!: append_fwd)
qed

lemmas step_simps = bindr_ok onErr_ok appendReturnAccept_def appendEgressAccept_def
  appendEgressAllow_def appendEgressDeny_def appendResolverCarveOut_def Let_def

lemma appendEgressAllow_fwd:
  assumes "appendEgressAllow f w (PrefixString (nc_GuestSubnet c)) c p = (w', Inr u)"
    and "nc_Egress c = Some p" "ep_Mode p = EgressAllow"
  shows "fwd w' = foldl addU (fwd w) (egress_rules c)"
  using assms
  by (auto simp: step_simps egress_rules_def resolver_rule_def set_rule_def all_rule_def
      dest!: append_fwd appendDests_fwd resolverRules_fwd sets_rules split: if_splits)

lemma appendEgressDeny_fwd:
  assumes "appendEgressDeny f w (PrefixString (nc_GuestSubnet c)) (nc_NamespaceVethName c) p = (w', Inr u)"
    and "nc_Egress c = Some p" "ep_Mode p = EgressDeny"
  shows "fwd w' = foldl addU (fwd w) (egress_rules c)"
  using assms
  by (auto simp: step_simps egress_rules_def all_rule_def EgressAllow_def EgressDeny_def
      dest!: append_fwd appendDests_fwd)

lemma masquerade_fwd:
  "AppendUnique (f_ipt f) w ''nat'' ''POSTROUTING'' r = (w', Inr u) \<Longrightarrow>
   fwd w' = fwd w \<and> rules w' ''nat'' ''POSTROUTING'' = addU (rules w ''nat'' ''POSTROUTING'') r"
  using append_ok by auto

text \<open>\<open>inv w K C\<close>: the rules \<open>K\<close> and the chains \<open>C\<close> are in place.\<close>

abbreviation inv :: "'w \<Rightarrow> (string \<times> string \<times> rulespec) set \<Rightarrow> (string \<times> string) set \<Rightarrow> bool" where
  "inv w K C \<equiv> (\<forall>(t, c, r) \<in> K. r \<in> set (rules w t c)) \<and> (\<forall>(t, c) \<in> C. has_chain w t c)"

lemma append_inv:
  assumes "AppendUnique (f_ipt f) w t c r = (w', Inr u)" "inv w K C"
  shows "inv w' (insert (t, c, r) K) C"
  using assms append_ok [of w t c r w'] append_chains [of w t c r w' "Inr u"]
  by (auto simp: addU_def)

lemma append_same:
  assumes "AppendUnique (f_ipt f) w t c r = (w', Inr u)" "inv w K C" "(t, c, r) \<in> K"
  shows "rules w' = rules w \<and> inv w' K C"
  using assms append_ok [of w t c r w'] append_chains [of w t c r w' "Inr u"]
  by (auto simp: addU_def)

lemma ensureChain_inv:
  assumes "ensureChain (f_ipt f) w t c = (w', Inr u)" "inv w K C" "\<forall>r. (t, c, r) \<notin> K"
  shows "inv w' K (insert (t, c) C)"
proof (cases "has_chain w t c")
  case True
  with assms show ?thesis
    by (auto simp: ensureChain_def split: sum.splits if_splits dest: exists_ok)
next
  case False
  with assms(1) have "NewChain (f_ipt f) w t c = (w', Inr ())"
    by (auto simp: ensureChain_def onErr_ok split: sum.splits if_splits dest: exists_ok)
  from new_ok [OF this] assms(2,3) show ?thesis by (auto split: if_splits)
qed

lemma ensureChain_same:
  "ensureChain (f_ipt f) w t c = (w', Inr u) \<Longrightarrow> has_chain w t c \<Longrightarrow> w' = w"
  by (auto simp: ensureChain_def onErr_ok split: sum.splits if_splits dest: exists_ok)

lemma EnsureHostE:
  assumes "EnsureHost f w upstream vm = (w', Inr x)"
  obtains w1 w2 w3 w4 w5 w6 where
    "ensureChain (f_ipt f) w ''filter'' hostForwardChain = (w1, Inr ())"
    "AppendUnique (f_ipt f) w1 ''filter'' ''FORWARD'' (comment_match @ [''-j'', hostForwardChain]) = (w2, Inr ())"
    "AppendUnique (f_ipt f) w2 ''filter'' hostForwardChain
       ([''-s'', PrefixString vm, ''-o'', upstream] @ comment_match @ [''-j'', ''ACCEPT'']) = (w3, Inr ())"
    "AppendUnique (f_ipt f) w3 ''filter'' hostForwardChain
       ([''-i'', upstream, ''-d'', PrefixString vm, ''-m'', ''conntrack'', ''--ctstate'', ''RELATED,ESTABLISHED'']
        @ comment_match @ [''-j'', ''ACCEPT'']) = (w4, Inr ())"
    "ensureChain (f_ipt f) w4 ''nat'' hostNATChain = (w5, Inr ())"
    "AppendUnique (f_ipt f) w5 ''nat'' ''POSTROUTING'' (comment_match @ [''-j'', hostNATChain]) = (w6, Inr ())"
    "AppendUnique (f_ipt f) w6 ''nat'' hostNATChain
       ([''-s'', PrefixString vm, ''-o'', upstream] @ comment_match @ [''-j'', ''MASQUERADE'']) = (w', Inr ())"
  using assms by (auto simp: EnsureHost_def bindr_ok onErr_ok Let_def split: if_splits)

lemma EnsureHost_inv:
  assumes "EnsureHost f w upstream vm = (w', Inr x)"
  shows "inv w' (set (host_rules upstream (PrefixString vm)))
           {(''filter'', hostForwardChain), (''nat'', hostNATChain)}"
  using assms
proof (rule EnsureHostE)
  fix w1 w2 w3 w4 w5 w6
  assume a: "ensureChain (f_ipt f) w ''filter'' hostForwardChain = (w1, Inr ())"
    "AppendUnique (f_ipt f) w1 ''filter'' ''FORWARD'' (comment_match @ [''-j'', hostForwardChain]) = (w2, Inr ())"
    "AppendUnique (f_ipt f) w2 ''filter'' hostForwardChain
       ([''-s'', PrefixString vm, ''-o'', upstream] @ comment_match @ [''-j'', ''ACCEPT'']) = (w3, Inr ())"
    "AppendUnique (f_ipt f) w3 ''filter'' hostForwardChain
       ([''-i'', upstream, ''-d'', PrefixString vm, ''-m'', ''conntrack'', ''--ctstate'', ''RELATED,ESTABLISHED'']
        @ comment_match @ [''-j'', ''ACCEPT'']) = (w4, Inr ())"
    "ensureChain (f_ipt f) w4 ''nat'' hostNATChain = (w5, Inr ())"
    "AppendUnique (f_ipt f) w5 ''nat'' ''POSTROUTING'' (comment_match @ [''-j'', hostNATChain]) = (w6, Inr ())"
    "AppendUnique (f_ipt f) w6 ''nat'' hostNATChain
       ([''-s'', PrefixString vm, ''-o'', upstream] @ comment_match @ [''-j'', ''MASQUERADE'']) = (w', Inr ())"
  have 0: "inv w {} {}" by simp
  have 1: "inv w1 {} {(''filter'', hostForwardChain)}"
    using ensureChain_inv [OF a(1) 0] by simp
  note 4 = append_inv [OF a(4) append_inv [OF a(3) append_inv [OF a(2) 1]]]
  show ?thesis
    using append_inv [OF a(7) append_inv [OF a(6) ensureChain_inv [OF a(5) 4]]]
    by (simp add: host_rules_def insert_commute)
qed

lemma EnsureHost_same:
  assumes "EnsureHost f w upstream vm = (w', Inr x)"
    and i: "inv w (set (host_rules upstream (PrefixString vm)))
           {(''filter'', hostForwardChain), (''nat'', hostNATChain)}"
  shows "rules w' = rules w"
  using assms(1)
proof (rule EnsureHostE)
  fix w1 w2 w3 w4 w5 w6
  assume a: "ensureChain (f_ipt f) w ''filter'' hostForwardChain = (w1, Inr ())"
    "AppendUnique (f_ipt f) w1 ''filter'' ''FORWARD'' (comment_match @ [''-j'', hostForwardChain]) = (w2, Inr ())"
    "AppendUnique (f_ipt f) w2 ''filter'' hostForwardChain
       ([''-s'', PrefixString vm, ''-o'', upstream] @ comment_match @ [''-j'', ''ACCEPT'']) = (w3, Inr ())"
    "AppendUnique (f_ipt f) w3 ''filter'' hostForwardChain
       ([''-i'', upstream, ''-d'', PrefixString vm, ''-m'', ''conntrack'', ''--ctstate'', ''RELATED,ESTABLISHED'']
        @ comment_match @ [''-j'', ''ACCEPT'']) = (w4, Inr ())"
    "ensureChain (f_ipt f) w4 ''nat'' hostNATChain = (w5, Inr ())"
    "AppendUnique (f_ipt f) w5 ''nat'' ''POSTROUTING'' (comment_match @ [''-j'', hostNATChain]) = (w6, Inr ())"
    "AppendUnique (f_ipt f) w6 ''nat'' hostNATChain
       ([''-s'', PrefixString vm, ''-o'', upstream] @ comment_match @ [''-j'', ''MASQUERADE'']) = (w', Inr ())"
  have w1: "w1 = w" using ensureChain_same [OF a(1)] i by simp
  note 2 = append_same [OF a(2) [unfolded w1] i host_rules_mem(1)]
  note 3 = append_same [OF a(3) conjunct2 [OF 2] host_rules_mem(2)]
  note 4 = append_same [OF a(4) conjunct2 [OF 3] host_rules_mem(3)]
  have w5: "w5 = w4" using ensureChain_same [OF a(5)] 4 by simp
  note 6 = append_same [OF a(6) [unfolded w5] conjunct2 [OF 4] host_rules_mem(4)]
  note 7 = append_same [OF a(7) conjunct2 [OF 6] host_rules_mem(5)]
  show ?thesis
    using conjunct1 [OF 2] conjunct1 [OF 3] conjunct1 [OF 4] conjunct1 [OF 6] conjunct1 [OF 7] by simp
qed

lemma ConfigureNamespace_fwd:
  assumes "ConfigureNamespace f w c = (w', Inr u)"
  shows "fwd w' = foldl addU (fwd w) (forward_rules c)"
proof -
  let ?s = "PrefixString (nc_GuestSubnet c)" and ?v = "nc_NamespaceVethName c"
  let ?ret = "hd (forward_rules c)"
  from assms obtain w1 w2 where
    ret: "appendReturnAccept f w ?s ?v = (w1, Inr ())"
    and eg: "(case nc_Egress c of None \<Rightarrow> appendEgressAccept f w1 ?s ?v
        | Some p \<Rightarrow> if ep_Mode p = EgressAllow then appendEgressAllow f w1 ?s c p
            else if ep_Mode p = EgressDeny then appendEgressDeny f w1 ?s ?v p
            else (w1, Inl (New (''unsupported egress mode '' @ fmt_d (ep_Mode p))))) = (w2, Inr ())"
    and fin: "fwd w' = fwd w2"
    by (auto simp: ConfigureNamespace_def bindr_ok onErr_ok Let_def split: if_splits
        dest!: masquerade_fwd)
  have 1: "fwd w1 = addU (fwd w) ?ret"
    using ret by (auto simp: appendReturnAccept_def onErr_ok forward_rules_def dest!: append_fwd)
  have "fwd w2 = foldl addU (fwd w1) (egress_rules c)"
  proof (cases "nc_Egress c")
    case None
    with eg show ?thesis
      by (auto simp: appendEgressAccept_def onErr_ok egress_rules_def all_rule_def Let_def
          dest!: append_fwd)
  next
    case (Some p)
    with eg show ?thesis
      by (auto simp: split: if_splits dest: appendEgressAllow_fwd appendEgressDeny_fwd)
  qed
  then show ?thesis unfolding fin 1 by (simp add: forward_rules_def)
qed

end

section \<open>Verdicts\<close>

text \<open>A packet as a FORWARD rule sees it. Its conntrack state is one of the names iptables uses.\<close>

record packet =
  pk_src :: "32 word"
  pk_dst :: "32 word"
  pk_in :: string
  pk_out :: string
  pk_proto :: string
  pk_dport :: nat
  pk_state :: string

fun target_of :: "rulespec \<Rightarrow> string option" where
  "target_of (x # y # r) = (if x = ''-j'' then Some y else target_of (y # r))"
| "target_of _ = None"

text \<open>First match: the target of the first rule that matches, \<open>None\<close> when the chain's policy
  decides. \<open>mt\<close> says which rules match.\<close>

fun verdict :: "(rulespec \<Rightarrow> bool) \<Rightarrow> rulespec list \<Rightarrow> string option" where
  "verdict mt [] = None"
| "verdict mt (r # rs) = (if mt r then target_of r else verdict mt rs)"

lemma verdict_append:
  assumes "\<forall>r \<in> set xs. target_of r \<noteq> None"
  shows "verdict mt (xs @ ys) = (case verdict mt xs of None \<Rightarrow> verdict mt ys | Some t \<Rightarrow> Some t)"
  using assms by (induction xs) auto

lemma verdict_None: "\<forall>r \<in> set xs. target_of r \<noteq> None \<Longrightarrow>
    verdict mt xs = None \<longleftrightarrow> (\<forall>r \<in> set xs. \<not> mt r)"
  by (induction xs) auto

lemma verdict_addU:
  assumes "\<forall>r \<in> set xs. target_of r \<noteq> None"
  shows "verdict mt (addU xs r) = verdict mt (xs @ [r])"
proof (cases "r \<in> set xs \<and> mt r")
  case True
  then have "verdict mt xs \<noteq> None" using verdict_None [OF assms] by blast
  then show ?thesis using True by (auto simp: addU_def verdict_append [OF assms])
next
  case False
  then show ?thesis
    by (auto simp: addU_def verdict_append [OF assms] split: option.splits)
qed

lemma addU_targets:
  "\<forall>r \<in> set (xs @ [r]). target_of r \<noteq> None \<Longrightarrow> \<forall>r \<in> set (addU xs r). target_of r \<noteq> None"
  by (simp add: addU_def)

text \<open>Dropping rules that are already present never changes a verdict.\<close>

lemma verdict_foldl_addU:
  "\<forall>r \<in> set (xs @ ys). target_of r \<noteq> None \<Longrightarrow>
   verdict mt (foldl addU xs ys) = verdict mt (xs @ ys)"
proof (induction ys arbitrary: xs)
  case Nil
  then show ?case by simp
next
  case (Cons y ys)
  then have t: "\<forall>r \<in> set (addU xs y @ ys). target_of r \<noteq> None"
    by (auto simp: addU_def)
  have v: "verdict mt (addU xs y) = verdict mt (xs @ [y])"
    using Cons.prems by (intro verdict_addU) simp
  have "verdict mt (foldl addU xs (y # ys)) = verdict mt (addU xs y @ ys)"
    using Cons.IH [OF t] by simp
  also have "\<dots> = verdict mt ((xs @ [y]) @ ys)"
    using Cons.prems t v by (simp only: verdict_append set_append)
      (auto simp: verdict_append split: option.splits)
  finally show ?case by simp
qed

lemma verdict_map:
  "\<forall>d \<in> set ds. target_of (g d) = Some t \<Longrightarrow>
   verdict mt (map g ds) = (if \<exists>d \<in> set ds. mt (g d) then Some t else None)"
  by (induction ds) auto

lemma verdict_same:
  "\<forall>r \<in> set rs. target_of r = Some t \<Longrightarrow>
   verdict mt rs = (if \<exists>r \<in> set rs. mt r then Some t else None)"
  by (induction rs) auto

text \<open>Interface names that iptables takes literally: no option, no trailing wildcard.\<close>

definition plain_name :: "string \<Rightarrow> bool" where
  "plain_name s = (s \<noteq> [] \<and> hd s \<noteq> CHR ''-'' \<and> CHR ''+'' \<notin> set s)"

text \<open>The reading of a rule string, option by option, as the manual of iptables gives it for the
  options this package writes; \<open>S n a\<close> says that address \<open>a\<close> is in the ipset \<open>n\<close>.\<close>

locale rule_reading =
  fixes matches :: "(string \<Rightarrow> Addr \<Rightarrow> bool) \<Rightarrow> rulespec \<Rightarrow> packet \<Rightarrow> bool"
  assumes m_s: "b \<le> 32 \<Longrightarrow> matches S (''-s'' # PrefixString (PrefixFrom (Addr4 n) (int b)) # r) pk =
      (PrefixContains (PrefixFrom (Addr4 n) (int b)) (Addr4 (pk_src pk)) \<and> matches S r pk)"
    and m_d_net: "b \<le> 32 \<Longrightarrow> matches S (''-d'' # PrefixString (PrefixFrom (Addr4 n) (int b)) # r) pk =
      (PrefixContains (PrefixFrom (Addr4 n) (int b)) (Addr4 (pk_dst pk)) \<and> matches S r pk)"
    and m_d_addr: "matches S (''-d'' # AddrString (Addr4 a) # r) pk = (pk_dst pk = a \<and> matches S r pk)"
    and m_i: "plain_name i \<Longrightarrow> matches S (''-i'' # i # r) pk = (pk_in pk = i \<and> matches S r pk)"
    and m_o: "plain_name i \<Longrightarrow> matches S (''-o'' # i # r) pk = (pk_out pk = i \<and> matches S r pk)"
    and m_p: "proto \<in> {''udp'', ''tcp''} \<Longrightarrow>
      matches S (''-p'' # proto # r) pk = (pk_proto pk = proto \<and> matches S r pk)"
    and m_dport: "matches S (''--dport'' # dec_nat k # r) pk = (pk_dport pk = k \<and> matches S r pk)"
    and m_comment: "matches S (''-m'' # ''comment'' # ''--comment'' # c # r) pk = matches S r pk"
    and m_set: "matches S (''-m'' # ''set'' # ''--match-set'' # s # ''dst'' # r) pk =
      (S s (Addr4 (pk_dst pk)) \<and> matches S r pk)"
    and m_ct: "matches S (''-m'' # ''conntrack'' # ''--ctstate'' # ''RELATED,ESTABLISHED'' # r) pk =
      (pk_state pk \<in> {''RELATED'', ''ESTABLISHED''} \<and> matches S r pk)"
    and m_j: "matches S (''-j'' # t # r) pk = True"

text \<open>An executable reading, option by option.\<close>

definition dest_match :: "string \<Rightarrow> 32 word \<Rightarrow> bool" where
  "dest_match s a = (case ParsePrefix s of
     Some p \<Rightarrow> PrefixContains p (Addr4 a) | None \<Rightarrow> ParseAddr s = Some (Addr4 a))"

fun match_spec :: "(string \<Rightarrow> Addr \<Rightarrow> bool) \<Rightarrow> rulespec \<Rightarrow> packet \<Rightarrow> bool" where
  "match_spec S (x # y # r) pk =
    (if x = ''-s'' then dest_match y (pk_src pk) \<and> match_spec S r pk
     else if x = ''-d'' then dest_match y (pk_dst pk) \<and> match_spec S r pk
     else if x = ''-i'' then pk_in pk = y \<and> match_spec S r pk
     else if x = ''-o'' then pk_out pk = y \<and> match_spec S r pk
     else if x = ''-p'' then pk_proto pk = y \<and> match_spec S r pk
     else if x = ''--dport'' then y = dec_nat (pk_dport pk) \<and> match_spec S r pk
     else if x = ''-m'' then match_spec S r pk
     else if x = ''--comment'' then match_spec S r pk
     else if x = ''--match-set'' then S y (Addr4 (pk_dst pk)) \<and> match_spec S (tl r) pk
     else if x = ''--ctstate'' then pk_state pk \<in> {''RELATED'', ''ESTABLISHED''} \<and> match_spec S r pk
     else x = ''-j'')"
| "match_spec S _ pk = True"

lemma slash_not_dotted: "CHR ''/'' \<notin> set (dotted w)"
  by (simp add: dotted_def PutUint32_def slash_not_digit)

lemma ParsePrefix_dotted: "ParsePrefix (dotted w) = None"
proof -
  have "dropWhile (\<lambda>c. c \<noteq> CHR ''/'') (rev (dotted w)) = []"
    using slash_not_dotted [of w] by (auto simp: dropWhile_eq_Nil_conv)
  then show ?thesis by (simp add: ParsePrefix_def)
qed

interpretation mr: rule_reading match_spec
  by unfold_locales
    (auto simp: dest_match_def ParsePrefix_v4 ParsePrefix_dotted ParseAddr_dotted AddrString_def)

section \<open>Policies and packets\<close>

definition v4_addr :: "Addr \<Rightarrow> bool" where
  "v4_addr a = (case a of Addr4 _ \<Rightarrow> True | _ \<Rightarrow> False)"

definition v4_prefix :: "Prefix \<Rightarrow> bool" where
  "v4_prefix p = (PrefixIsValid p \<and> v4_addr (pfx_Addr p))"

definition v4_config :: "NamespaceConfig \<Rightarrow> bool" where
  "v4_config c = (v4_prefix (nc_GuestSubnet c) \<and> plain_name (nc_NamespaceVethName c) \<and>
     (case nc_Egress c of None \<Rightarrow> True | Some p \<Rightarrow> list_all v4_addr (ep_IPs p) \<and>
        list_all v4_prefix (ep_CIDRs p) \<and> (ep_Domains p \<noteq> [] \<longrightarrow> v4_addr (nc_ResolverIP c))))"

definition listed :: "EgressPolicy \<Rightarrow> 32 word \<Rightarrow> bool" where
  "listed p a = (Addr4 a \<in> set (ep_IPs p) \<or> (\<exists>q \<in> set (ep_CIDRs p). PrefixContains q (Addr4 a)))"

definition from_guest :: "NamespaceConfig \<Rightarrow> packet \<Rightarrow> bool" where
  "from_guest c pk = (PrefixContains (nc_GuestSubnet c) (Addr4 (pk_src pk)) \<and>
     pk_out pk = nc_NamespaceVethName c \<and> pk_in pk \<noteq> nc_NamespaceVethName c)"

text \<open>The destinations an allow policy opens beyond the listed ones when it names domains: what
  the DNS responder put into the sandbox's ipset, and the responder itself on port 53.\<close>

definition via_domains ::
  "(string \<Rightarrow> Addr \<Rightarrow> bool) \<Rightarrow> NamespaceConfig \<Rightarrow> EgressPolicy \<Rightarrow> packet \<Rightarrow> bool" where
  "via_domains S c p pk = (ep_Domains p \<noteq> [] \<and>
     (S (SandboxIPSetName (nc_SandboxIndex c)) (Addr4 (pk_dst pk)) \<or>
      (nc_ResolverIP c = Addr4 (pk_dst pk) \<and> pk_proto pk \<in> {''udp'', ''tcp''} \<and> pk_dport pk = 53)))"

text \<open>The verdict a policy asks for, for a packet that leaves the guest.\<close>

definition egress_verdict ::
  "(string \<Rightarrow> Addr \<Rightarrow> bool) \<Rightarrow> NamespaceConfig \<Rightarrow> packet \<Rightarrow> string" where
  "egress_verdict S c pk =
    (case nc_Egress c of
        None \<Rightarrow> ''ACCEPT''
      | Some p \<Rightarrow>
          if ep_Mode p = EgressAllow
          then if listed p (pk_dst pk) \<or> via_domains S c p pk then ''ACCEPT'' else ''REJECT''
          else if listed p (pk_dst pk) then ''REJECT'' else ''ACCEPT'')"

lemma v4_prefixE:
  assumes "v4_prefix p"
  obtains n b where "p = PrefixFrom (Addr4 n) (int b)" "b \<le> 32"
proof -
  obtain a i where p: "p = PrefixFrom a i" by (cases p)
  with assms obtain n where "a = Addr4 n" "0 \<le> i" "i \<le> 32"
    by (auto simp: v4_prefix_def v4_addr_def PrefixIsValid_def split: Addr.splits)
  then show thesis using that [of n "nat i"] p by simp
qed

lemma v4_addrE: "v4_addr a \<Longrightarrow> (\<And>w. a = Addr4 w \<Longrightarrow> thesis) \<Longrightarrow> thesis"
  by (cases a) (auto simp: v4_addr_def)

lemma dnsPort_dec: "dnsPort = dec_nat 53"
  by (simp add: dnsPort_def dec_nat.simps)

lemma hd_dotted: "dotted w \<noteq> [] \<and> is_digit (hd (dotted w))"
proof -
  obtain n r where "dotted w = dec_nat n @ CHR ''.'' # r"
    by (force simp: dotted_def PutUint32_def)
  then show ?thesis using dec_nat_spec [of n] by (cases "dec_nat n") auto
qed

lemma addr_not_option: "AddrString (Addr4 w) \<noteq> CHR ''-'' # s"
  using hd_dotted [of w] by (auto simp: AddrString_def is_digit_def)

lemma prefix_not_option:
  assumes "v4_prefix p"
  shows "PrefixString p \<noteq> CHR ''-'' # s"
proof -
  from assms obtain n b where "p = PrefixFrom (Addr4 n) (int b)" "b \<le> 32"
    by (rule v4_prefixE)
  then have "PrefixString p = dotted n @ ''/'' @ fmt_d (int b)"
    by (simp add: PrefixString_def AddrString_def PrefixIsValid_def)
  then show ?thesis
    using hd_dotted [of n] by (cases "dotted n") (auto simp: is_digit_def)
qed

lemma plain_not_option: "plain_name v \<Longrightarrow> v \<noteq> CHR ''-'' # s"
  by (auto simp: plain_name_def)

lemmas not_option = addr_not_option prefix_not_option plain_not_option

lemma config_not_option:
  assumes "v4_config c"
  shows "PrefixString (nc_GuestSubnet c) \<noteq> ''-j''" "nc_NamespaceVethName c \<noteq> ''-j''"
  using assms by (simp_all add: v4_config_def not_option)

lemma rule_targets:
  assumes "v4_config c"
  shows "target_of (all_rule (PrefixString (nc_GuestSubnet c)) (nc_NamespaceVethName c) (''-j'' # t # u)) = Some t"
    and "target_of (set_rule (PrefixString (nc_GuestSubnet c)) (nc_NamespaceVethName c) i) = Some ''ACCEPT''"
    and "v4_addr r \<Longrightarrow> proto \<noteq> ''-j'' \<Longrightarrow>
      target_of (resolver_rule (PrefixString (nc_GuestSubnet c)) (nc_NamespaceVethName c) r proto) = Some ''ACCEPT''"
  using config_not_option [OF assms]
  by (auto simp: all_rule_def set_rule_def resolver_rule_def comment_match_def ruleComment_def
      SandboxIPSetName_def sandboxIPSetPrefix_def dnsPort_def addr_not_option elim!: v4_addrE)

lemma dest_targets:
  assumes "v4_config c" "nc_Egress c = Some p"
    and "d \<in> set (map AddrString (ep_IPs p) @ map PrefixString (ep_CIDRs p))"
  shows "target_of (dest_rule (PrefixString (nc_GuestSubnet c)) (nc_NamespaceVethName c) (''-j'' # t # u) d)
         = Some t"
proof -
  from assms have ip: "\<forall>a \<in> set (ep_IPs p). v4_addr a" and net: "\<forall>q \<in> set (ep_CIDRs p). v4_prefix q"
    by (auto simp: v4_config_def list_all_iff)
  from assms(3) consider a where "a \<in> set (ep_IPs p)" "d = AddrString a"
    | q where "q \<in> set (ep_CIDRs p)" "d = PrefixString q" by auto
  then have "d \<noteq> ''-j''"
    by cases (metis ip addr_not_option v4_addrE, metis net prefix_not_option)
  then show ?thesis
    using config_not_option [OF assms(1)]
    by (simp add: dest_rule_def comment_match_def ruleComment_def)
qed

locale namespace_filter = iptables_client f rules has_chain + rule_reading matches
  for f :: "'w iptablesFirewall"
    and rules :: "'w \<Rightarrow> string \<Rightarrow> string \<Rightarrow> rulespec list"
    and has_chain :: "'w \<Rightarrow> string \<Rightarrow> string \<Rightarrow> bool"
    and matches :: "(string \<Rightarrow> Addr \<Rightarrow> bool) \<Rightarrow> rulespec \<Rightarrow> packet \<Rightarrow> bool"
begin

lemma comment_skip: "matches S (comment_match @ r) pk = matches S r pk"
  by (simp add: comment_match_def m_comment)

lemma guest_skip:
  assumes "v4_config c" "from_guest c pk"
  shows "matches S (''-s'' # PrefixString (nc_GuestSubnet c) # ''-o'' # nc_NamespaceVethName c # r) pk
         = matches S r pk"
proof -
  from assms obtain n b where "nc_GuestSubnet c = PrefixFrom (Addr4 n) (int b)" "b \<le> 32"
    by (auto simp: v4_config_def elim: v4_prefixE)
  then show ?thesis using assms by (simp add: m_s m_o v4_config_def from_guest_def)
qed

lemma dest_rule_ip:
  assumes "v4_config c" "from_guest c pk" "v4_addr a"
  shows "matches S (dest_rule (PrefixString (nc_GuestSubnet c)) (nc_NamespaceVethName c)
           (''-j'' # t # u) (AddrString a)) pk = (a = Addr4 (pk_dst pk))"
  using guest_skip [OF assms(1,2)] assms(3)
  by (auto simp: dest_rule_def m_d_addr comment_skip m_j elim!: v4_addrE)

lemma dest_rule_net:
  assumes "v4_config c" "from_guest c pk" "v4_prefix q"
  shows "matches S (dest_rule (PrefixString (nc_GuestSubnet c)) (nc_NamespaceVethName c)
           (''-j'' # t # u) (PrefixString q)) pk = PrefixContains q (Addr4 (pk_dst pk))"
  using guest_skip [OF assms(1,2)] assms(3)
  by (auto simp: dest_rule_def m_d_net comment_skip m_j elim!: v4_prefixE)

lemma dests_verdict:
  assumes "v4_config c" "from_guest c pk" "nc_Egress c = Some p"
  shows "verdict (\<lambda>r. matches S r pk)
           (map (dest_rule (PrefixString (nc_GuestSubnet c)) (nc_NamespaceVethName c) (''-j'' # t # u))
             (map AddrString (ep_IPs p) @ map PrefixString (ep_CIDRs p)))
         = (if listed p (pk_dst pk) then Some t else None)"
proof -
  let ?g = "dest_rule (PrefixString (nc_GuestSubnet c)) (nc_NamespaceVethName c) (''-j'' # t # u)"
  let ?ds = "map AddrString (ep_IPs p) @ map PrefixString (ep_CIDRs p)"
  from assms have ip: "\<forall>a \<in> set (ep_IPs p). v4_addr a"
    and net: "\<forall>q \<in> set (ep_CIDRs p). v4_prefix q"
    by (auto simp: v4_config_def list_all_iff)
  have "(\<exists>d \<in> set ?ds. matches S (?g d) pk) \<longleftrightarrow>
        (\<exists>a \<in> set (ep_IPs p). matches S (?g (AddrString a)) pk) \<or>
        (\<exists>q \<in> set (ep_CIDRs p). matches S (?g (PrefixString q)) pk)"
    by auto
  also have "(\<exists>a \<in> set (ep_IPs p). matches S (?g (AddrString a)) pk) \<longleftrightarrow> Addr4 (pk_dst pk) \<in> set (ep_IPs p)"
    using ip by (auto simp: dest_rule_ip [OF assms(1,2)])
  also have "(\<exists>q \<in> set (ep_CIDRs p). matches S (?g (PrefixString q)) pk) \<longleftrightarrow>
      (\<exists>q \<in> set (ep_CIDRs p). PrefixContains q (Addr4 (pk_dst pk)))"
    using net by (auto simp: dest_rule_net [OF assms(1,2)])
  finally show ?thesis
    using dest_targets [OF assms(1,3)]
    by (subst verdict_map [where t = t]) (auto simp: listed_def)
qed

lemma resolver_rule_match:
  assumes "v4_config c" "from_guest c pk" "v4_addr r" "proto \<in> {''udp'', ''tcp''}"
  shows "matches S (resolver_rule (PrefixString (nc_GuestSubnet c)) (nc_NamespaceVethName c) r proto) pk
         = (r = Addr4 (pk_dst pk) \<and> pk_proto pk = proto \<and> pk_dport pk = 53)"
  using guest_skip [OF assms(1,2)] assms(3,4) m_p [OF assms(4)]
  by (auto simp: resolver_rule_def dnsPort_dec m_d_addr m_dport comment_skip m_j elim!: v4_addrE)

lemma set_rule_match:
  assumes "v4_config c" "from_guest c pk"
  shows "matches S (set_rule (PrefixString (nc_GuestSubnet c)) (nc_NamespaceVethName c) i) pk
         = S (SandboxIPSetName i) (Addr4 (pk_dst pk))"
  using guest_skip [OF assms] by (simp add: set_rule_def m_set comment_skip m_j)

lemma all_rule_match:
  assumes "v4_config c" "from_guest c pk"
  shows "matches S (all_rule (PrefixString (nc_GuestSubnet c)) (nc_NamespaceVethName c) (''-j'' # t # u)) pk"
  using guest_skip [OF assms] by (simp add: all_rule_def comment_skip m_j)

end

context namespace_filter
begin

lemma domains_verdict:
  assumes c: "v4_config c" and g: "from_guest c pk" and p: "nc_Egress c = Some p"
  shows "verdict (\<lambda>r. matches S r pk)
      (if ep_Domains p = [] then []
       else map (resolver_rule (PrefixString (nc_GuestSubnet c)) (nc_NamespaceVethName c) (nc_ResolverIP c))
              [''udp'', ''tcp'']
            @ [set_rule (PrefixString (nc_GuestSubnet c)) (nc_NamespaceVethName c) (nc_SandboxIndex c)])
      = (if via_domains S c p pk then Some ''ACCEPT'' else None)"
proof (cases "ep_Domains p = []")
  case True
  then show ?thesis by (simp add: via_domains_def)
next
  case False
  then have r: "v4_addr (nc_ResolverIP c)" using c p by (simp add: v4_config_def)
  show ?thesis
    using False
    by (subst verdict_same [where t = "''ACCEPT''"])
      (auto simp: rule_targets [OF c] r resolver_rule_match [OF c g r] set_rule_match [OF c g]
        via_domains_def)
qed

lemma egress_allow_verdict:
  assumes c: "v4_config c" and g: "from_guest c pk"
    and p: "nc_Egress c = Some p" "ep_Mode p = EgressAllow"
  shows "verdict (\<lambda>r. matches S r pk) (egress_rules c)
         = (if listed p (pk_dst pk) \<or> via_domains S c p pk then Some ''ACCEPT'' else Some ''REJECT'')"
proof -
  let ?s = "PrefixString (nc_GuestSubnet c)" and ?v = "nc_NamespaceVethName c"
  let ?A = "map (dest_rule ?s ?v [''-j'', ''ACCEPT''])
             (map AddrString (ep_IPs p) @ map PrefixString (ep_CIDRs p))"
  let ?B = "if ep_Domains p = [] then [] else map (resolver_rule ?s ?v (nc_ResolverIP c)) [''udp'', ''tcp'']
            @ [set_rule ?s ?v (nc_SandboxIndex c)]"
  have eq: "egress_rules c = ?A @ ?B @ [all_rule ?s ?v reject_target]"
    unfolding egress_rules_def Let_def p(1) option.case by (simp only: p(2) if_True refl)
  have A: "\<forall>r \<in> set ?A. target_of r \<noteq> None"
    using dest_targets [OF c p(1), where t = "''ACCEPT''" and u = "[]"]
    by (simp only: set_map ball_simps) simp
  have B: "\<forall>r \<in> set ?B. target_of r \<noteq> None"
    using c p by (auto simp: rule_targets [OF c] v4_config_def)
  show ?thesis
    unfolding eq verdict_append [OF A] verdict_append [OF B] dests_verdict [OF c g p(1)]
      domains_verdict [OF c g p(1)]
    by (simp add: reject_target_def all_rule_match [OF c g] rule_targets [OF c])
qed

lemma egress_deny_verdict:
  assumes c: "v4_config c" and g: "from_guest c pk"
    and p: "nc_Egress c = Some p" "ep_Mode p \<noteq> EgressAllow"
  shows "verdict (\<lambda>r. matches S r pk) (egress_rules c)
         = (if listed p (pk_dst pk) then Some ''REJECT'' else Some ''ACCEPT'')"
proof -
  let ?s = "PrefixString (nc_GuestSubnet c)" and ?v = "nc_NamespaceVethName c"
  let ?A = "map (dest_rule ?s ?v reject_target)
             (map AddrString (ep_IPs p) @ map PrefixString (ep_CIDRs p))"
  have eq: "egress_rules c = ?A @ [all_rule ?s ?v [''-j'', ''ACCEPT'']]"
    unfolding egress_rules_def Let_def p(1) option.case by (simp only: p(2) if_False refl)
  have A: "\<forall>r \<in> set ?A. target_of r \<noteq> None"
    using dest_targets [OF c p(1), where t = "''REJECT''"] unfolding reject_target_def
    by (simp only: set_map ball_simps) simp
  show ?thesis
    unfolding eq verdict_append [OF A] unfolding reject_target_def dests_verdict [OF c g p(1)]
    by (simp add: all_rule_match [OF c g] rule_targets [OF c])
qed

lemma egress_none_verdict:
  assumes c: "v4_config c" and g: "from_guest c pk" and p: "nc_Egress c = None"
  shows "verdict (\<lambda>r. matches S r pk) (egress_rules c) = Some ''ACCEPT''"
  using p by (simp add: egress_rules_def all_rule_match [OF c g] rule_targets [OF c])

text \<open>Every rule of a namespace names a target, so the verdict on the installed chain is the
  verdict on \<open>egress_rules\<close>: the return rule does not match a packet leaving the guest.\<close>

lemma forward_targets:
  assumes "v4_config c"
  shows "\<forall>r \<in> set (forward_rules c). target_of r \<noteq> None"
  using assms config_not_option [OF assms]
  by (auto simp: forward_rules_def egress_rules_def Let_def reject_target_def rule_targets [OF assms]
      dest_targets [OF assms] v4_config_def comment_match_def ruleComment_def split: option.splits)

lemma installed_verdict:
  assumes "v4_config c" "from_guest c pk" "fwd w = []" "ConfigureNamespace f w c = (w', Inr u)"
  shows "verdict (\<lambda>r. matches S r pk) (fwd w') = verdict (\<lambda>r. matches S r pk) (egress_rules c)"
proof -
  have "verdict (\<lambda>r. matches S r pk) (fwd w') = verdict (\<lambda>r. matches S r pk) (forward_rules c)"
    using ConfigureNamespace_fwd [OF assms(4)] forward_targets [OF assms(1)] assms(3)
    by (simp add: verdict_foldl_addU)
  also have "\<dots> = verdict (\<lambda>r. matches S r pk) (egress_rules c)"
    using assms(1,2) by (simp add: forward_rules_def m_i v4_config_def from_guest_def)
  finally show ?thesis .
qed

lemma enforced:
  assumes "v4_config c" "from_guest c pk" "fwd w = []" "ConfigureNamespace f w c = (w', Inr u)"
  shows "verdict (\<lambda>r. matches S r pk) (fwd w') = Some (egress_verdict S c pk)"
  using installed_verdict [OF assms] egress_none_verdict [OF assms(1,2)]
    egress_allow_verdict [OF assms(1,2)] egress_deny_verdict [OF assms(1,2)]
  by (auto simp: egress_verdict_def split: option.splits)

end

section \<open>A client that keeps the rules in memory\<close>

record mem_rules =
  mr_rules :: "string \<Rightarrow> string \<Rightarrow> rulespec list"
  mr_chains :: "string \<Rightarrow> string \<Rightarrow> bool"

definition mem_ipt :: "mem_rules adder" where
  "mem_ipt = \<lparr> ChainExists = \<lambda>w t c. Inr (mr_chains w t c),
     NewChain = \<lambda>w t c. (\<lparr> mr_rules = (mr_rules w)(t := (mr_rules w t)(c := [])),
                           mr_chains = (mr_chains w)(t := (mr_chains w t)(c := True)) \<rparr>, Inr ()),
     AppendUnique = \<lambda>w t c r.
       (w\<lparr> mr_rules := (mr_rules w)(t := (mr_rules w t)(c := addU (mr_rules w t c) r)) \<rparr>, Inr ()) \<rparr>"

definition mem_fw :: "mem_rules iptablesFirewall" where
  "mem_fw = \<lparr> f_ipt = mem_ipt, f_sets = EnsureSandboxSet (\<lambda>w name args. (w, [], None)) \<rparr>"

definition mem_empty :: mem_rules where
  "mem_empty = \<lparr> mr_rules = \<lambda>_ _. [], mr_chains = \<lambda>_ _. False \<rparr>"

interpretation mem: namespace_filter mem_fw mr_rules mr_chains match_spec
  by unfold_locales
    (auto simp: mem_fw_def mem_ipt_def EnsureSandboxSet_def run_def Let_def)

section \<open>When \<open>ConfigureNamespace\<close> succeeds\<close>

text \<open>No call of the iptables and ipset clients fails.\<close>

definition never_fails :: "'w iptablesFirewall \<Rightarrow> bool" where
  "never_fails f = ((\<forall>w t c r. isOk (snd (AppendUnique (f_ipt f) w t c r))) \<and>
                    (\<forall>w i. isOk (snd (f_sets f w i))))"

lemma never_fails_dests:
  "never_fails f \<Longrightarrow> isOk (snd (appendDests (f_ipt f) w verb s v t ds))"
  by (induction ds arbitrary: w) (simp_all add: never_fails_def)

lemma never_fails_resolver:
  "never_fails f \<Longrightarrow> isOk (snd (resolverRules (f_ipt f) w s v r ps))"
  by (induction ps arbitrary: w) (simp_all add: never_fails_def)

lemma never_fails_allow:
  assumes "never_fails f"
  shows "isOk (snd (appendEgressAllow f w s c p)) \<longleftrightarrow> ep_Domains p = [] \<or> IsValid (nc_ResolverIP c)"
  using assms never_fails_dests [OF assms] never_fails_resolver [OF assms]
  by (simp add: appendEgressAllow_def appendResolverCarveOut_def Let_def never_fails_def)

lemma never_fails_deny: "never_fails f \<Longrightarrow> isOk (snd (appendEgressDeny f w s v p))"
  using never_fails_dests [of f]
  by (simp add: appendEgressDeny_def appendEgressAccept_def never_fails_def)

lemma mem_never_fails: "never_fails mem_fw"
  by (simp add: never_fails_def mem_fw_def mem_ipt_def EnsureSandboxSet_def run_def Let_def)

text \<open>With clients that do not fail, only the checks of the configuration can.\<close>

lemma ConfigureNamespace_isOk:
  assumes "never_fails f"
  shows "isOk (snd (ConfigureNamespace f w c)) \<longleftrightarrow>
    nc_NamespaceVethName c \<noteq> [] \<and> PrefixIsValid (nc_GuestSubnet c) \<and>
    (case nc_Egress c of None \<Rightarrow> True
     | Some p \<Rightarrow> ep_Mode p = EgressDeny \<or>
         ep_Mode p = EgressAllow \<and> (ep_Domains p = [] \<or> IsValid (nc_ResolverIP c)))"
proof (cases "nc_Egress c")
  case None
  then show ?thesis
    using assms by (simp add: ConfigureNamespace_def appendReturnAccept_def appendEgressAccept_def
        Let_def never_fails_def)
next
  case (Some p)
  then show ?thesis
    using assms never_fails_allow [OF assms] never_fails_deny [OF assms]
    by (cases "ep_Mode p = EgressAllow"; cases "ep_Mode p = EgressDeny")
      (simp_all add: ConfigureNamespace_def appendReturnAccept_def Let_def never_fails_def
        EgressAllow_def EgressDeny_def)
qed

section \<open>Properties\<close>

text \<open>C1: the egress policy is enforced. After \<open>ConfigureNamespace\<close> succeeds in a fresh
  namespace, a packet that leaves the guest through the veth gets exactly the verdict the policy
  asks for: without a policy it is accepted; under an allow policy it is accepted when its
  destination is listed, was put into the sandbox's ipset by the DNS responder, or is the
  responder on port 53, and rejected otherwise; under a deny policy it is rejected when its
  destination is listed and accepted otherwise.\<close>

theorem egress_policy_enforced:
  assumes "namespace_filter f rules has_chain matches"
    and "rules w ''filter'' ''FORWARD'' = []"
    and "ConfigureNamespace f w c = (w', Inr ())"
    and "v4_config c" "from_guest c pk"
  shows "verdict (\<lambda>r. matches S r pk) (rules w' ''filter'' ''FORWARD'') = Some (egress_verdict S c pk)"
  using assms(1,4,5,2,3) by (rule namespace_filter.enforced)

definition wit_policy :: EgressPolicy where
  "wit_policy = \<lparr> ep_Mode = EgressAllow, ep_IPs = [], ep_CIDRs = [PrefixFrom (Addr4 0x08080000) 16],
     ep_Domains = [''example.net''] \<rparr>"

definition wit_config :: NamespaceConfig where
  "wit_config = \<lparr> nc_NamespaceVethName = ''vm-veth0'', nc_GuestSubnet = PrefixFrom (Addr4 0xAC100000) 30,
     nc_Egress = Some wit_policy, nc_SandboxIndex = 7, nc_ResolverIP = Addr4 0x0A640001 \<rparr>"

definition wit_packet :: "32 word \<Rightarrow> packet" where
  "wit_packet dst = \<lparr> pk_src = 0xAC100002, pk_dst = dst, pk_in = ''vm-tap0'', pk_out = ''vm-veth0'',
     pk_proto = ''tcp'', pk_dport = 443, pk_state = ''NEW'' \<rparr>"

lemma wit_config_ok:
  "v4_config wit_config" "from_guest wit_config (wit_packet d)"
  by (simp_all add: v4_config_def from_guest_def wit_config_def wit_policy_def wit_packet_def
      v4_prefix_def v4_addr_def PrefixIsValid_def plain_name_def PrefixContains_def)

lemma wit_config_runs: "\<exists>w'. ConfigureNamespace mem_fw mem_empty wit_config = (w', Inr ())"
proof -
  have "isOk (snd (ConfigureNamespace mem_fw mem_empty wit_config))"
    using ConfigureNamespace_isOk [OF mem_never_fails, of mem_empty wit_config]
    by (simp add: wit_config_def wit_policy_def PrefixIsValid_def IsValid_def)
  then show ?thesis
    by (cases "ConfigureNamespace mem_fw mem_empty wit_config") (auto simp: isOk_iff)
qed

theorem egress_policy_enforced_witness:
  "\<exists>w'. ConfigureNamespace mem_fw mem_empty wit_config = (w', Inr ()) \<and>
     verdict (\<lambda>r. match_spec (\<lambda>_ _. False) r (wit_packet 0x08080808)) (mr_rules w' ''filter'' ''FORWARD'')
       = Some ''ACCEPT'' \<and>
     verdict (\<lambda>r. match_spec (\<lambda>_ _. False) r (wit_packet 0x01020304)) (mr_rules w' ''filter'' ''FORWARD'')
       = Some ''REJECT''"
proof -
  obtain w' where w': "ConfigureNamespace mem_fw mem_empty wit_config = (w', Inr ())"
    using wit_config_runs by blast
  have e: "mr_rules mem_empty ''filter'' ''FORWARD'' = []" by (simp add: mem_empty_def)
  note v = egress_policy_enforced [OF mem.namespace_filter_axioms e w' wit_config_ok]
  show ?thesis
    using w' v [where S = "\<lambda>_ _. False"]
    by (simp add: wit_config_def wit_policy_def wit_packet_def listed_def via_domains_def
        PrefixContains_def egress_verdict_def)
qed

text \<open>Under a deny policy the resolver gets no carve-out. When the policy names domains, so
  that the guest is pointed at the DNS responder, and one of its addresses or blocks covers the
  responder, the guest's DNS queries are rejected and no name resolves.\<close>

theorem deny_policy_blocks_resolver:
  assumes "namespace_filter f rules has_chain matches"
    and "rules w ''filter'' ''FORWARD'' = []"
    and "ConfigureNamespace f w c = (w', Inr ())"
    and "v4_config c" "from_guest c pk"
    and "nc_Egress c = Some p" "ep_Mode p = EgressDeny" "ep_Domains p \<noteq> []"
    and "nc_ResolverIP c = Addr4 (pk_dst pk)" "listed p (pk_dst pk)"
    and "pk_proto pk = ''udp''" "pk_dport pk = 53"
  shows "verdict (\<lambda>r. matches S r pk) (rules w' ''filter'' ''FORWARD'') = Some ''REJECT''"
  using namespace_filter.installed_verdict [OF assms(1,4,5,2,3)]
    namespace_filter.egress_deny_verdict [OF assms(1,4,5,6)] assms(7,10)
  by (simp add: EgressAllow_def EgressDeny_def)

definition wit_deny :: NamespaceConfig where
  "wit_deny = wit_config\<lparr> nc_Egress := Some (wit_policy\<lparr> ep_Mode := EgressDeny,
     ep_CIDRs := [PrefixFrom (Addr4 0x0A000000) 8] \<rparr>) \<rparr>"

lemma wit_deny_runs: "\<exists>w'. ConfigureNamespace mem_fw mem_empty wit_deny = (w', Inr ())"
proof -
  have "isOk (snd (ConfigureNamespace mem_fw mem_empty wit_deny))"
    using mem_never_fails never_fails_deny [OF mem_never_fails]
    by (simp add: ConfigureNamespace_def appendReturnAccept_def Let_def never_fails_def
        wit_config_def wit_policy_def wit_deny_def PrefixIsValid_def EgressAllow_def EgressDeny_def)
  then show ?thesis
    by (cases "ConfigureNamespace mem_fw mem_empty wit_deny") (auto simp: isOk_iff)
qed

theorem deny_policy_blocks_resolver_witness:
  "\<exists>w'. ConfigureNamespace mem_fw mem_empty wit_deny = (w', Inr ()) \<and>
     verdict (\<lambda>r. match_spec (\<lambda>_ _. False) r
         ((wit_packet 0x0A640001)\<lparr> pk_proto := ''udp'', pk_dport := 53 \<rparr>))
       (mr_rules w' ''filter'' ''FORWARD'') = Some ''REJECT''"
proof -
  obtain w' where w': "ConfigureNamespace mem_fw mem_empty wit_deny = (w', Inr ())"
    using wit_deny_runs by blast
  have e: "mr_rules mem_empty ''filter'' ''FORWARD'' = []" by (simp add: mem_empty_def)
  have "verdict (\<lambda>r. match_spec (\<lambda>_ _. False) r
         ((wit_packet 0x0A640001)\<lparr> pk_proto := ''udp'', pk_dport := 53 \<rparr>))
       (mr_rules w' ''filter'' ''FORWARD'') = Some ''REJECT''"
    by (rule deny_policy_blocks_resolver [OF mem.namespace_filter_axioms e w',
          where p = "wit_policy\<lparr> ep_Mode := EgressDeny, ep_CIDRs := [PrefixFrom (Addr4 0x0A000000) 8] \<rparr>"])
      (simp_all add: v4_config_def from_guest_def wit_deny_def wit_config_def wit_policy_def
        wit_packet_def v4_prefix_def v4_addr_def PrefixIsValid_def plain_name_def PrefixContains_def
        listed_def)
  with w' show ?thesis by blast
qed

text \<open>\<open>EnsureHost\<close> installs the chains, jumps, forward and MASQUERADE rules of the host, and is
  idempotent: running it again, as every daemon start does, changes no rule.\<close>

theorem EnsureHost_idempotent:
  assumes "iptables_client f rules has_chain"
    and "EnsureHost f w upstream vm = (w1, Inr ())"
    and "EnsureHost f w1 upstream vm = (w2, Inr ())"
  shows "(\<forall>(t, c, r) \<in> set (host_rules upstream (PrefixString vm)). r \<in> set (rules w1 t c))
         \<and> rules w2 = rules w1"
  using iptables_client.EnsureHost_inv [OF assms(1,2)]
    iptables_client.EnsureHost_same [OF assms(1,3)] by blast

lemma mem_EnsureHost_runs:
  "PrefixIsValid vm \<Longrightarrow> upstream \<noteq> [] \<Longrightarrow> \<exists>w'. EnsureHost mem_fw w upstream vm = (w', Inr ())"
  by (simp add: EnsureHost_def ensureChain_def mem_fw_def mem_ipt_def Let_def)

theorem EnsureHost_idempotent_witness:
  "\<exists>w1 w2. EnsureHost mem_fw mem_empty ''eth0'' (PrefixFrom (Addr4 0x0A000000) 16) = (w1, Inr ()) \<and>
     EnsureHost mem_fw w1 ''eth0'' (PrefixFrom (Addr4 0x0A000000) 16) = (w2, Inr ()) \<and>
     mr_rules w2 = mr_rules w1"
proof -
  have v: "PrefixIsValid (PrefixFrom (Addr4 0x0A000000) 16)" by (simp add: PrefixIsValid_def)
  obtain w1 where 1: "EnsureHost mem_fw mem_empty ''eth0'' (PrefixFrom (Addr4 0x0A000000) 16) = (w1, Inr ())"
    using mem_EnsureHost_runs [OF v] by blast
  obtain w2 where 2: "EnsureHost mem_fw w1 ''eth0'' (PrefixFrom (Addr4 0x0A000000) 16) = (w2, Inr ())"
    using mem_EnsureHost_runs [OF v] by blast
  show ?thesis
    using EnsureHost_idempotent [OF mem.iptables_client_axioms 1 2] 1 2 by blast
qed

end
