(* ===== verification/DNS.thy ===== *)
theory DNS
  imports Firewall
begin

text \<open>
  The DNS responder of the daemon, \<open>daemon/pkg/dns\<close>: domain matchers, the policy store, the query
  handler with its answer snooping, and the upstream client. The miekg/dns library (the message
  a reply code produces, the UDP and TCP exchanges) is a parameter; of a message the model keeps
  the fields the handler reads or writes and carries the rest unread. Names are compared as
  bytes, with ASCII lowercasing. Logging is left out.
\<close>

section \<open>matcher.go\<close>

datatype DomainMatcher = exactMatcher string | wildcardMatcher string string

definition CompileMatcher :: "string \<Rightarrow> DomainMatcher result" where
  "CompileMatcher pattern =
    (if pattern = [] then Inl (New ''empty pattern'')
     else if HasPrefix pattern ''*.'' then
       (let suffix = ToLower (drop 2 pattern) in
        if suffix = [] \<or> Contains suffix ''*''
        then Inl (New (''invalid wildcard pattern '' @ quote pattern))
        else Inr (wildcardMatcher pattern suffix))
     else if Contains pattern ''*''
     then Inl (New (''wildcards are only valid as a leading '' @ [CHR 0x27] @ ''*.'' @ [CHR 0x27]
                    @ '' label: '' @ quote pattern))
     else Inr (exactMatcher (ToLower pattern)))"

definition canonicalName :: "string \<Rightarrow> string" where
  "canonicalName name = ToLower (TrimSuffix name ''.'')"

definition Match :: "DomainMatcher \<Rightarrow> string \<Rightarrow> bool" where
  "Match m name = (case m of
     exactMatcher pattern \<Rightarrow> canonicalName name = pattern
   | wildcardMatcher pattern suffix \<Rightarrow>
       (let canonical = canonicalName name in
        if canonical = suffix then True else HasSuffix canonical (''.'' @ suffix)))"

fun compileLoop :: "string list \<Rightarrow> DomainMatcher list \<Rightarrow> DomainMatcher list result" where
  "compileLoop [] out = Inr out"
| "compileLoop (p # ps) out =
    (case CompileMatcher p of
       Inl err \<Rightarrow> Inl (wrapf (''compile '' @ quote p) err)
     | Inr m \<Rightarrow> compileLoop ps (out @ [m]))"

definition CompileMatchers :: "string list \<Rightarrow> DomainMatcher list result" where
  "CompileMatchers patterns = (if length patterns = 0 then Inr [] else compileLoop patterns [])"

fun MatchAny :: "DomainMatcher list \<Rightarrow> string \<Rightarrow> bool" where
  "MatchAny [] name = False"
| "MatchAny (m # ms) name = (if Match m name then True else MatchAny ms name)"

section \<open>policy\_store.go\<close>

definition ModeNone :: int where
  "ModeNone = 0"

definition ModeAllow :: int where
  "ModeAllow = 1"

definition ModeDeny :: int where
  "ModeDeny = 2"

record SandboxDNSPolicy =
  dp_Index :: int
  dp_NamespaceName :: string
  dp_Mode :: int
  dp_Matchers :: "DomainMatcher list"

type_synonym PolicyStore = "Addr \<rightharpoonup> SandboxDNSPolicy"

definition NewPolicyStore :: PolicyStore where
  "NewPolicyStore = Map.empty"

definition Upsert :: "PolicyStore \<Rightarrow> Addr \<Rightarrow> SandboxDNSPolicy \<Rightarrow> PolicyStore" where
  "Upsert s srcIP policy = s(srcIP \<mapsto> policy)"

definition Remove :: "PolicyStore \<Rightarrow> Addr \<Rightarrow> PolicyStore" where
  "Remove s srcIP = s(srcIP := None)"

definition Lookup :: "PolicyStore \<Rightarrow> Addr \<Rightarrow> SandboxDNSPolicy option" where
  "Lookup s srcIP = s srcIP"

section \<open>handler.go: messages\<close>

record Question =
  q_Name :: string
  q_Qtype :: nat
  q_Qclass :: nat

text \<open>Answer records: addresses are \<open>net.IP\<close> byte slices, TTLs are in seconds.\<close>

datatype RR = RR_A "byte list" "32 word" | RR_AAAA "byte list" "32 word" | RR_Other

record Msg =
  msg_Id :: "16 word"
  msg_Rcode :: nat
  msg_Truncated :: bool
  msg_Question :: "Question list"
  msg_Answer :: "RR list"
  msg_Rest :: "byte list"

datatype net_Addr = UDPAddr "byte list" | TCPAddr "byte list" | OtherAddr

definition RcodeFormatError :: nat where
  "RcodeFormatError = 1"

definition RcodeServerFailure :: nat where
  "RcodeServerFailure = 2"

definition RcodeRefused :: nat where
  "RcodeRefused = 5"

text \<open>\<open>net.IP.To4\<close> and \<open>net.IP.To16\<close>; the empty list is Go's nil slice.\<close>

definition To4 :: "byte list \<Rightarrow> byte list" where
  "To4 ip = (if length ip = 4 then ip
     else if length ip = 16 \<and> take 12 ip = replicate 10 0 @ [0xff, 0xff] then drop 12 ip else [])"

definition To16 :: "byte list \<Rightarrow> byte list" where
  "To16 ip = (if length ip = 4 then replicate 10 0 @ [0xff, 0xff] @ ip
     else if length ip = 16 then ip else [])"

definition remoteIP :: "net_Addr \<Rightarrow> Addr option" where
  "remoteIP addr = (case addr of
     UDPAddr ip \<Rightarrow> map_option Unmap (AddrFromSlice ip)
   | TCPAddr ip \<Rightarrow> map_option Unmap (AddrFromSlice ip)
   | OtherAddr \<Rightarrow> None)"

section \<open>handler.go: the handler\<close>

definition second :: int64 where
  "second = 1000000000"

record 'w HandlerOptions =
  ho_Store :: "PolicyStore option"
  ho_Upstream :: "('w \<Rightarrow> Msg \<Rightarrow> 'w \<times> Msg option \<times> goerr option) option"
  ho_Snooper :: "('w \<Rightarrow> SandboxDNSPolicy \<Rightarrow> Addr \<Rightarrow> int64 \<Rightarrow> 'w \<times> unit result) option"
  ho_MinEntryTTL :: int64
  ho_MaxEntryTTL :: int64
  ho_ForwardTimeout :: int64

record 'w Handler =
  h_store :: PolicyStore
  h_upstream :: "'w \<Rightarrow> Msg \<Rightarrow> 'w \<times> Msg option \<times> goerr option"
  h_snooper :: "'w \<Rightarrow> SandboxDNSPolicy \<Rightarrow> Addr \<Rightarrow> int64 \<Rightarrow> 'w \<times> unit result"
  h_minTTL :: int64
  h_maxTTL :: int64
  h_forwardTimeout :: int64

definition NewHandler :: "'w HandlerOptions \<Rightarrow> 'w Handler result" where
  "NewHandler opts =
    (case ho_Store opts of None \<Rightarrow> Inl (New ''PolicyStore is required'')
     | Some store \<Rightarrow>
    (case ho_Upstream opts of None \<Rightarrow> Inl (New ''Upstream is required'')
     | Some up \<Rightarrow>
    (case ho_Snooper opts of None \<Rightarrow> Inl (New ''Snooper is required'')
     | Some sn \<Rightarrow>
      Inr \<lparr> h_store = store, h_upstream = up, h_snooper = sn,
        h_minTTL = (if ho_MinEntryTTL opts \<le> 0 then 30 * second else ho_MinEntryTTL opts),
        h_maxTTL = (if ho_MaxEntryTTL opts \<le> 0 then 5 * 60 * second else ho_MaxEntryTTL opts),
        h_forwardTimeout =
          (if ho_ForwardTimeout opts \<le> 0 then 5 * second else ho_ForwardTimeout opts) \<rparr>)))"

definition clampTTL :: "int64 \<Rightarrow> int64 \<Rightarrow> int64 \<Rightarrow> int64" where
  "clampTTL ttl fl ceiling = (if ttl < fl then fl else if ceiling < ttl then ceiling else ttl)"

text \<open>One iteration of \<open>snoop\<close>: the address and raw TTL of a record, \<open>None\<close> for \<open>continue\<close>.\<close>

definition rrAddr :: "RR \<Rightarrow> (Addr \<times> 32 word) option" where
  "rrAddr rr = (case rr of
     RR_A ip ttl \<Rightarrow> (case AddrFromSlice (To4 ip) of None \<Rightarrow> None | Some a \<Rightarrow> Some (Unmap a, ttl))
   | RR_AAAA ip ttl \<Rightarrow> (case AddrFromSlice (To16 ip) of None \<Rightarrow> None | Some a \<Rightarrow> Some (a, ttl))
   | RR_Other \<Rightarrow> None)"

fun snoop :: "'w Handler \<Rightarrow> 'w \<Rightarrow> SandboxDNSPolicy \<Rightarrow> RR list \<Rightarrow> 'w" where
  "snoop h w policy [] = w"
| "snoop h w policy (rr # rrs) =
    (case rrAddr rr of
       None \<Rightarrow> snoop h w policy rrs
     | Some (addr, rawTTL) \<Rightarrow>
         let ttl = clampTTL (wrap64 (uint rawTTL * second)) (h_minTTL h) (h_maxTTL h);
             (w', err) = h_snooper h w policy addr ttl
         in snoop h w' policy rrs)"

text \<open>\<open>ServeDNS\<close> returns the message written back. \<open>setRcode req rcode\<close> stands for the reply
  \<open>new(miekg.Msg).SetRcode(req, rcode)\<close>.\<close>

definition ServeDNS ::
  "(Msg \<Rightarrow> nat \<Rightarrow> Msg) \<Rightarrow> 'w Handler \<Rightarrow> 'w \<Rightarrow> net_Addr \<Rightarrow> Msg \<Rightarrow> 'w \<times> Msg" where
  "ServeDNS setRcode h w remote req =
    (if length (msg_Question req) = 0 then (w, setRcode req RcodeFormatError)
     else case remoteIP remote of
       None \<Rightarrow> (w, setRcode req RcodeRefused)
     | Some srcIP \<Rightarrow>
       (case Lookup (h_store h) srcIP of
          None \<Rightarrow> (w, setRcode req RcodeRefused)
        | Some policy \<Rightarrow>
          let qname = q_Name (msg_Question req ! 0);
              matched = MatchAny (dp_Matchers policy) qname;
              refuse = (if dp_Mode policy = ModeAllow then \<not> matched
                        else if dp_Mode policy = ModeDeny then matched
                        else if dp_Mode policy = ModeNone then False
                        else True)
          in if refuse then (w, setRcode req RcodeRefused)
             else case h_upstream h w req of
               (w1, resp, err) \<Rightarrow>
               (case (err, resp) of
                  (None, Some r) \<Rightarrow>
                    let w2 = (if dp_Mode policy = ModeAllow
                              then snoop h w1 policy (msg_Answer r) else w1)
                    in (w2, r\<lparr> msg_Id := msg_Id req \<rparr>)
                | _ \<Rightarrow> (w1, setRcode req RcodeServerFailure))))"

section \<open>handler.go: the upstream client; snooper.go\<close>

record 'w DefaultUpstream =
  u_resolvers :: "string list"
  u_udp :: "'w \<Rightarrow> Msg \<Rightarrow> string \<Rightarrow> 'w \<times> Msg option \<times> goerr option"
  u_tcp :: "'w \<Rightarrow> Msg \<Rightarrow> string \<Rightarrow> 'w \<times> Msg option \<times> goerr option"

definition NewDefaultUpstream ::
  "(string \<Rightarrow> int64 \<Rightarrow> 'w \<Rightarrow> Msg \<Rightarrow> string \<Rightarrow> 'w \<times> Msg option \<times> goerr option) \<Rightarrow>
   string list \<Rightarrow> int64 \<Rightarrow> 'w DefaultUpstream result" where
  "NewDefaultUpstream client resolvers timeout =
    (if length resolvers = 0 then Inl (New ''at least one upstream resolver required'')
     else let timeout' = (if timeout \<le> 0 then 5 * second else timeout)
          in Inr \<lparr> u_resolvers = resolvers, u_udp = client ''udp'' timeout', u_tcp = client ''tcp'' timeout' \<rparr>)"

definition tryServer ::
  "'w DefaultUpstream \<Rightarrow> 'w \<Rightarrow> Msg \<Rightarrow> string \<Rightarrow> 'w \<times> Msg option \<times> goerr option" where
  "tryServer u w req server =
    (case u_udp u w req server of
       (w1, resp, err) \<Rightarrow>
         if err = None \<and> (case resp of Some r \<Rightarrow> msg_Truncated r | None \<Rightarrow> False)
         then u_tcp u w1 req server else (w1, resp, err))"

fun exchangeLoop ::
  "'w DefaultUpstream \<Rightarrow> 'w \<Rightarrow> Msg \<Rightarrow> string list \<Rightarrow> goerr option
   \<Rightarrow> 'w \<times> Msg option \<times> goerr option" where
  "exchangeLoop u w req [] lastErr =
    (w, None, Some (wrapf ''upstream exchange''
       (case lastErr of None \<Rightarrow> New ''no usable upstream'' | Some e \<Rightarrow> e)))"
| "exchangeLoop u w req (server # servers) lastErr =
    (case tryServer u w req server of
       (w1, Some resp, None) \<Rightarrow> (w1, Some resp, None)
     | (w1, _, err) \<Rightarrow> exchangeLoop u w1 req servers err)"

definition Exchange :: "'w DefaultUpstream \<Rightarrow> 'w \<Rightarrow> Msg \<Rightarrow> 'w \<times> Msg option \<times> goerr option" where
  "Exchange u w req = exchangeLoop u w req (u_resolvers u) None"

definition Note ::
  "'w runner \<Rightarrow> 'w \<Rightarrow> SandboxDNSPolicy \<Rightarrow> Addr \<Rightarrow> int64 \<Rightarrow> 'w \<times> unit result" where
  "Note exec w policy ip ttl =
    AddSandboxEntry exec w (dp_NamespaceName policy) (dp_Index policy) ip ttl"

section \<open>The policy store as an interface\<close>

locale policy_table =
  fixes upsert :: "'s \<Rightarrow> 'k \<Rightarrow> 'p \<Rightarrow> 's"
    and remove :: "'s \<Rightarrow> 'k \<Rightarrow> 's"
    and lookup :: "'s \<Rightarrow> 'k \<Rightarrow> 'p option"
  assumes lookup_upsert: "lookup (upsert s k p) k' = (if k' = k then Some p else lookup s k')"
    and lookup_remove: "lookup (remove s k) k' = (if k' = k then None else lookup s k')"
begin

lemma upsert_replaces: "lookup (upsert (upsert s k p) k q) k' = lookup (upsert s k q) k'"
  by (simp add: lookup_upsert)

lemma remove_other: "k' \<noteq> k \<Longrightarrow> lookup (remove (upsert s k p) k) k' = lookup s k'"
  by (simp add: lookup_upsert lookup_remove)

end

interpretation ps: policy_table Upsert Remove Lookup
  by unfold_locales (auto simp: Upsert_def Remove_def Lookup_def)

section \<open>Matchers\<close>

text \<open>The labels of a name.\<close>

definition labels :: "string \<Rightarrow> string list" where
  "labels s = splitOn CHR ''.'' s"

lemma splitOn_not_Nil [simp]: "splitOn c s \<noteq> []"
  by (induction s) (auto split: list.splits)

lemma splitOn_append: "splitOn c (l @ c # d) = splitOn c l @ splitOn c d"
proof (induction l)
  case (Cons x l)
  then show ?case
    using splitOn_not_Nil [of c l] by (auto split: list.splits)
qed simp

lemma Join_splitOn: "Join (splitOn c s) [c] = s"
proof (induction s)
  case (Cons x s)
  obtain f fs where f: "splitOn c s = f # fs"
    using splitOn_not_Nil [of c s] by (cases "splitOn c s") auto
  show ?case
    using Cons f by (cases fs) auto
qed simp

lemma Join_append: "xs \<noteq> [] \<Longrightarrow> ys \<noteq> [] \<Longrightarrow> Join (xs @ ys) sep = Join xs sep @ sep @ Join ys sep"
proof (induction xs rule: list_nonempty_induct)
  case (single x)
  then show ?case by (cases ys) auto
next
  case (cons x xs)
  then show ?case by (cases xs) auto
qed

lemma label_suffix_iff:
  "(c = d \<or> (\<exists>l. c = l @ CHR ''.'' # d)) \<longleftrightarrow> (\<exists>ls. labels c = ls @ labels d)"
proof
  assume "c = d \<or> (\<exists>l. c = l @ CHR ''.'' # d)"
  then show "\<exists>ls. labels c = ls @ labels d"
    by (auto simp: labels_def splitOn_append)
next
  assume "\<exists>ls. labels c = ls @ labels d"
  then obtain ls where ls: "labels c = ls @ labels d" ..
  have c: "c = Join (labels c) ''.''" and d: "d = Join (labels d) ''.''"
    by (simp_all add: labels_def Join_splitOn)
  show "c = d \<or> (\<exists>l. c = l @ CHR ''.'' # d)"
  proof (cases "ls = []")
    case True
    then show ?thesis using c d ls by simp
  next
    case False
    then have "Join (ls @ labels d) ''.'' = Join ls ''.'' @ ''.'' @ Join (labels d) ''.''"
      by (intro Join_append) (simp_all add: labels_def)
    then show ?thesis using c d ls by auto
  qed
qed

lemma lower_char_dot [simp]: "lower_char c = CHR ''.'' \<longleftrightarrow> c = CHR ''.''"
proof
  assume l: "lower_char c = CHR ''.''"
  show "c = CHR ''.''"
  proof (rule ccontr)
    assume "c \<noteq> CHR ''.''"
    with l have r: "65 \<le> (of_char c :: nat)" "(of_char c :: nat) \<le> 90"
      and "char_of ((of_char c :: nat) + 32) = CHR ''.''"
      by (auto simp: lower_char_def split: if_splits)
    then have "of_char (char_of ((of_char c :: nat) + 32)) = (of_char CHR ''.'' :: nat)" by simp
    then show False using r by (simp add: of_char_of)
  qed
qed (simp add: lower_char_def)

lemma canonicalName_lower: "canonicalName (ToLower s) = canonicalName s"
proof -
  have "HasSuffix (ToLower s) ''.'' = HasSuffix s ''.''"
  proof (cases s rule: rev_cases)
    case (snoc t c)
    then show ?thesis by (auto simp: HasSuffix_iff ToLower_def)
  qed (simp add: ToLower_def)
  then show ?thesis
    by (simp add: canonicalName_def TrimSuffix_def ToLower_def take_map)
qed

lemma canonicalName_dot: "\<not> HasSuffix s ''.'' \<Longrightarrow> canonicalName (s @ ''.'') = canonicalName s"
  by (simp add: canonicalName_def) (simp add: TrimSuffix_def)

lemma MatchAny_iff: "MatchAny ms name \<longleftrightarrow> (\<exists>m \<in> set ms. Match m name)"
  by (induction ms) auto

lemma compileLoop_ok:
  "compileLoop ps out = Inr ms \<longleftrightarrow> (\<exists>ns. ms = out @ ns \<and> list_all2 (\<lambda>p m. CompileMatcher p = Inr m) ps ns)"
proof (induction ps arbitrary: out)
  case (Cons p ps)
  then show ?case
    by (cases "CompileMatcher p") (auto simp: list_all2_Cons1)
qed auto

lemma CompileMatchers_ok:
  "CompileMatchers ps = Inr ms \<longleftrightarrow> list_all2 (\<lambda>p m. CompileMatcher p = Inr m) ps ms"
  by (auto simp: CompileMatchers_def compileLoop_ok)

section \<open>Snooping and forwarding\<close>

text \<open>What an allow policy, a deny policy and no policy permit.\<close>

definition permitted :: "SandboxDNSPolicy \<Rightarrow> string \<Rightarrow> bool" where
  "permitted policy name =
    (dp_Mode policy = ModeAllow \<and> MatchAny (dp_Matchers policy) name \<or>
     dp_Mode policy = ModeDeny \<and> \<not> MatchAny (dp_Matchers policy) name \<or>
     dp_Mode policy = ModeNone)"

lemma mode_distinct [simp]:
  "ModeAllow \<noteq> ModeDeny" "ModeDeny \<noteq> ModeAllow" "ModeAllow \<noteq> ModeNone" "ModeNone \<noteq> ModeAllow"
  "ModeDeny \<noteq> ModeNone" "ModeNone \<noteq> ModeDeny"
  by (simp_all add: ModeAllow_def ModeDeny_def ModeNone_def)

text \<open>The observations of an answer: its addresses with their clamped lifetimes.\<close>

definition observations :: "'w Handler \<Rightarrow> RR list \<Rightarrow> (Addr \<times> int64) list" where
  "observations h rrs =
    map (\<lambda>(a, t). (a, clampTTL (wrap64 (uint t * second)) (h_minTTL h) (h_maxTTL h)))
        (List.map_filter rrAddr rrs)"

lemma snoop_eq:
  "snoop h w policy rrs = foldl (\<lambda>w (a, t). fst (h_snooper h w policy a t)) w (observations h rrs)"
  by (induction rrs arbitrary: w)
    (auto simp: observations_def List.map_filter_def Let_def split: option.splits prod.splits)

lemma clampTTL_range: "lo \<le> hi \<Longrightarrow> lo \<le> clampTTL t lo hi \<and> clampTTL t lo hi \<le> hi"
  by (simp add: clampTTL_def)

lemma observations_range:
  "h_minTTL h \<le> h_maxTTL h \<Longrightarrow> (a, t) \<in> set (observations h rrs) \<Longrightarrow>
   h_minTTL h \<le> t \<and> t \<le> h_maxTTL h"
  by (auto simp: observations_def clampTTL_range)

lemma observations_addr:
  "(a, t) \<in> set (observations h rrs) \<Longrightarrow> \<exists>rr \<in> set rrs. \<exists>ttl. rrAddr rr = Some (a, ttl)"
  by (force simp: observations_def List.map_filter_def split: option.splits)

text \<open>A runner that records the commands and always succeeds.\<close>

definition log_exec :: "(string \<times> string list) list runner" where
  "log_exec log name args = (log @ [(name, args)], [], None)"

definition entry_cmd :: "SandboxDNSPolicy \<Rightarrow> Addr \<Rightarrow> int \<Rightarrow> string \<times> string list" where
  "entry_cmd policy a secs =
    (''ip'', [''netns'', ''exec'', dp_NamespaceName policy, ipsetBinary, ''add'',
            SandboxIPSetName (dp_Index policy), AddrString a, ''timeout'', fmt_d secs, ''-exist''])"

definition whole_secs :: "int64 \<Rightarrow> int" where
  "whole_secs ttl = (if ttl div 1000000000 < 1 then 1 else ttl div 1000000000)"

lemma Note_log:
  "fst (Note log_exec log policy a ttl) =
    (if dp_NamespaceName policy = [] \<or> ttl \<le> 0 then log else log @ [entry_cmd policy a (whole_secs ttl)])"
  by (simp add: Note_def AddSandboxEntry_def run_def log_exec_def Let_def entry_cmd_def whole_secs_def)

lemma foldl_Note:
  assumes "dp_NamespaceName policy \<noteq> []" "\<forall>(a, t) \<in> set obs. 0 < t"
  shows "foldl (\<lambda>w (a, t). fst (Note log_exec w policy a t)) log obs
         = log @ map (\<lambda>(a, t). entry_cmd policy a (whole_secs t)) obs"
  using assms by (induction obs arbitrary: log) (auto simp: Note_log)

lemma ServeDNS_refused:
  assumes "msg_Question req \<noteq> []"
    and "case remoteIP remote of None \<Rightarrow> True | Some src \<Rightarrow>
       (case Lookup (h_store h) src of None \<Rightarrow> True
        | Some policy \<Rightarrow> \<not> permitted policy (q_Name (hd (msg_Question req))))"
  shows "ServeDNS setRcode h w remote req = (w, setRcode req RcodeRefused)"
  using assms by (auto simp: ServeDNS_def permitted_def Let_def hd_conv_nth split: option.splits)

lemma ServeDNS_forward:
  assumes "msg_Question req \<noteq> []" "remoteIP remote = Some src" "Lookup (h_store h) src = Some policy"
    and "permitted policy (q_Name (hd (msg_Question req)))"
    and "h_upstream h w req = (w1, Some r, None)"
  shows "ServeDNS setRcode h w remote req =
    (if dp_Mode policy = ModeAllow then snoop h w1 policy (msg_Answer r) else w1,
     r\<lparr> msg_Id := msg_Id req \<rparr>)"
  using assms by (auto simp: ServeDNS_def permitted_def Let_def hd_conv_nth)

lemma ServeDNS_world:
  assumes "ServeDNS setRcode h w remote req = (w', m)" "w' \<noteq> fst (h_upstream h w req)" "w' \<noteq> w"
  obtains src policy w1 r where
    "msg_Question req \<noteq> []" "remoteIP remote = Some src" "Lookup (h_store h) src = Some policy"
    "dp_Mode policy = ModeAllow" "MatchAny (dp_Matchers policy) (q_Name (hd (msg_Question req)))"
    "h_upstream h w req = (w1, Some r, None)" "w' = snoop h w1 policy (msg_Answer r)"
  using assms
  by (auto simp: ServeDNS_def Let_def hd_conv_nth split: if_splits option.splits prod.splits)

section \<open>Properties\<close>

text \<open>Wildcard matching respects label boundaries. A matcher compiled from \<open>*.d\<close> covers
  exactly the names whose labels end in the labels of \<open>d\<close>, that is \<open>d\<close> itself and its
  subdomains at any depth, never a name like \<open>evil-d\<close>. Matching ignores case and the trailing
  dot of the wire format.\<close>

theorem wildcard_label_suffix:
  assumes "CompileMatcher (''*.'' @ d) = Inr m"
  shows "(Match m name \<longleftrightarrow> (\<exists>ls. labels (canonicalName name) = ls @ labels (ToLower d)))
       \<and> Match m (ToLower name) = Match m name
       \<and> (\<not> HasSuffix name ''.'' \<longrightarrow> Match m (name @ ''.'') = Match m name)"
proof -
  have p: "HasPrefix (CHR ''*'' # CHR ''.'' # d) ''*.''" by (simp add: HasPrefix_def)
  then have m: "m = wildcardMatcher (''*.'' @ d) (ToLower d)"
    using assms by (simp add: CompileMatcher_def p Let_def split: if_splits)
  have "Match m name \<longleftrightarrow>
      canonicalName name = ToLower d \<or> (\<exists>l. canonicalName name = l @ CHR ''.'' # ToLower d)"
    by (simp add: m Match_def Let_def HasSuffix_iff)
  then show ?thesis
    using canonicalName_lower [of name] canonicalName_dot [of name]
    by (simp add: label_suffix_iff) (simp add: m Match_def)
qed

theorem wildcard_label_suffix_witness:
  "isOk (CompileMatcher ''*.example.net'') \<and>
   (\<exists>m. CompileMatcher ''*.example.net'' = Inr m \<and> Match m ''a.b.Example.net.'' \<and>
        \<not> Match m ''evil-example.net.'')"
proof -
  let ?d = "''example.net''"
  have ok: "CompileMatcher (''*.'' @ ?d) = Inr (wildcardMatcher (''*.'' @ ?d) ?d)"
    by code_simp
  have "labels (canonicalName ''a.b.Example.net.'') = [''a'', ''b''] @ labels (ToLower ?d)"
    and "labels (canonicalName ''evil-example.net.'') = [''evil-example'', ''net'']"
    and "labels (ToLower ?d) = [''example'', ''net'']"
    by code_simp+
  then show ?thesis
    using wildcard_label_suffix [OF ok, of "''a.b.Example.net.''"]
      wildcard_label_suffix [OF ok, of "''evil-example.net.''"] ok
    by (auto simp: isOk_iff append_eq_Cons_conv)
qed

text \<open>C37: a query is answered only when the policy of its source permits it. A query from an
  address that is no registered sandbox, or for a name its policy forbids, is REFUSED; the
  upstream resolver is not consulted and no address is let through, since nothing else changes.\<close>

theorem dns_refuses_forbidden:
  assumes "msg_Question req \<noteq> []"
    and "\<And>src policy. remoteIP remote = Some src \<Longrightarrow> Lookup (h_store h) src = Some policy \<Longrightarrow>
           \<not> permitted policy (q_Name (hd (msg_Question req)))"
  shows "ServeDNS setRcode h w remote req = (w, setRcode req RcodeRefused)"
  using assms by (intro ServeDNS_refused) (auto split: option.splits)

definition wit_query :: "string \<Rightarrow> Msg" where
  "wit_query name = \<lparr> msg_Id = 7, msg_Rcode = 0, msg_Truncated = False,
     msg_Question = [\<lparr> q_Name = name, q_Qtype = 1, q_Qclass = 1 \<rparr>], msg_Answer = [], msg_Rest = [] \<rparr>"

definition wit_answer :: Msg where
  "wit_answer = (wit_query ''example.net.'')\<lparr> msg_Answer := [RR_A [93, 184, 216, 34] 10, RR_Other] \<rparr>"

definition wit_dns_policy :: SandboxDNSPolicy where
  "wit_dns_policy = \<lparr> dp_Index = 3, dp_NamespaceName = ''vm-ns3'', dp_Mode = ModeAllow,
     dp_Matchers = [exactMatcher ''example.net''] \<rparr>"

definition wit_handler :: "(string \<times> string list) list Handler" where
  "wit_handler = \<lparr> h_store = Upsert NewPolicyStore (Addr4 0x0A00000E) wit_dns_policy,
     h_upstream = \<lambda>w req. (w, Some wit_answer, None), h_snooper = Note log_exec,
     h_minTTL = 30 * second, h_maxTTL = 300 * second, h_forwardTimeout = 5 * second \<rparr>"

definition wit_remote :: net_Addr where
  "wit_remote = UDPAddr [10, 0, 0, 14]"

lemma wit_remoteIP: "remoteIP wit_remote = Some (Addr4 0x0A00000E)"
  by (simp add: wit_remote_def remoteIP_def AddrFromSlice_def AddrFrom4_def Uint32_def Unmap_def)

lemma wit_lookup: "Lookup (h_store wit_handler) (Addr4 0x0A00000E) = Some wit_dns_policy"
  by (simp add: wit_handler_def ps.lookup_upsert)

lemma wit_matches:
  "MatchAny (dp_Matchers wit_dns_policy) ''example.net.''" "\<not> MatchAny (dp_Matchers wit_dns_policy) ''evil.org.''"
  unfolding wit_dns_policy_def by code_simp+

theorem dns_refuses_forbidden_witness:
  "ServeDNS (\<lambda>req rc. req\<lparr> msg_Rcode := rc \<rparr>) wit_handler [] wit_remote (wit_query ''evil.org.'')
   = ([], (wit_query ''evil.org.'')\<lparr> msg_Rcode := RcodeRefused \<rparr>)"
proof (rule dns_refuses_forbidden)
  show "msg_Question (wit_query ''evil.org.'') \<noteq> []" by (simp add: wit_query_def)
next
  fix src policy
  assume "remoteIP wit_remote = Some src" "Lookup (h_store wit_handler) src = Some policy"
  then have "policy = wit_dns_policy" using wit_remoteIP wit_lookup by simp
  moreover have "dp_Mode wit_dns_policy = ModeAllow" by (simp add: wit_dns_policy_def)
  ultimately show "\<not> permitted policy (q_Name (hd (msg_Question (wit_query ''evil.org.''))))"
    using wit_matches by (simp add: permitted_def wit_query_def)
qed

text \<open>C3: the firewall is opened only for addresses the responder vouches for. With the ipset
  snooper, every command a query causes adds one address to the ipset of the sandbox that asked,
  in its own namespace; this happens only under an allow policy whose matchers cover the queried
  name; the address is the A or AAAA address of a record of the upstream's answer; and the entry's
  lifetime stays within the configured bounds, rounded down to at least one second.\<close>

theorem dns_opens_only_vouched:
  assumes "h_snooper h = Note log_exec" "0 < h_minTTL h" "h_minTTL h \<le> h_maxTTL h"
    and "\<And>w. fst (h_upstream h w req) = w"
    and "\<And>src policy. Lookup (h_store h) src = Some policy \<Longrightarrow> dp_NamespaceName policy \<noteq> []"
    and "ServeDNS setRcode h log remote req = (log', m)"
  shows "\<exists>new. log' = log @ new \<and>
    (\<forall>cmd \<in> set new. \<exists>src policy r rr a ttl t.
       remoteIP remote = Some src \<and> Lookup (h_store h) src = Some policy
       \<and> dp_Mode policy = ModeAllow
       \<and> MatchAny (dp_Matchers policy) (q_Name (hd (msg_Question req)))
       \<and> h_upstream h log req = (log, Some r, None) \<and> rr \<in> set (msg_Answer r)
       \<and> rrAddr rr = Some (a, ttl) \<and> h_minTTL h \<le> t \<and> t \<le> h_maxTTL h
       \<and> cmd = entry_cmd policy a (whole_secs t))"
proof (cases "log' = log")
  case True
  then show ?thesis by (intro exI [of _ "[]"]) simp
next
  case False
  with assms(4,6) obtain src policy w1 r where
    *: "remoteIP remote = Some src" "Lookup (h_store h) src = Some policy" "dp_Mode policy = ModeAllow"
      "MatchAny (dp_Matchers policy) (q_Name (hd (msg_Question req)))"
      "h_upstream h log req = (w1, Some r, None)" "log' = snoop h w1 policy (msg_Answer r)"
    by (metis ServeDNS_world)
  let ?obs = "observations h (msg_Answer r)"
  have w1: "w1 = log" using assms(4) [of log] *(5) by simp
  have pos: "\<forall>(a, t) \<in> set ?obs. 0 < t"
    using observations_range [OF assms(3)] assms(2) by fastforce
  have "log' = log @ map (\<lambda>(a, t). entry_cmd policy a (whole_secs t)) ?obs"
    using foldl_Note [OF assms(5) [OF *(2)] pos] *(6) w1 assms(1) by (simp add: snoop_eq)
  moreover have "\<exists>rr ttl. rr \<in> set (msg_Answer r) \<and> rrAddr rr = Some (a, ttl) \<and>
      h_minTTL h \<le> t \<and> t \<le> h_maxTTL h" if "(a, t) \<in> set ?obs" for a t
    using observations_addr [OF that] observations_range [OF assms(3) that] by blast
  ultimately show ?thesis
    using * w1 by (intro exI conjI) (assumption, fastforce)
qed

lemma wit_serve:
  "ServeDNS (\<lambda>req rc. req\<lparr> msg_Rcode := rc \<rparr>) wit_handler [] wit_remote (wit_query ''example.net.'')
   = ([entry_cmd wit_dns_policy (Addr4 0x5DB8D822) 30], wit_answer)"
proof -
  have obs: "observations wit_handler (msg_Answer wit_answer) = [(Addr4 0x5DB8D822, 30 * second)]"
    by (simp add: observations_def List.map_filter_def wit_answer_def wit_query_def rrAddr_def To4_def
        AddrFromSlice_def AddrFrom4_def Uint32_def Unmap_def clampTTL_def wit_handler_def second_def
        wrap64_def)
  have sn: "h_snooper wit_handler = Note log_exec" by (simp add: wit_handler_def)
  have "snoop wit_handler [] wit_dns_policy (msg_Answer wit_answer)
      = [entry_cmd wit_dns_policy (Addr4 0x5DB8D822) 30]"
    unfolding snoop_eq obs sn
    by (simp add: Note_log wit_dns_policy_def second_def whole_secs_def)
  moreover have "permitted wit_dns_policy (q_Name (hd (msg_Question (wit_query ''example.net.''))))"
    using wit_matches by (simp add: permitted_def wit_query_def) (simp add: wit_dns_policy_def)
  ultimately show ?thesis
    using ServeDNS_forward [OF _ wit_remoteIP wit_lookup, of "wit_query ''example.net.''" "[]" "[]" wit_answer]
    by (simp add: wit_query_def wit_handler_def wit_answer_def) (simp add: wit_dns_policy_def)
qed

theorem dns_opens_only_vouched_witness:
  "\<exists>new m. ServeDNS (\<lambda>req rc. req\<lparr> msg_Rcode := rc \<rparr>) wit_handler [] wit_remote (wit_query ''example.net.'')
     = ([] @ new, m) \<and> new = [entry_cmd wit_dns_policy (Addr4 0x5DB8D822) 30] \<and>
     dp_Mode wit_dns_policy = ModeAllow"
proof -
  have "\<exists>new. [entry_cmd wit_dns_policy (Addr4 0x5DB8D822) 30] = [] @ new \<and>
      (\<forall>cmd \<in> set new. \<exists>src policy r rr a ttl t.
       remoteIP wit_remote = Some src \<and> Lookup (h_store wit_handler) src = Some policy
       \<and> dp_Mode policy = ModeAllow
       \<and> MatchAny (dp_Matchers policy) (q_Name (hd (msg_Question (wit_query ''example.net.''))))
       \<and> h_upstream wit_handler [] (wit_query ''example.net.'') = ([], Some r, None)
       \<and> rr \<in> set (msg_Answer r) \<and> rrAddr rr = Some (a, ttl)
       \<and> h_minTTL wit_handler \<le> t \<and> t \<le> h_maxTTL wit_handler
       \<and> cmd = entry_cmd policy a (whole_secs t))"
    by (rule dns_opens_only_vouched [OF _ _ _ _ _ wit_serve])
      (auto simp: wit_handler_def second_def Upsert_def Lookup_def NewPolicyStore_def
        wit_dns_policy_def split: if_splits)
  then have "dp_Mode wit_dns_policy = ModeAllow"
    using wit_remoteIP wit_lookup by auto
  then show ?thesis using wit_serve by auto
qed

text \<open>\<open>Exchange\<close> answers with the first usable resolver. For exchanges that leave the world as it
  is, the result is the answer of the first resolver in the list that has one (asked again over
  TCP when the UDP answer was truncated); when none has, the error of the last one, or a fixed
  error when the last one gave neither an answer nor an error.\<close>

theorem Exchange_first_usable:
  assumes "\<And>w s. u_udp u w req s = (w, udp s)" "\<And>w s. u_tcp u w req s = (w, tcp s)"
  defines "answer \<equiv> \<lambda>s. if snd (udp s) = None \<and> (case fst (udp s) of Some r \<Rightarrow> msg_Truncated r | None \<Rightarrow> False)
                        then tcp s else udp s"
  shows "Exchange u w req =
    (w, case find (\<lambda>s. snd (answer s) = None \<and> fst (answer s) \<noteq> None) (u_resolvers u) of
          Some s \<Rightarrow> (fst (answer s), None)
        | None \<Rightarrow> (None, Some (wrapf ''upstream exchange''
            (if u_resolvers u = [] then New ''no usable upstream''
             else case snd (answer (last (u_resolvers u))) of
                    None \<Rightarrow> New ''no usable upstream'' | Some e \<Rightarrow> e))))"
proof -
  have ts: "tryServer u w req s = (w, answer s)" for w s
    by (cases "udp s") (auto simp: tryServer_def assms(1,2) answer_def)
  have "exchangeLoop u w req ss lastErr =
    (w, case find (\<lambda>s. snd (answer s) = None \<and> fst (answer s) \<noteq> None) ss of
          Some s \<Rightarrow> (fst (answer s), None)
        | None \<Rightarrow> (None, Some (wrapf ''upstream exchange''
            (case (if ss = [] then lastErr else snd (answer (last ss))) of
                    None \<Rightarrow> New ''no usable upstream'' | Some e \<Rightarrow> e))))" for ss lastErr
    by (induction ss arbitrary: lastErr)
      (auto simp: ts split: prod.splits option.splits)
  from this [of "u_resolvers u" None] show ?thesis
    by (simp add: Exchange_def split: option.splits)
qed

theorem Exchange_first_usable_witness:
  "Exchange \<lparr> u_resolvers = [''10.0.0.2:53'', ''10.0.0.3:53''],
      u_udp = \<lambda>w req s. (w, if s = ''10.0.0.2:53'' then (None, Some (New ''timeout'')) else (Some wit_answer, None)),
      u_tcp = \<lambda>w req s. (w, None, None) \<rparr> () (wit_query ''example.net.'') = ((), Some wit_answer, None)"
  by (subst Exchange_first_usable
      [where udp = "\<lambda>s. if s = ''10.0.0.2:53'' then (None, Some (New ''timeout'')) else (Some wit_answer, None)"
         and tcp = "\<lambda>s. (None, None)"])
    (simp_all add: wit_answer_def wit_query_def)

text \<open>\<open>NewHandler\<close> accepts a minimum lifetime above the maximum. Such a handler keeps every
  short-lived answer open for longer than \<open>MaxEntryTTL\<close>, the documented ceiling.\<close>

theorem NewHandler_ceiling_not_enforced:
  assumes "NewHandler opts = Inr h" "0 < ho_MaxEntryTTL opts" "ho_MaxEntryTTL opts < ho_MinEntryTTL opts"
    and "uint (rawTTL :: 32 word) * second < ho_MinEntryTTL opts"
  shows "ho_MaxEntryTTL opts < clampTTL (wrap64 (uint rawTTL * second)) (h_minTTL h) (h_maxTTL h)"
proof -
  have "in_int64 (t * second)" if "0 \<le> t" "t < 2 ^ 32" for t
    using that by (simp add: in_int64_def second_def)
  then have "in_int64 (uint rawTTL * second)"
    using unsigned_less [of rawTTL, where 'a = int] by simp
  then have "wrap64 (uint rawTTL * second) = uint rawTTL * second" by (rule wrap64_id)
  then show ?thesis
    using assms by (auto simp: NewHandler_def clampTTL_def split: option.splits)
qed

theorem NewHandler_ceiling_not_enforced_witness:
  "\<exists>h. NewHandler \<lparr> ho_Store = Some NewPolicyStore, ho_Upstream = Some (\<lambda>w req. (w, None, None)),
      ho_Snooper = Some (Note log_exec), ho_MinEntryTTL = 600 * second, ho_MaxEntryTTL = 300 * second,
      ho_ForwardTimeout = 0 \<rparr> = Inr h \<and>
    300 * second < clampTTL (wrap64 (uint (10 :: 32 word) * second)) (h_minTTL h) (h_maxTTL h)"
proof -
  let ?o = "\<lparr> ho_Store = Some NewPolicyStore, ho_Upstream = Some (\<lambda>w req. (w, None, None)),
      ho_Snooper = Some (Note log_exec), ho_MinEntryTTL = 600 * second, ho_MaxEntryTTL = 300 * second,
      ho_ForwardTimeout = 0 \<rparr>"
  obtain h where "NewHandler ?o = Inr h" by (simp add: NewHandler_def)
  from NewHandler_ceiling_not_enforced [OF this, of 10] this show ?thesis
    by (auto simp: second_def)
qed

end
