(* ===== verification/Host.thy ===== *)
theory Host
  imports Netip
begin

text \<open>
  What the daemon uses of its host: the lexical functions of \<open>path/filepath\<close>, and the files,
  commands and processes of the operating system as the record \<open>host\<close>. Files hold values of a type
  \<open>'c\<close>: the JSON documents the daemon writes and reads back are kept as the values they encode.
\<close>

section \<open>path/filepath\<close>

text \<open>\<open>Clean\<close>: drop empty and dot components, resolve dot-dot against what precedes it. The components
  are kept in reverse.\<close>

definition clean_step :: "bool \<Rightarrow> string list \<Rightarrow> string \<Rightarrow> string list" where
  "clean_step r acc c =
    (if c = [] \<or> c = ''.'' then acc
     else if c = ''..'' then
       (if acc = [] then (if r then [] else [c])
        else if hd acc = ''..'' then c # acc else tl acc)
     else c # acc)"

definition path_of :: "bool \<Rightarrow> string list \<Rightarrow> string" where
  "path_of rooted acc =
    (if rooted then ''/'' @ Join (rev acc) ''/''
     else if acc = [] then ''.'' else Join (rev acc) ''/'')"

definition rooted :: "string \<Rightarrow> bool" where
  "rooted p = HasPrefix p ''/''"

definition Clean :: "string \<Rightarrow> string" where
  "Clean p = path_of (rooted p) (foldl (clean_step (rooted p)) [] (splitOn (CHR ''/'') p))"

definition filepath_Join :: "string list \<Rightarrow> string" where
  "filepath_Join elems =
    (case dropWhile (\<lambda>e. e = []) elems of [] \<Rightarrow> [] | es \<Rightarrow> Clean (Join es ''/''))"

text \<open>\<open>Dir\<close> cleans what precedes the last separator, separator included; \<open>Base\<close> is what follows it once
  trailing separators are gone.\<close>

definition filepath_Dir :: "string \<Rightarrow> string" where
  "filepath_Dir p = Clean (rev (dropWhile (\<lambda>c. c \<noteq> CHR ''/'') (rev p)))"

definition filepath_Base :: "string \<Rightarrow> string" where
  "filepath_Base p =
    (if p = [] then ''.''
     else let q = dropWhile (\<lambda>c. c = CHR ''/'') (rev p);
              b = rev (takeWhile (\<lambda>c. c \<noteq> CHR ''/'') q)
          in if b = [] then ''/'' else b)"

section \<open>The operating system\<close>

record FileInfo =
  fi_Size :: int64
  fi_IsDir :: bool
  fi_Ino :: nat

text \<open>\<open>h_Create\<close> opens a file with \<open>O_CREATE|O_WRONLY|O_TRUNC\<close> and \<open>h_Close\<close> closes what was opened at a
  path; \<open>h_Exec\<close> is \<open>exec.Command(...).CombinedOutput\<close>; \<open>h_Start\<close> and \<open>h_Wait\<close> are the two halves of a started
  command; \<open>h_Tick\<close> waits for the next tick of a ticker, or returns the error of a context that is
  done.\<close>

record ('w, 'c) host =
  h_Stat :: "'w \<Rightarrow> string \<Rightarrow> FileInfo result"
  h_ReadFile :: "'w \<Rightarrow> string \<Rightarrow> 'c result"
  h_ReadDir :: "'w \<Rightarrow> string \<Rightarrow> (string \<times> bool) list result"
  h_WriteFile :: "'w \<Rightarrow> string \<Rightarrow> 'c \<Rightarrow> 'w \<times> unit result"
  h_Create :: "'w \<Rightarrow> string \<Rightarrow> nat \<Rightarrow> 'w \<times> unit result"
  h_Close :: "'w \<Rightarrow> string \<Rightarrow> 'w \<times> unit result"
  h_MkdirAll :: "'w \<Rightarrow> string \<Rightarrow> nat \<Rightarrow> 'w \<times> unit result"
  h_Remove :: "'w \<Rightarrow> string \<Rightarrow> 'w \<times> unit result"
  h_RemoveAll :: "'w \<Rightarrow> string \<Rightarrow> 'w \<times> unit result"
  h_Rename :: "'w \<Rightarrow> string \<Rightarrow> string \<Rightarrow> 'w \<times> unit result"
  h_Link :: "'w \<Rightarrow> string \<Rightarrow> string \<Rightarrow> 'w \<times> unit result"
  h_Chmod :: "'w \<Rightarrow> string \<Rightarrow> nat \<Rightarrow> 'w \<times> unit result"
  h_Chown :: "'w \<Rightarrow> string \<Rightarrow> nat \<Rightarrow> nat \<Rightarrow> 'w \<times> unit result"
  h_Exec :: "'w \<Rightarrow> string \<Rightarrow> string list \<Rightarrow> 'w \<times> string \<times> goerr option"
  h_Start :: "'w \<Rightarrow> string \<Rightarrow> string list \<Rightarrow> 'w \<times> unit result"
  h_Wait :: "'w \<Rightarrow> 'w \<times> unit result"
  h_Kill :: "'w \<Rightarrow> int \<Rightarrow> nat \<Rightarrow> 'w \<times> unit result"
  h_Tick :: "'w \<Rightarrow> 'w \<times> goerr option"

definition os_ErrNotExist :: goerr where
  "os_ErrNotExist = New ''file does not exist''"

definition EXDEV :: goerr where
  "EXDEV = New ''invalid cross-device link''"

definition ESRCH :: goerr where
  "ESRCH = New ''no such process''"

section \<open>Facts on paths\<close>

text \<open>A component that \<open>Clean\<close> keeps as it is.\<close>

definition plain_comp :: "string \<Rightarrow> bool" where
  "plain_comp c \<longleftrightarrow> c \<noteq> [] \<and> c \<noteq> ''.'' \<and> c \<noteq> ''..'' \<and> CHR ''/'' \<notin> set c"

lemma splitOn_nonempty: "splitOn c p \<noteq> []"
  by (induction p) (auto split: list.split)

lemma splitOn_pieces: "e \<in> set (splitOn c p) \<Longrightarrow> c \<notin> set e"
  by (induction p arbitrary: e) (auto split: list.splits if_splits)

lemma splitOn_snoc: "c \<notin> set e \<Longrightarrow> splitOn c (p @ c # e) = splitOn c p @ [e]"
  by (induction p) (auto simp: splitOn_no splitOn_nonempty split: list.split)

lemma clean_step_plain: "plain_comp c \<Longrightarrow> clean_step r acc c = c # acc"
  by (simp add: clean_step_def plain_comp_def)

lemma rooted_append: "p \<noteq> [] \<Longrightarrow> rooted (p @ q) = rooted p"
  by (cases p) (auto simp: rooted_def HasPrefix_def)

lemma Join_snoc: "xs \<noteq> [] \<Longrightarrow> Join (xs @ [x]) sep = Join xs sep @ sep @ x"
  by (induction xs sep rule: Join.induct) (simp_all)

text \<open>Cleaning a path extended by a plain component extends the cleaned path by it.\<close>

definition under :: "string \<Rightarrow> string \<Rightarrow> string" where
  "under p c = (if p = ''.'' then c else if p = ''/'' then ''/'' @ c else p @ ''/'' @ c)"

definition kept_comp :: "string \<Rightarrow> bool" where
  "kept_comp c \<longleftrightarrow> c \<noteq> [] \<and> c \<noteq> ''.'' \<and> CHR ''/'' \<notin> set c"

lemma clean_step_kept:
  "\<lbrakk> \<forall>a\<in>set acc. kept_comp a; CHR ''/'' \<notin> set c \<rbrakk> \<Longrightarrow> \<forall>a\<in>set (clean_step r acc c). kept_comp a"
  by (auto simp: clean_step_def kept_comp_def dest: list.set_sel(2) [rotated])

lemma clean_fold_kept:
  "\<lbrakk> \<forall>a\<in>set acc. kept_comp a; \<forall>c\<in>set cs. CHR ''/'' \<notin> set c \<rbrakk>
   \<Longrightarrow> \<forall>a\<in>set (foldl (clean_step r) acc cs). kept_comp a"
proof (induction cs arbitrary: acc)
  case (Cons c cs)
  have "\<forall>a\<in>set (clean_step r acc c). kept_comp a"
    by (rule clean_step_kept) (use Cons.prems in simp_all)
  from Cons.IH [OF this] Cons.prems(2) show ?case by simp
qed simp

lemma Join_kept:
  assumes "xs \<noteq> []" and "\<forall>a\<in>set xs. kept_comp a"
  shows "Join xs ''/'' \<noteq> [] \<and> Join xs ''/'' \<noteq> ''.'' \<and> Join xs ''/'' \<noteq> ''/''"
proof (cases xs)
  case (Cons a as)
  then show ?thesis using assms
    by (cases as) (auto simp: kept_comp_def Cons_eq_append_conv append_eq_Cons_conv)
qed (use assms in simp)

lemma path_of_under:
  assumes "\<forall>a\<in>set acc. kept_comp a"
  shows "path_of r (c # acc) = under (path_of r acc) c"
  using assms Join_kept [of "rev acc"] Join_snoc [of "rev acc" c "''/''"]
  by (cases "acc = []") (auto simp: path_of_def under_def)

lemma Clean_snoc:
  assumes "p \<noteq> []" and "plain_comp c"
  shows "Clean (p @ ''/'' @ c) = under (Clean p) c"
proof -
  have k: "\<forall>a\<in>set (foldl (clean_step (rooted p)) [] (splitOn CHR ''/'' p)). kept_comp a"
    using clean_fold_kept [of "[]"] splitOn_pieces by fastforce
  have "splitOn CHR ''/'' (p @ ''/'' @ c) = splitOn CHR ''/'' p @ [c]"
    using splitOn_snoc [of "CHR ''/''" c p] assms(2) by (simp add: plain_comp_def)
  then show ?thesis
    using assms by (simp add: Clean_def rooted_append clean_step_plain path_of_under [OF k])
qed

lemma under_inj: "\<lbrakk> under p c = under p d \<rbrakk> \<Longrightarrow> c = d"
  by (auto simp: under_def split: if_splits)

lemma filepath_Join_nonempty: "e \<noteq> [] \<Longrightarrow> filepath_Join (e # es) = Clean (Join (e # es) ''/'')"
  by (simp add: filepath_Join_def)

lemma Join_app_snoc:
  assumes "e \<noteq> []" and "plain_comp c"
  shows "filepath_Join ((e # es) @ [c]) = under (filepath_Join (e # es)) c"
proof -
  have "Join (e # es) ''/'' \<noteq> []"
    using assms(1) by (cases es) simp_all
  from Clean_snoc [OF this assms(2)] Join_snoc [of "e # es" c "''/''"] show ?thesis
    using filepath_Join_nonempty [OF assms(1), of es] filepath_Join_nonempty [OF assms(1), of "es @ [c]"]
    by simp
qed

end
