(* ===== verification/Snapshot_Store.thy ===== *)
theory Snapshot_Store
  imports Host
begin

text \<open>
  Snapshot files, \<open>daemon/pkg/snapshot/types.go\<close>, and their durable copies in S3,
  \<open>daemon/pkg/snapshot/s3.go\<close>. The S3 transfer managers are the record \<open>s3\<close>; what the store relies on of
  the file system and of the object store is the locale \<open>snapshot_files\<close>, which reads the world as the
  contents of files and of objects.
\<close>

section \<open>Paths and references\<close>

definition snapshotsDir :: string where "snapshotsDir = ''snapshots''"
definition memSnapFile :: string where "memSnapFile = ''mem''"
definition stateSnapFile :: string where "stateSnapFile = ''state''"
definition partialSuffix :: string where "partialSuffix = ''.partial''"
definition DirMode :: nat where "DirMode = 493"

definition ErrSnapshotNotFound :: goerr where
  "ErrSnapshotNotFound = New ''snapshot not found''"

record LocalReference =
  lr_SnapshotID :: string
  lr_MemFilePath :: string
  lr_StateFilePath :: string

definition MemFilePath :: "string \<Rightarrow> string" where
  "MemFilePath snapshotID = filepath_Join [''/'', snapshotsDir, snapshotID, memSnapFile]"

definition StateFilePath :: "string \<Rightarrow> string" where
  "StateFilePath snapshotID = filepath_Join [''/'', snapshotsDir, snapshotID, stateSnapFile]"

definition localReferenceFor :: "string \<Rightarrow> string \<Rightarrow> LocalReference" where
  "localReferenceFor chroot snapshotID =
    \<lparr> lr_SnapshotID = snapshotID,
      lr_MemFilePath = filepath_Join [chroot, MemFilePath snapshotID],
      lr_StateFilePath = filepath_Join [chroot, StateFilePath snapshotID] \<rparr>"

text \<open>The fresh id comes from the uuid package, an argument.\<close>

definition MakeLocalReference :: "('w \<Rightarrow> 'w \<times> string) \<Rightarrow> 'w \<Rightarrow> string \<Rightarrow> 'w \<times> LocalReference" where
  "MakeLocalReference newUUID w chroot =
    (case newUUID w of (w', uuid) \<Rightarrow> (w', localReferenceFor chroot uuid))"

section \<open>s3.go\<close>

text \<open>An upload reads a content, a download writes into the file opened at a path. The flag says that
  the context of the call is already cancelled.\<close>

record ('w, 'c) s3 =
  s3_Upload :: "'w \<Rightarrow> bool \<Rightarrow> string \<Rightarrow> string \<Rightarrow> 'c \<Rightarrow> 'w \<times> unit result"
  s3_Download :: "'w \<Rightarrow> bool \<Rightarrow> string \<Rightarrow> string \<Rightarrow> string \<Rightarrow> 'w \<times> unit result"
  s3_isNoSuchKey :: "goerr \<Rightarrow> bool"
  s3_isNoSuchBucket :: "goerr \<Rightarrow> bool"
  s3_ErrorCode :: "goerr \<Rightarrow> string option"
  s3_bucketName :: string

definition memObjectKey :: "string \<Rightarrow> string" where
  "memObjectKey snapshotID = filepath_Join [snapshotsDir, snapshotID, memSnapFile]"

definition stateObjectKey :: "string \<Rightarrow> string" where
  "stateObjectKey snapshotID = filepath_Join [snapshotsDir, snapshotID, stateSnapFile]"

definition isNotFound :: "('w, 'c) s3 \<Rightarrow> goerr \<Rightarrow> bool" where
  "isNotFound s err =
    (if s3_isNoSuchKey s err then True
     else if s3_isNoSuchBucket s err then True
     else case s3_ErrorCode s err of
       Some code \<Rightarrow> code = ''NoSuchKey'' \<or> code = ''NoSuchBucket'' \<or> code = ''NotFound''
     | None \<Rightarrow> False)"

definition uploadObject :: "('w, 'c) s3 \<Rightarrow> string \<Rightarrow> 'c \<Rightarrow> 'w \<Rightarrow> bool \<Rightarrow> 'w \<times> unit result" where
  "uploadObject s key body w cancelled =
    onErr (wrapf (''upload '' @ key)) (s3_Upload s w cancelled (s3_bucketName s) key body)"

definition downloadObject :: "('w, 'c) s3 \<Rightarrow> string \<Rightarrow> string \<Rightarrow> 'w \<Rightarrow> bool \<Rightarrow> 'w \<times> unit result" where
  "downloadObject s key path w cancelled =
    onErr (wrapf (''download '' @ key)) (s3_Download s w cancelled (s3_bucketName s) key path)"

text \<open>An \<open>errgroup\<close> of two functions, in the order the scheduler lets them finish: the first error
  cancels the context of the other and is the one returned.\<close>

definition errgroup :: "bool \<Rightarrow> ('w \<Rightarrow> bool \<Rightarrow> 'w \<times> unit result) \<Rightarrow> ('w \<Rightarrow> bool \<Rightarrow> 'w \<times> unit result)
    \<Rightarrow> 'w \<Rightarrow> 'w \<times> unit result" where
  "errgroup swapped f g w =
    (let (a, b) = (if swapped then (g, f) else (f, g));
         (w1, r1) = a w False;
         (w2, r2) = b w1 (\<not> isOk r1)
     in (w2, if isOk r1 then r2 else r1))"

definition s3_Put :: "('w, 'c) s3 \<Rightarrow> bool \<Rightarrow> 'w \<Rightarrow> string \<Rightarrow> 'c \<times> 'c \<Rightarrow> 'w \<times> unit result" where
  "s3_Put s swapped w snapshotID contents =
    errgroup swapped (uploadObject s (memObjectKey snapshotID) (fst contents))
      (uploadObject s (stateObjectKey snapshotID) (snd contents)) w"

definition s3_Get :: "('w, 'c) s3 \<Rightarrow> bool \<Rightarrow> 'w \<Rightarrow> string \<Rightarrow> string \<times> string \<Rightarrow> 'w \<times> unit result" where
  "s3_Get s swapped w snapshotID contents =
    onErr (\<lambda>err. if isNotFound s err then ErrSnapshotNotFound else err)
      (errgroup swapped (downloadObject s (memObjectKey snapshotID) (fst contents))
        (downloadObject s (stateObjectKey snapshotID) (snd contents)) w)"

section \<open>The store\<close>

text \<open>The durable store is an argument, as in the code: \<open>Put\<close> takes the two contents, \<open>Get\<close> the two paths
  the files to fill are open at.\<close>

record ('w, 'c) durable =
  ds_Put :: "'w \<Rightarrow> string \<Rightarrow> 'c \<times> 'c \<Rightarrow> 'w \<times> unit result"
  ds_Get :: "'w \<Rightarrow> string \<Rightarrow> string \<times> string \<Rightarrow> 'w \<times> unit result"

definition NewS3DurableStore :: "('w, 'c) s3 \<Rightarrow> bool \<Rightarrow> ('w, 'c) durable" where
  "NewS3DurableStore s swapped = \<lparr> ds_Put = s3_Put s swapped, ds_Get = s3_Get s swapped \<rparr>"

definition exists_file :: "('w, 'c) host \<Rightarrow> 'w \<Rightarrow> string \<Rightarrow> bool" where
  "exists_file h w path = (case h_Stat h w path of Inl _ \<Rightarrow> False | Inr info \<Rightarrow> \<not> fi_IsDir info)"

definition Store_Put :: "('w, 'c) host \<Rightarrow> ('w, 'c) durable \<Rightarrow> 'w \<Rightarrow> LocalReference \<Rightarrow> 'w \<times> unit result" where
  "Store_Put h d w localRef =
    (case h_ReadFile h w (lr_MemFilePath localRef) of
       Inl err \<Rightarrow> (w, Inl (wrapf ''open mem file'' err))
     | Inr memFile \<Rightarrow>
    (case h_ReadFile h w (lr_StateFilePath localRef) of
       Inl err \<Rightarrow> (w, Inl (wrapf ''open state file'' err))
     | Inr stateFile \<Rightarrow>
    onErr (wrapf (''put snapshot '' @ lr_SnapshotID localRef))
      (ds_Put d w (lr_SnapshotID localRef) (memFile, stateFile))))"

text \<open>\<open>_ = os.Remove(path)\<close>.\<close>

definition drop_file :: "('w, 'c) host \<Rightarrow> string \<Rightarrow> 'w \<Rightarrow> 'w" where
  "drop_file h path w = fst (h_Remove h w path)"

text \<open>The second half of \<open>Load\<close>: publish the two partial files under their final names.\<close>

definition load_publish :: "('w, 'c) host \<Rightarrow> LocalReference \<Rightarrow> 'w \<Rightarrow> 'w \<times> LocalReference result" where
  "load_publish h ref w =
    (let memPartial = lr_MemFilePath ref @ partialSuffix;
         statePartial = lr_StateFilePath ref @ partialSuffix
     in case h_Rename h w memPartial (lr_MemFilePath ref) of
          (w1, Inl err) \<Rightarrow> (drop_file h statePartial (drop_file h memPartial w1),
                            Inl (wrapf ''rename mem file'' err))
        | (w1, Inr _) \<Rightarrow>
       (case h_Rename h w1 statePartial (lr_StateFilePath ref) of
          (w2, Inl err) \<Rightarrow> (drop_file h statePartial w2, Inl (wrapf ''rename state file'' err))
        | (w2, Inr _) \<Rightarrow> (w2, Inr ref)))"

text \<open>\<open>errors.Join\<close> of the two errors of closing.\<close>

fun join_errs :: "unit result \<Rightarrow> unit result \<Rightarrow> unit result" where
  "join_errs (Inr _) r = r"
| "join_errs (Inl e) (Inr _) = Inl e"
| "join_errs (Inl e) (Inl e') = Inl (Wrap [] e ([CHR 0x0A] @ Error e'))"

definition load_download ::
  "('w, 'c) host \<Rightarrow> ('w, 'c) durable \<Rightarrow> LocalReference \<Rightarrow> 'w \<Rightarrow> 'w \<times> LocalReference result" where
  "load_download h d ref w =
    (let memPartial = lr_MemFilePath ref @ partialSuffix;
         statePartial = lr_StateFilePath ref @ partialSuffix;
         clean = (\<lambda>w. drop_file h statePartial (drop_file h memPartial w));
         (w1, getErr) = ds_Get d w (lr_SnapshotID ref) (memPartial, statePartial);
         (w2, memCloseErr) = h_Close h w1 memPartial;
         (w3, stateCloseErr) = h_Close h w2 statePartial
     in case getErr of
          Inl err \<Rightarrow> (clean w3, Inl err)
        | Inr _ \<Rightarrow>
       (case join_errs memCloseErr stateCloseErr of
          Inl err \<Rightarrow> (clean w3, Inl (wrapf ''close partial files'' err))
        | Inr _ \<Rightarrow> load_publish h ref w3))"

definition Store_Load ::
  "('w, 'c) host \<Rightarrow> ('w, 'c) durable \<Rightarrow> 'w \<Rightarrow> string \<Rightarrow> string \<Rightarrow> 'w \<times> LocalReference result" where
  "Store_Load h d w chroot snapshotID =
    (let ref = localReferenceFor chroot snapshotID;
         memPartial = lr_MemFilePath ref @ partialSuffix;
         statePartial = lr_StateFilePath ref @ partialSuffix
     in if exists_file h w (lr_MemFilePath ref) \<and> exists_file h w (lr_StateFilePath ref) then (w, Inr ref)
        else
        case h_MkdirAll h w (filepath_Dir (lr_MemFilePath ref)) DirMode of
          (w1, Inl err) \<Rightarrow> (w1, Inl (wrapf ''create snapshot dir'' err))
        | (w1, Inr _) \<Rightarrow>
       (case h_Create h w1 memPartial 420 of
          (w2, Inl err) \<Rightarrow> (w2, Inl (wrapf ''create partial mem file'' err))
        | (w2, Inr _) \<Rightarrow>
       (case h_Create h w2 statePartial 420 of
          (w3, Inl err) \<Rightarrow> (drop_file h memPartial (fst (h_Close h w3 memPartial)),
                            Inl (wrapf ''create partial state file'' err))
        | (w3, Inr _) \<Rightarrow> load_download h d ref w3)))"

section \<open>What the store relies on\<close>

text \<open>The regular files of the host, by path.\<close>

locale file_system =
  fixes h :: "('w, 'c) host" and fsv :: "'w \<Rightarrow> string \<Rightarrow> 'c option"
  assumes stat_file: "(\<exists>i. h_Stat h w p = Inr i \<and> \<not> fi_IsDir i) \<longleftrightarrow> fsv w p \<noteq> None"
    and read_file: "h_ReadFile h w p = Inr c \<Longrightarrow> fsv w p = Some c"
    and mkdir_frame: "fsv (fst (h_MkdirAll h w p m)) q = fsv w q"
    and close_frame: "fsv (fst (h_Close h w p)) q = fsv w q"
    and create_frame: "q \<noteq> p \<Longrightarrow> fsv (fst (h_Create h w p m)) q = fsv w q"
    and remove_frame: "q \<noteq> p \<Longrightarrow> fsv (fst (h_Remove h w p)) q = fsv w q"
    and rename_err: "\<not> isOk (snd (h_Rename h w p p')) \<Longrightarrow> fsv (fst (h_Rename h w p p')) q = fsv w q"
    and rename_ok: "\<lbrakk> isOk (snd (h_Rename h w p p')); p \<noteq> p' \<rbrakk>
      \<Longrightarrow> fsv (fst (h_Rename h w p p')) q = (if q = p' then fsv w p else if q = p then None else fsv w q)"
begin

lemma exists_iff: "exists_file h w p \<longleftrightarrow> fsv w p \<noteq> None"
  using stat_file [of w p] by (auto simp: exists_file_def split: sum.splits)

lemma drop_frame: "q \<noteq> p \<Longrightarrow> fsv (drop_file h p w) q = fsv w q"
  by (simp add: drop_file_def remove_frame)

end

text \<open>What is present of a snapshot under its final names is what the durable store has of it; and
  nothing but the files of the snapshot, final and partial, may change.\<close>

definition intact ::
  "('w \<Rightarrow> string \<Rightarrow> 'c option) \<Rightarrow> ('w \<Rightarrow> string \<Rightarrow> 'c option \<times> 'c option) \<Rightarrow> LocalReference \<Rightarrow> 'w \<Rightarrow> bool" where
  "intact fsv stored ref w \<longleftrightarrow>
    (fsv w (lr_MemFilePath ref) \<noteq> None \<longrightarrow> fsv w (lr_MemFilePath ref) = fst (stored w (lr_SnapshotID ref)))
    \<and> (fsv w (lr_StateFilePath ref) \<noteq> None
        \<longrightarrow> fsv w (lr_StateFilePath ref) = snd (stored w (lr_SnapshotID ref)))"

definition snapshot_paths :: "LocalReference \<Rightarrow> string list" where
  "snapshot_paths ref =
    [lr_MemFilePath ref, lr_StateFilePath ref,
     lr_MemFilePath ref @ partialSuffix, lr_StateFilePath ref @ partialSuffix]"

text \<open>A durable store keeps two contents per snapshot id, and the files of the host are none of its
  business but for the two it fills.\<close>

locale durable_store = file_system +
  fixes d :: "('w, 'c) durable" and stored :: "'w \<Rightarrow> string \<Rightarrow> 'c option \<times> 'c option"
  assumes get_frame: "\<lbrakk> q \<noteq> p; q \<noteq> p' \<rbrakk> \<Longrightarrow> fsv (fst (ds_Get d w i (p, p'))) q = fsv w q"
    and get_ok: "\<lbrakk> p \<noteq> p'; isOk (snd (ds_Get d w i (p, p'))) \<rbrakk>
      \<Longrightarrow> \<exists>c c'. stored w i = (Some c, Some c')
        \<and> fsv (fst (ds_Get d w i (p, p'))) p = Some c \<and> fsv (fst (ds_Get d w i (p, p'))) p' = Some c'"
    and get_stored: "stored (fst (ds_Get d w i pp)) = stored w"
    and put_ok: "isOk (snd (ds_Put d w i (c, c'))) \<Longrightarrow> stored (fst (ds_Put d w i (c, c'))) i = (Some c, Some c')"
    and files_stored: "stored (fst (h_MkdirAll h w p m)) = stored w" "stored (fst (h_Close h w p)) = stored w"
      "stored (fst (h_Create h w p m)) = stored w" "stored (fst (h_Remove h w p)) = stored w"
      "stored (fst (h_Rename h w p p')) = stored w"
begin

lemma drop_stored: "stored (drop_file h p w) = stored w"
  by (simp add: drop_file_def files_stored)

text \<open>Steps that touch only the partial files.\<close>

definition same :: "LocalReference \<Rightarrow> 'w \<Rightarrow> 'w \<Rightarrow> bool" where
  "same ref w w' \<longleftrightarrow> stored w' = stored w
    \<and> (\<forall>q. q \<noteq> lr_MemFilePath ref @ partialSuffix \<longrightarrow> q \<noteq> lr_StateFilePath ref @ partialSuffix
          \<longrightarrow> fsv w' q = fsv w q)"

lemma same_trans: "\<lbrakk> same ref w w1; same ref w1 w2 \<rbrakk> \<Longrightarrow> same ref w w2"
  by (simp add: same_def)

lemma same_steps:
  "same ref w (fst (h_MkdirAll h w p m))" "same ref w (fst (h_Close h w p))"
  "p \<in> {lr_MemFilePath ref @ partialSuffix, lr_StateFilePath ref @ partialSuffix}
    \<Longrightarrow> same ref w (drop_file h p w) \<and> same ref w (fst (h_Create h w p m))"
  "same ref w (fst (ds_Get d w i (lr_MemFilePath ref @ partialSuffix, lr_StateFilePath ref @ partialSuffix)))"
  by (auto simp: same_def mkdir_frame close_frame create_frame drop_frame get_frame
      files_stored drop_stored get_stored)

text \<open>The outcome of a part of \<open>Load\<close>: what is present stays intact, success means that both files are
  there, and no other file changes.\<close>

definition load_step :: "LocalReference \<Rightarrow> 'w \<Rightarrow> 'w \<times> LocalReference result \<Rightarrow> bool" where
  "load_step ref w x \<longleftrightarrow>
    (intact fsv stored ref w \<longrightarrow> intact fsv stored ref (fst x))
    \<and> stored (fst x) = stored w
    \<and> (\<forall>q. q \<notin> set (snapshot_paths ref) \<longrightarrow> fsv (fst x) q = fsv w q)
    \<and> (\<forall>r. snd x = Inr r \<longrightarrow> r = ref
        \<and> (intact fsv stored ref w \<longrightarrow> (\<exists>c c'. stored w (lr_SnapshotID ref) = (Some c, Some c')
              \<and> fsv (fst x) (lr_MemFilePath ref) = Some c \<and> fsv (fst x) (lr_StateFilePath ref) = Some c')))"

lemma same_intact:
  "\<lbrakk> distinct (snapshot_paths ref); same ref w w' \<rbrakk>
   \<Longrightarrow> intact fsv stored ref w' = intact fsv stored ref w \<and> stored w' = stored w
     \<and> (\<forall>q. q \<notin> set (snapshot_paths ref) \<longrightarrow> fsv w' q = fsv w q)"
  by (simp add: same_def intact_def snapshot_paths_def)

lemma load_step_kept:
  "\<lbrakk> distinct (snapshot_paths ref); same ref w w' \<rbrakk> \<Longrightarrow> load_step ref w (w', Inl e)"
  using same_intact by (simp add: load_step_def)

lemma load_step_trans:
  "\<lbrakk> distinct (snapshot_paths ref); same ref w w'; load_step ref w' x \<rbrakk> \<Longrightarrow> load_step ref w x"
  using same_intact [of ref w w'] unfolding load_step_def by metis

lemma publish_state:
  assumes d: "distinct (snapshot_paths ref)"
    and st: "stored w (lr_SnapshotID ref) = (Some c, Some c')" "stored w1 = stored w"
    and ps: "fsv w (lr_StateFilePath ref @ partialSuffix) = Some c'"
    and o1: "\<And>q. fsv w1 q = (if q = lr_MemFilePath ref then Some c
               else if q = lr_MemFilePath ref @ partialSuffix then None else fsv w q)"
  shows "load_step ref w
    (case h_Rename h w1 (lr_StateFilePath ref @ partialSuffix) (lr_StateFilePath ref) of
       (w2, Inl err) \<Rightarrow> (drop_file h (lr_StateFilePath ref @ partialSuffix) w2, Inl (f err))
     | (w2, Inr _) \<Rightarrow> (w2, Inr ref))"
proof -
  let ?s = "lr_StateFilePath ref"
  obtain w2 r2 where r2: "h_Rename h w1 (?s @ partialSuffix) ?s = (w2, r2)" by fastforce
  have st2: "stored w2 = stored w"
    using files_stored(5) [of w1 "?s @ partialSuffix" ?s] r2 st by simp
  have e2: "fsv w2 q = fsv w1 q" if "\<not> isOk r2" for q
    using rename_err [of w1 "?s @ partialSuffix" ?s q] that r2 by simp
  have o2: "fsv w2 q = (if q = ?s then fsv w1 (?s @ partialSuffix)
      else if q = ?s @ partialSuffix then None else fsv w1 q)" if "isOk r2" for q
    using rename_ok [of w1 "?s @ partialSuffix" ?s q] that r2 d by (auto simp: snapshot_paths_def)
  show ?thesis
    using d st ps e2 o2
    by (cases r2) (auto simp: r2 load_step_def intact_def snapshot_paths_def drop_frame drop_stored o1 st2)
qed

lemma load_publish_step:
  assumes d: "distinct (snapshot_paths ref)"
    and st: "stored w (lr_SnapshotID ref) = (Some c, Some c')"
    and pm: "fsv w (lr_MemFilePath ref @ partialSuffix) = Some c"
    and ps: "fsv w (lr_StateFilePath ref @ partialSuffix) = Some c'"
  shows "load_step ref w (load_publish h ref w)"
proof -
  let ?m = "lr_MemFilePath ref"
  obtain w1 r1 where r1: "h_Rename h w (?m @ partialSuffix) ?m = (w1, r1)" by fastforce
  have st1: "stored w1 = stored w"
    using files_stored(5) [of w "?m @ partialSuffix" ?m] r1 by simp
  have e1: "same ref w w1" if "\<not> isOk r1"
    using rename_err [of w "?m @ partialSuffix" ?m] that r1 st1 by (simp add: same_def)
  have o1: "fsv w1 q = (if q = ?m then Some c else if q = ?m @ partialSuffix then None else fsv w q)"
    if "isOk r1" for q
    using rename_ok [of w "?m @ partialSuffix" ?m q] that r1 d pm by (auto simp: snapshot_paths_def)
  show ?thesis
  proof (cases r1)
    case (Inl e)
    then have "same ref w w1" using e1 by simp
    then have "same ref w (drop_file h (lr_StateFilePath ref @ partialSuffix) (drop_file h (?m @ partialSuffix) w1))"
      using same_steps(3) by (meson insertI1 insertI2 same_trans)
    then show ?thesis
      using load_step_kept [OF d] by (simp add: load_publish_def r1 Inl Let_def)
  next
    case (Inr u)
    then show ?thesis
      using publish_state [OF d st st1 ps o1] by (simp add: load_publish_def r1 Let_def)
  qed
qed

lemma load_download_step:
  assumes d: "distinct (snapshot_paths ref)"
  shows "load_step ref w (load_download h d ref w)"
proof -
  let ?m = "lr_MemFilePath ref @ partialSuffix" and ?s = "lr_StateFilePath ref @ partialSuffix"
  obtain w1 g where g: "ds_Get d w (lr_SnapshotID ref) (?m, ?s) = (w1, g)" by fastforce
  obtain w2 m where m: "h_Close h w1 ?m = (w2, m)" by fastforce
  obtain w3 c where c: "h_Close h w2 ?s = (w3, c)" by fastforce
  have f: "fsv w3 q = fsv w1 q" for q
    using close_frame [of w1 ?m q] close_frame [of w2 ?s q] m c by simp
  have k: "same ref w w3"
    using same_steps(4) [of ref w "lr_SnapshotID ref"] same_steps(2) [of ref w1 ?m]
      same_steps(2) [of ref w2 ?s] g m c by (auto intro: same_trans)
  then have "same ref w (drop_file h ?s (drop_file h ?m w3))"
    using same_steps(3) by (meson insertI1 insertI2 same_trans)
  then have cl: "load_step ref w (drop_file h ?s (drop_file h ?m w3), Inl e)" for e
    by (rule load_step_kept [OF d])
  show ?thesis
  proof (cases "isOk g \<and> isOk (join_errs m c)")
    case True
    then have x: "load_download h d ref w = load_publish h ref w3"
      by (auto simp: load_download_def Let_def g m c split: sum.split)
    have "?m \<noteq> ?s" using d by (simp add: snapshot_paths_def)
    from get_ok [OF this, of w "lr_SnapshotID ref"] g True obtain e e' where
      "stored w (lr_SnapshotID ref) = (Some e, Some e')" "fsv w1 ?m = Some e" "fsv w1 ?s = Some e'" by auto
    then show ?thesis
      using load_publish_step [OF d, of w3 e e'] f k load_step_trans [OF d k]
      by (simp add: x same_def)
  next
    case False
    then show ?thesis
      using cl by (auto simp: load_download_def Let_def g m c split: sum.split)
  qed
qed

lemma Store_Load_step:
  assumes r: "ref = localReferenceFor chroot i" and d: "distinct (snapshot_paths ref)"
  shows "load_step ref w (Store_Load h d w chroot i)"
proof -
  let ?m = "lr_MemFilePath ref @ partialSuffix" and ?s = "lr_StateFilePath ref @ partialSuffix"
  obtain w1 r1 where m: "h_MkdirAll h w (filepath_Dir (lr_MemFilePath ref)) DirMode = (w1, r1)" by fastforce
  obtain w2 r2 where c1: "h_Create h w1 ?m 420 = (w2, r2)" by fastforce
  obtain w3 r3 where c2: "h_Create h w2 ?s 420 = (w3, r3)" by fastforce
  have k1: "same ref w w1" using same_steps(1) m by (metis fst_conv)
  have k2: "same ref w w2" using same_steps(3) [of ?m ref w1] c1 same_trans [OF k1] by (metis fst_conv insertI1)
  have k3: "same ref w w3"
    using same_steps(3) [of ?s ref w2] c2 same_trans [OF k2] by (metis fst_conv insertI1 insertI2)
  have "same ref w (drop_file h ?m (fst (h_Close h w3 ?m)))"
    using same_steps(2,3) k3 by (meson insertI1 same_trans)
  note kept = this k1 k2 k3
  have early: "load_step ref w (w, Inr ref)" if "exists_file h w (lr_MemFilePath ref) \<and> exists_file h w (lr_StateFilePath ref)"
    using that by (cases "stored w (lr_SnapshotID ref)") (auto simp: load_step_def intact_def exists_iff)
  show ?thesis
    using early kept [THEN load_step_kept [OF d]] load_step_trans [OF d k3 load_download_step [OF d]]
    by (auto simp: Store_Load_def r [symmetric] m c1 c2 Let_def split: sum.split)
qed

lemma Store_Load_outcome:
  assumes "ref = localReferenceFor chroot i" and "distinct (snapshot_paths ref)"
    and "intact fsv stored ref w" and "Store_Load h d w chroot i = (w', r)"
  shows "intact fsv stored ref w'"
    and "\<And>q. q \<notin> set (snapshot_paths ref) \<Longrightarrow> fsv w' q = fsv w q"
    and "\<And>ref'. r = Inr ref' \<Longrightarrow> ref' = ref \<and> (\<exists>c c'. stored w i = (Some c, Some c')
        \<and> fsv w' (lr_MemFilePath ref) = Some c \<and> fsv w' (lr_StateFilePath ref) = Some c')"
  using Store_Load_step [OF assms(1,2), of w] assms(3,4) assms(1)
  by (auto simp: load_step_def localReferenceFor_def)

lemma Store_Put_outcome:
  assumes "Store_Put h d w ref = (w', Inr u)"
  shows "\<exists>c c'. fsv w (lr_MemFilePath ref) = Some c \<and> fsv w (lr_StateFilePath ref) = Some c'
    \<and> stored w' (lr_SnapshotID ref) = (Some c, Some c')"
proof -
  from assms obtain c c' where c: "h_ReadFile h w (lr_MemFilePath ref) = Inr c"
    "h_ReadFile h w (lr_StateFilePath ref) = Inr c'"
    and p: "ds_Put d w (lr_SnapshotID ref) (c, c') = (w', Inr u)"
    by (auto simp: Store_Put_def onErr_def split: sum.splits prod.splits)
  show ?thesis
    using put_ok [of w "lr_SnapshotID ref" c c'] p c [THEN read_file] by simp
qed

end

section \<open>The paths of a snapshot\<close>

lemma rooted_Clean: "rooted p \<Longrightarrow> Clean p \<noteq> ''.''"
  by (simp add: Clean_def path_of_def)

lemma rooted_Join: "filepath_Join (''/'' # es) \<noteq> ''.''"
  by (cases es) (simp_all add: filepath_Join_nonempty rooted_Clean rooted_def HasPrefix_def)

lemma under_comp: "p \<noteq> ''.'' \<Longrightarrow> \<exists>p'. \<forall>c. under p c = p' @ ''/'' @ c"
  by (rule exI [of _ "if p = ''/'' then [] else p"]) (simp add: under_def)

lemma under_append: "under p c @ s = under p (c @ s)"
  by (simp add: under_def)

lemmas plain_names = plain_comp_def memSnapFile_def stateSnapFile_def partialSuffix_def

lemma snapshot_dir:
  assumes "chroot \<noteq> []"
  shows "\<exists>dir. lr_MemFilePath (localReferenceFor chroot i) = under dir memSnapFile
    \<and> lr_StateFilePath (localReferenceFor chroot i) = under dir stateSnapFile"
proof -
  let ?x = "filepath_Join [''/'', snapshotsDir, i]"
  have m: "MemFilePath i = under ?x memSnapFile" "StateFilePath i = under ?x stateSnapFile"
    using Join_app_snoc [of "''/''" memSnapFile "[snapshotsDir, i]"]
      Join_app_snoc [of "''/''" stateSnapFile "[snapshotsDir, i]"]
    by (simp_all add: MemFilePath_def StateFilePath_def plain_names)
  obtain y where y: "\<And>c. under ?x c = y @ ''/'' @ c"
    using under_comp [OF rooted_Join] by blast
  have "filepath_Join [chroot, under ?x c] = under (Clean (chroot @ ''/'' @ y)) c" if "plain_comp c" for c
    using Clean_snoc [of "chroot @ ''/'' @ y" c] that assms unfolding y by (simp add: filepath_Join_nonempty)
  then show ?thesis
    by (auto simp: localReferenceFor_def m plain_names)
qed

lemma snapshot_paths_distinct:
  assumes "chroot \<noteq> []"
  shows "distinct (snapshot_paths (localReferenceFor chroot i))"
proof -
  from snapshot_dir [OF assms] obtain dir where
    "lr_MemFilePath (localReferenceFor chroot i) = under dir memSnapFile"
    "lr_StateFilePath (localReferenceFor chroot i) = under dir stateSnapFile" by blast
  then show ?thesis
    by (auto simp: snapshot_paths_def under_append memSnapFile_def stateSnapFile_def partialSuffix_def
        dest: under_inj)
qed

lemma object_keys_distinct: "memObjectKey i \<noteq> stateObjectKey i"
proof
  assume "memObjectKey i = stateObjectKey i"
  then have "under (filepath_Join [snapshotsDir, i]) memSnapFile = under (filepath_Join [snapshotsDir, i]) stateSnapFile"
    using Join_app_snoc [of snapshotsDir memSnapFile "[i]"] Join_app_snoc [of snapshotsDir stateSnapFile "[i]"]
    by (simp add: memObjectKey_def stateObjectKey_def plain_names snapshotsDir_def)
  then show False by (auto simp: memSnapFile_def stateSnapFile_def dest: under_inj)
qed

section \<open>S3 as a durable store\<close>

text \<open>The objects of the bucket, by key.\<close>

locale s3_objects = file_system +
  fixes s :: "('w, 'c) s3" and obj :: "'w \<Rightarrow> string \<Rightarrow> 'c option"
  assumes up_ok: "isOk (snd (s3_Upload s w b (s3_bucketName s) k c))
      \<Longrightarrow> obj (fst (s3_Upload s w b (s3_bucketName s) k c)) k = Some c"
    and up_frame: "k' \<noteq> k \<Longrightarrow> obj (fst (s3_Upload s w b (s3_bucketName s) k c)) k' = obj w k'"
    and down_ok: "isOk (snd (s3_Download s w b (s3_bucketName s) k p))
      \<Longrightarrow> \<exists>c. obj w k = Some c \<and> fsv (fst (s3_Download s w b (s3_bucketName s) k p)) p = Some c"
    and down_frame: "q \<noteq> p \<Longrightarrow> fsv (fst (s3_Download s w b (s3_bucketName s) k p)) q = fsv w q"
    and down_obj: "obj (fst (s3_Download s w b (s3_bucketName s) k p)) = obj w"
    and files_obj: "obj (fst (h_MkdirAll h w p m)) = obj w" "obj (fst (h_Close h w p)) = obj w"
      "obj (fst (h_Create h w p m)) = obj w" "obj (fst (h_Remove h w p)) = obj w"
      "obj (fst (h_Rename h w p p')) = obj w"

definition objects_of :: "('w \<Rightarrow> string \<Rightarrow> 'c option) \<Rightarrow> 'w \<Rightarrow> string \<Rightarrow> 'c option \<times> 'c option" where
  "objects_of obj w i = (obj w (memObjectKey i), obj w (stateObjectKey i))"

definition runs ::
  "('w \<Rightarrow> bool \<Rightarrow> 'w \<times> unit result) \<Rightarrow> ('w \<Rightarrow> bool \<Rightarrow> 'w \<times> unit result) \<Rightarrow> 'w \<Rightarrow> 'w \<times> unit result \<Rightarrow> bool" where
  "runs a b w x \<longleftrightarrow> (\<exists>w1 r1 r2. a w False = (w1, r1) \<and> b w1 (\<not> isOk r1) = (fst x, r2)
      \<and> isOk (snd x) = (isOk r1 \<and> isOk r2))"

lemma errgroup_runs: "runs (if swapped then g else f) (if swapped then f else g) w (errgroup swapped f g w)"
  by (cases swapped) (auto simp: runs_def errgroup_def split: prod.split)

lemma errgroup_cases:
  obtains "runs f g w (errgroup swapped f g w)" | "runs g f w (errgroup swapped f g w)"
  using errgroup_runs [of swapped g f w] by (cases swapped) auto

context s3_objects
begin

lemma download:
  assumes "downloadObject s k p w b = (w', r)"
  shows "obj w' = obj w" and "q \<noteq> p \<Longrightarrow> fsv w' q = fsv w q"
    and "isOk r \<Longrightarrow> \<exists>c. obj w k = Some c \<and> fsv w' p = Some c"
  using assms down_obj [of w b k p] down_frame [of q p w b k] down_ok [of w b k p]
  by (auto simp: downloadObject_def onErr_def split: prod.splits sum.splits)

lemma upload:
  assumes "uploadObject s k c w b = (w', r)"
  shows "k' \<noteq> k \<Longrightarrow> obj w' k' = obj w k'" and "isOk r \<Longrightarrow> obj w' k = Some c"
  using assms up_frame [of k' k w b c] up_ok [of w b k c]
  by (auto simp: uploadObject_def onErr_def split: prod.splits sum.splits)

lemma s3_Put_ok:
  assumes "isOk (snd (s3_Put s swapped w i (c, c')))"
  shows "objects_of obj (fst (s3_Put s swapped w i (c, c'))) i = (Some c, Some c')"
proof (cases rule: errgroup_cases [of "uploadObject s (memObjectKey i) c" "uploadObject s (stateObjectKey i) c'" w swapped])
  case 1
  then show ?thesis
    using assms object_keys_distinct [of i] unfolding runs_def s3_Put_def objects_of_def
    by (metis fst_conv snd_conv upload)
next
  case 2
  then show ?thesis
    using assms object_keys_distinct [of i] unfolding runs_def s3_Put_def objects_of_def
    by (metis fst_conv snd_conv upload)
qed

lemma s3_Get_world: "fst (s3_Get s swapped w i pp)
    = fst (errgroup swapped (downloadObject s (memObjectKey i) (fst pp)) (downloadObject s (stateObjectKey i) (snd pp)) w)"
  "isOk (snd (s3_Get s swapped w i pp))
    = isOk (snd (errgroup swapped (downloadObject s (memObjectKey i) (fst pp))
        (downloadObject s (stateObjectKey i) (snd pp)) w))"
  by (simp_all add: s3_Get_def isOk_onErr)

lemma runs_downloads:
  assumes "runs (downloadObject s k p) (downloadObject s k' p') w x"
  shows "obj (fst x) = obj w" and "\<lbrakk> q \<noteq> p; q \<noteq> p' \<rbrakk> \<Longrightarrow> fsv (fst x) q = fsv w q"
    and "\<lbrakk> p \<noteq> p'; isOk (snd x) \<rbrakk> \<Longrightarrow> \<exists>c c'. obj w k = Some c \<and> obj w k' = Some c'
      \<and> fsv (fst x) p = Some c \<and> fsv (fst x) p' = Some c'"
  using assms unfolding runs_def by (metis download)+

lemma s3_Get_facts:
  shows "obj (fst (s3_Get s swapped w i (p, p'))) = obj w"
    and "\<lbrakk> q \<noteq> p; q \<noteq> p' \<rbrakk> \<Longrightarrow> fsv (fst (s3_Get s swapped w i (p, p'))) q = fsv w q"
    and "\<lbrakk> p \<noteq> p'; isOk (snd (s3_Get s swapped w i (p, p'))) \<rbrakk>
      \<Longrightarrow> \<exists>c c'. obj w (memObjectKey i) = Some c \<and> obj w (stateObjectKey i) = Some c'
        \<and> fsv (fst (s3_Get s swapped w i (p, p'))) p = Some c \<and> fsv (fst (s3_Get s swapped w i (p, p'))) p' = Some c'"
  unfolding s3_Get_world fst_conv snd_conv
  by (rule errgroup_cases [of "downloadObject s (memObjectKey i) p" "downloadObject s (stateObjectKey i) p'" w swapped];
      use runs_downloads in metis)+

lemma implements_durable:
  "durable_store h fsv (NewS3DurableStore s swapped) (objects_of obj)"
proof (unfold_locales, goal_cases)
  case (2 p p' w i)
  then show ?case
    using s3_Get_facts(3) [of p p' swapped w i] by (simp add: NewS3DurableStore_def objects_of_def)
next
  case (4 w i c c')
  then show ?case using s3_Put_ok by (simp add: NewS3DurableStore_def)
qed (auto simp: NewS3DurableStore_def s3_Get_facts objects_of_def files_obj fun_eq_iff)

end

section \<open>A host in memory\<close>

text \<open>Files and objects as maps; a new file holds the content \<open>c0\<close>.\<close>

record 'c memfs =
  mf_files :: "string \<Rightarrow> 'c option"
  mf_objs :: "string \<Rightarrow> 'c option"

definition mem_host :: "'c \<Rightarrow> ('c memfs, 'c) host" where
  "mem_host c0 = \<lparr>
    h_Stat = \<lambda>w p. case mf_files w p of None \<Rightarrow> Inl os_ErrNotExist
                   | Some _ \<Rightarrow> Inr \<lparr> fi_Size = 0, fi_IsDir = False, fi_Ino = 0 \<rparr>,
    h_ReadFile = \<lambda>w p. case mf_files w p of None \<Rightarrow> Inl os_ErrNotExist | Some c \<Rightarrow> Inr c,
    h_ReadDir = \<lambda>w p. Inr [],
    h_WriteFile = \<lambda>w p c. (w\<lparr>mf_files := (mf_files w)(p \<mapsto> c)\<rparr>, Inr ()),
    h_Create = \<lambda>w p m. (w\<lparr>mf_files := (mf_files w)(p \<mapsto> c0)\<rparr>, Inr ()),
    h_Close = \<lambda>w p. (w, Inr ()),
    h_MkdirAll = \<lambda>w p m. (w, Inr ()),
    h_Remove = \<lambda>w p. (w\<lparr>mf_files := (mf_files w)(p := None)\<rparr>, Inr ()),
    h_RemoveAll = \<lambda>w p. (w\<lparr>mf_files := \<lambda>q. if HasPrefix q p then None else mf_files w q\<rparr>, Inr ()),
    h_Rename = \<lambda>w p q. case mf_files w p of None \<Rightarrow> (w, Inl os_ErrNotExist)
                   | Some c \<Rightarrow> (w\<lparr>mf_files := (mf_files w)(p := None, q \<mapsto> c)\<rparr>, Inr ()),
    h_Link = \<lambda>w p q. case mf_files w p of None \<Rightarrow> (w, Inl os_ErrNotExist)
                   | Some c \<Rightarrow> (w\<lparr>mf_files := (mf_files w)(q \<mapsto> c)\<rparr>, Inr ()),
    h_Chmod = \<lambda>w p m. (w, Inr ()),
    h_Chown = \<lambda>w p u g. (w, Inr ()),
    h_Exec = \<lambda>w c args. (w, [], None),
    h_Start = \<lambda>w c args. (w, Inr ()),
    h_Wait = \<lambda>w. (w, Inr ()),
    h_Kill = \<lambda>w pid sig. (w, Inl ESRCH),
    h_Tick = \<lambda>w. (w, None) \<rparr>"

definition NoSuchKey :: goerr where
  "NoSuchKey = New ''NoSuchKey''"

definition mem_s3 :: "('c memfs, 'c) s3" where
  "mem_s3 = \<lparr>
    s3_Upload = \<lambda>w b bucket k c. if b then (w, Inl (New ''context canceled''))
      else (w\<lparr>mf_objs := (mf_objs w)(k \<mapsto> c)\<rparr>, Inr ()),
    s3_Download = \<lambda>w b bucket k p. if b then (w, Inl (New ''context canceled''))
      else case mf_objs w k of None \<Rightarrow> (w, Inl NoSuchKey)
           | Some c \<Rightarrow> (w\<lparr>mf_files := (mf_files w)(p \<mapsto> c)\<rparr>, Inr ()),
    s3_isNoSuchKey = \<lambda>e. errors_Is e NoSuchKey,
    s3_isNoSuchBucket = \<lambda>e. False,
    s3_ErrorCode = \<lambda>e. None,
    s3_bucketName = ''snapshots'' \<rparr>"

interpretation msnap: s3_objects "mem_host c0" mf_files mem_s3 mf_objs
  by unfold_locales (auto simp: mem_host_def mem_s3_def split: option.splits if_splits)

interpretation mdur: durable_store "mem_host c0" mf_files "NewS3DurableStore mem_s3 swapped" "objects_of mf_objs"
  by (rule msnap.implements_durable)

section \<open>Properties\<close>

text \<open>C26: whatever a download meets (a directory that cannot be made, a missing or half-read object, an
  error on close, a rename that fails between the two files, either order of the two transfers), the files
  present under the final names of a snapshot are the contents the durable store has for it, so that a
  later \<open>Load\<close> which finds both of them and returns at once returns a complete snapshot; a \<open>Load\<close> that
  succeeds leaves both; and no other file of the host changes.\<close>

theorem Store_Load_intact:
  assumes "s3_objects h fsv s obj" and "chroot \<noteq> []"
    and "ref = localReferenceFor chroot snapshotID"
    and "intact fsv (objects_of obj) ref w"
    and "Store_Load h (NewS3DurableStore s swapped) w chroot snapshotID = (w', r)"
  shows "intact fsv (objects_of obj) ref w'
    \<and> (\<forall>q. q \<notin> set (snapshot_paths ref) \<longrightarrow> fsv w' q = fsv w q)
    \<and> (\<forall>ref'. r = Inr ref' \<longrightarrow> ref' = ref
        \<and> (\<exists>mem state. objects_of obj w snapshotID = (Some mem, Some state)
            \<and> fsv w' (lr_MemFilePath ref) = Some mem \<and> fsv w' (lr_StateFilePath ref) = Some state))"
  using durable_store.Store_Load_outcome [OF s3_objects.implements_durable [OF assms(1)] assms(3) _ assms(4,5)]
    snapshot_paths_distinct [OF assms(2), of snapshotID] assms(3)
  by blast

definition wit_snap :: "string memfs" where
  "wit_snap = \<lparr> mf_files = Map.empty,
     mf_objs = [memObjectKey ''s1'' \<mapsto> ''mem-bytes'', stateObjectKey ''s1'' \<mapsto> ''state-bytes''] \<rparr>"

lemma wit_snap_load:
  "isOk (snd (Store_Load (mem_host []) (NewS3DurableStore mem_s3 True) wit_snap ''/srv/vm'' ''s1''))"
  "\<not> isOk (snd (Store_Load (mem_host []) (NewS3DurableStore mem_s3 True) wit_snap ''/srv/vm'' ''s2''))"
  by code_simp+

lemma wit_snap_intact: "intact mf_files (objects_of mf_objs) ref wit_snap"
  by (simp add: intact_def wit_snap_def)

theorem Store_Load_intact_witness:
  "\<exists>w'. Store_Load (mem_host []) (NewS3DurableStore mem_s3 True) wit_snap ''/srv/vm'' ''s1''
      = (w', Inr (localReferenceFor ''/srv/vm'' ''s1''))
    \<and> mf_files w' (lr_MemFilePath (localReferenceFor ''/srv/vm'' ''s1'')) = Some ''mem-bytes''"
proof -
  obtain w' r where x: "Store_Load (mem_host []) (NewS3DurableStore mem_s3 True) wit_snap ''/srv/vm'' ''s1'' = (w', r)"
    by fastforce
  moreover have "isOk r" using wit_snap_load(1) x by simp
  moreover have "objects_of mf_objs wit_snap ''s1'' = (Some ''mem-bytes'', Some ''state-bytes'')"
    by (simp add: wit_snap_def objects_of_def object_keys_distinct)
  ultimately show ?thesis
    using Store_Load_intact [OF msnap.s3_objects_axioms _ refl wit_snap_intact x] by (cases r) auto
qed

text \<open>C32: a snapshot that was put in the durable store from one VM's directory and is then loaded into
  the directory of another, possibly on another host and after any later activity that leaves its objects
  alone, gives back the very memory and state files that were put.\<close>

theorem snapshot_roundtrip:
  assumes "s3_objects h fsv s obj" and "chroot \<noteq> []"
    and "Store_Put h (NewS3DurableStore s swapped) w0 ref0 = (w1, Inr u)"
    and "objects_of obj w2 (lr_SnapshotID ref0) = objects_of obj w1 (lr_SnapshotID ref0)"
    and "ref = localReferenceFor chroot (lr_SnapshotID ref0)"
    and "intact fsv (objects_of obj) ref w2"
    and "Store_Load h (NewS3DurableStore s swapped') w2 chroot (lr_SnapshotID ref0) = (w3, Inr ref')"
  shows "ref' = ref \<and> fsv w0 (lr_MemFilePath ref0) \<noteq> None
    \<and> fsv w3 (lr_MemFilePath ref) = fsv w0 (lr_MemFilePath ref0)
    \<and> fsv w3 (lr_StateFilePath ref) = fsv w0 (lr_StateFilePath ref0)"
proof -
  note d = s3_objects.implements_durable [OF assms(1)]
  from durable_store.Store_Put_outcome [OF d assms(3)] obtain c c' where
    p: "fsv w0 (lr_MemFilePath ref0) = Some c" "fsv w0 (lr_StateFilePath ref0) = Some c'"
      "objects_of obj w1 (lr_SnapshotID ref0) = (Some c, Some c')" by blast
  have dist: "distinct (snapshot_paths ref)"
    by (simp add: assms(5) snapshot_paths_distinct [OF assms(2)])
  from durable_store.Store_Load_outcome(3) [OF d assms(5) dist assms(6,7) refl] show ?thesis
    using p assms(4) by auto
qed

definition wit_put :: "string memfs" where
  "wit_put = \<lparr> mf_files = [''/srv/vm1/snapshots/s1/mem'' \<mapsto> ''mem-bytes'', ''/srv/vm1/snapshots/s1/state'' \<mapsto> ''state-bytes''],
     mf_objs = Map.empty \<rparr>"

definition wit_put_after :: "string memfs" where
  "wit_put_after =
    fst (Store_Put (mem_host []) (NewS3DurableStore mem_s3 False) wit_put (localReferenceFor ''/srv/vm1'' ''s1''))"

lemma wit_put_run:
  "isOk (snd (Store_Put (mem_host []) (NewS3DurableStore mem_s3 False) wit_put (localReferenceFor ''/srv/vm1'' ''s1'')))"
  "isOk (snd (Store_Load (mem_host []) (NewS3DurableStore mem_s3 True) wit_put_after ''/srv/vm2'' ''s1''))"
  "mf_files wit_put_after (lr_MemFilePath (localReferenceFor ''/srv/vm2'' ''s1'')) = None"
  "mf_files wit_put_after (lr_StateFilePath (localReferenceFor ''/srv/vm2'' ''s1'')) = None"
  "mf_files wit_put (lr_MemFilePath (localReferenceFor ''/srv/vm1'' ''s1'')) = Some ''mem-bytes''"
  by code_simp+

theorem snapshot_roundtrip_witness:
  "\<exists>w'. Store_Load (mem_host []) (NewS3DurableStore mem_s3 True) wit_put_after ''/srv/vm2'' ''s1''
      = (w', Inr (localReferenceFor ''/srv/vm2'' ''s1''))
    \<and> mf_files w' (lr_MemFilePath (localReferenceFor ''/srv/vm2'' ''s1'')) = Some ''mem-bytes''"
proof -
  let ?ref = "localReferenceFor ''/srv/vm1'' ''s1''"
  have i: "lr_SnapshotID ?ref = ''s1''" by (simp add: localReferenceFor_def)
  from okE [OF wit_put_run(1)] obtain u where
    p: "Store_Put (mem_host []) (NewS3DurableStore mem_s3 False) wit_put ?ref = (wit_put_after, Inr u)"
    unfolding wit_put_after_def by (metis fst_conv)
  from okE [OF wit_put_run(2)] obtain w3 r where
    l: "Store_Load (mem_host []) (NewS3DurableStore mem_s3 True) wit_put_after ''/srv/vm2'' (lr_SnapshotID ?ref) = (w3, Inr r)"
    unfolding i by metis
  have t: "intact mf_files (objects_of mf_objs) (localReferenceFor ''/srv/vm2'' (lr_SnapshotID ?ref)) wit_put_after"
    using wit_put_run(3,4) by (simp add: intact_def i)
  show ?thesis
    using snapshot_roundtrip [OF msnap.s3_objects_axioms _ p refl refl t l] l wit_put_run(5) i by simp
qed

end
