(* ===== verification/Allocator.thy ===== *)
theory Allocator
  imports Netip
begin

text \<open>
  The addressing policy of per-VM networks, \<open>daemon/pkg/network/allocator.go\<close>: names,
  addresses and subnets as pure functions of the index. Addresses are computed on the
  wrapping \<open>uint32\<close> form, as in the source. The facts of this theory say that distinct
  valid indexes never share a name, an address or a subnet, and that the whole pool stays
  inside the subnet the host-wide MASQUERADE rule matches.
\<close>

section \<open>Definitions\<close>

definition namespacePrefix :: string where
  "namespacePrefix = ''vm-ns''"

definition tapDeviceName :: string where
  "tapDeviceName = ''vm-tap0''"

definition namespaceVethName :: string where
  "namespaceVethName = ''vm-veth0''"

definition hostVethPrefix :: string where
  "hostVethPrefix = ''host-veth''"

definition vethSubnetBits :: nat where
  "vethSubnetBits = 30"

definition vethSubnetSize :: int where
  "vethSubnetSize = 2 ^ (32 - vethSubnetBits)"

definition tapPrefixBits :: nat where
  "tapPrefixBits = 30"

definition maxIndex :: int where
  "maxIndex = 2 ^ 16 div vethSubnetSize"

definition vethBaseNetwork :: Addr where
  "vethBaseNetwork = AddrFrom4 [10, 0, 0, 0]"

definition VMSubnet :: Prefix where
  "VMSubnet = PrefixFrom vethBaseNetwork 16"

definition GuestSubnet :: Prefix where
  "GuestSubnet = PrefixFrom (AddrFrom4 [172, 16, 0, 0]) (int tapPrefixBits)"

definition tapIP :: Addr where
  "tapIP = AddrFrom4 [172, 16, 0, 1]"

definition guestIP :: Addr where
  "guestIP = AddrFrom4 [172, 16, 0, 2]"

definition validateIndex :: "int \<Rightarrow> unit result" where
  "validateIndex index =
    (if index < 0 \<or> maxIndex \<le> index
     then Inl (New (''network index '' @ fmt_d index @ '' out of range [0,'' @ fmt_d maxIndex @ '')''))
     else Inr ())"

definition namespaceName :: "int \<Rightarrow> string" where
  "namespaceName index = namespacePrefix @ fmt_d index"

definition hostVethName :: "int \<Rightarrow> string" where
  "hostVethName index = hostVethPrefix @ fmt_d index"

definition vethSubnetFor :: "int \<Rightarrow> Addr \<times> Addr \<times> Prefix" where
  "vethSubnetFor index =
    (let base = Uint32 (As4 vethBaseNetwork);
         network = base + word_of_int index * word_of_int vethSubnetSize;
         netB = PutUint32 network; hostB = PutUint32 (network + 1); nsB = PutUint32 (network + 2)
     in (AddrFrom4 hostB, AddrFrom4 nsB, PrefixFrom (AddrFrom4 netB) (int vethSubnetBits)))"

record NamespaceHandle =
  nsh_Index :: int
  nsh_NamespaceName :: string
  nsh_TapDeviceName :: string
  nsh_TapIP :: Addr
  nsh_GuestIP :: Addr
  nsh_HostVethName :: string
  nsh_HostVethIP :: Addr
  nsh_NamespaceVethIP :: Addr

definition buildHandle :: "int \<Rightarrow> NamespaceHandle" where
  "buildHandle index =
    (let (hostIP, nsIP, _) = vethSubnetFor index in
     \<lparr> nsh_Index = index, nsh_NamespaceName = namespaceName index,
       nsh_TapDeviceName = tapDeviceName, nsh_TapIP = tapIP, nsh_GuestIP = guestIP,
       nsh_HostVethName = hostVethName index, nsh_HostVethIP = hostIP,
       nsh_NamespaceVethIP = nsIP \<rparr>)"

definition NamespaceVethIPFor :: "int \<Rightarrow> Addr result" where
  "NamespaceVethIPFor index =
    (case validateIndex index of
       Inl err \<Rightarrow> Inl err
     | Inr _ \<Rightarrow> (let (_, nsIP, _) = vethSubnetFor index in Inr nsIP))"

section \<open>Names\<close>

lemma namespaceName_inj [simp]: "namespaceName i = namespaceName j \<longleftrightarrow> i = j"
  by (simp add: namespaceName_def)

lemma hostVethName_inj [simp]: "hostVethName i = hostVethName j \<longleftrightarrow> i = j"
  by (simp add: hostVethName_def)

lemma validateIndex_ok: "isOk (validateIndex i) \<longleftrightarrow> 0 \<le> i \<and> i < 16384"
  by (auto simp: validateIndex_def maxIndex_def vethSubnetSize_def vethSubnetBits_def)

section \<open>Addresses\<close>

text \<open>The network word of an index: 10.0.0.0 plus four addresses per index.\<close>

definition netword :: "int \<Rightarrow> 32 word" where
  "netword i = 0x0A000000 + word_of_int i * 4"

lemma vethBaseNetwork_eq: "vethBaseNetwork = Addr4 0x0A000000"
  by (simp add: vethBaseNetwork_def AddrFrom4_def Uint32_def)

lemma vethSubnetFor_eq:
  "vethSubnetFor i = (Addr4 (netword i + 1), Addr4 (netword i + 2),
                      PrefixFrom (Addr4 (netword i)) 30)"
  by (simp add: vethSubnetFor_def vethBaseNetwork_eq As4_def netword_def
      vethSubnetSize_def vethSubnetBits_def Let_def)

lemma uint_netword_add:
  assumes "0 \<le> i" "i < 16384" "0 \<le> k" "k < 4"
  shows "uint (netword i + word_of_int k) = 167772160 + 4 * i + k"
  using assms by (simp add: netword_def uint_word_ariths word_of_int_inverse take_bit_eq_mod)

lemma drop_bit_eq_uint: "drop_bit n v = drop_bit n (w :: 32 word) \<longleftrightarrow> uint v div 2 ^ n = uint w div 2 ^ n"
  unfolding word_uint_eq_iff unsigned_drop_bit_eq by (simp add: drop_bit_eq_div bintr_uint)

lemma veth_prefix_iff:
  assumes "0 \<le> i" "i < 16384"
  shows "PrefixContains (snd (snd (vethSubnetFor i))) (Addr4 w) \<longleftrightarrow> uint w div 4 = 41943040 + i"
proof -
  have "uint (netword i) = 167772160 + 4 * i"
    using uint_netword_add [OF assms, of 0] by simp
  then have "uint (netword i) div 4 = 41943040 + i" by simp
  then show ?thesis
    using PrefixContains4 [of "netword i" 30 w]
    by (simp add: vethSubnetFor_eq drop_bit_eq_uint)
qed

lemma VMSubnet_iff:
  "PrefixContains VMSubnet (Addr4 w) \<longleftrightarrow> 167772160 \<le> uint w \<and> uint w < 167772160 + 65536"
proof -
  have "PrefixContains VMSubnet (Addr4 w) \<longleftrightarrow> uint w div 65536 = 2560"
    using PrefixContains4 [of "0x0A000000" 16 w]
    unfolding drop_bit_eq_uint by (simp add: VMSubnet_def vethBaseNetwork_eq)
  also have "\<dots> \<longleftrightarrow> 167772160 \<le> uint w \<and> uint w < 167772160 + 65536"
    by (simp add: div_eq_iff_bounds)
  finally show ?thesis .
qed

lemma PrefixContains_v4: "PrefixContains (PrefixFrom (Addr4 n) b) a \<Longrightarrow> \<exists>w. a = Addr4 w"
  by (cases a) (simp_all add: PrefixContains_def)

lemma veth_prefix_v4: "PrefixContains (snd (snd (vethSubnetFor i))) a \<Longrightarrow> \<exists>w. a = Addr4 w"
  by (auto simp: vethSubnetFor_eq dest: PrefixContains_v4)

lemma netword_host: "0 \<le> i \<Longrightarrow> i < 16384 \<Longrightarrow> uint (netword i + 1) = 167772160 + 4 * i + 1"
  using uint_netword_add [of i 1] by simp

lemma netword_ns: "0 \<le> i \<Longrightarrow> i < 16384 \<Longrightarrow> uint (netword i + 2) = 167772160 + 4 * i + 2"
  using uint_netword_add [of i 2] by simp

lemma nsIP_inj:
  assumes "0 \<le> i" "i < 16384" "0 \<le> j" "j < 16384"
  shows "nsh_NamespaceVethIP (buildHandle i) = nsh_NamespaceVethIP (buildHandle j) \<longleftrightarrow> i = j"
proof
  assume "nsh_NamespaceVethIP (buildHandle i) = nsh_NamespaceVethIP (buildHandle j)"
  then have "netword i + 2 = netword j + 2"
    by (simp add: buildHandle_def vethSubnetFor_eq)
  then have "uint (netword i + 2) = uint (netword j + 2)" by (rule arg_cong)
  then show "i = j" using assms by (simp add: netword_ns)
qed simp

section \<open>Properties\<close>

text \<open>C11: two distinct valid indexes never collide. Their namespace and host interface names
  differ, and their /30 veth subnets share no address, so no host-side or namespace-side
  address of one VM can be routed to another.\<close>

theorem alloc_isolated:
  assumes "isOk (validateIndex i)" "isOk (validateIndex j)" "i \<noteq> j"
  shows "nsh_NamespaceName (buildHandle i) \<noteq> nsh_NamespaceName (buildHandle j)
       \<and> nsh_HostVethName (buildHandle i) \<noteq> nsh_HostVethName (buildHandle j)
       \<and> (\<forall>a. \<not> (PrefixContains (snd (snd (vethSubnetFor i))) a
                 \<and> PrefixContains (snd (snd (vethSubnetFor j))) a))"
proof -
  from assms have v: "0 \<le> i" "i < 16384" "0 \<le> j" "j < 16384"
    by (simp_all add: validateIndex_ok)
  have "\<not> (PrefixContains (snd (snd (vethSubnetFor i))) a
          \<and> PrefixContains (snd (snd (vethSubnetFor j))) a)" for a
    using veth_prefix_v4 [of i a] veth_prefix_iff v \<open>i \<noteq> j\<close> by auto
  then show ?thesis
    using \<open>i \<noteq> j\<close> by (simp add: buildHandle_def vethSubnetFor_eq)
qed

theorem alloc_isolated_witness:
  "isOk (validateIndex 63) \<and> isOk (validateIndex 64) \<and>
   nsh_NamespaceName (buildHandle 63) \<noteq> nsh_NamespaceName (buildHandle 64)"
  using alloc_isolated [of 63 64] by (simp add: validateIndex_ok)

text \<open>The addresses handed out for a valid index are the two usable addresses of its
  /30, and every address of that /30 lies in the pool \<open>VMSubnet\<close> the host-wide MASQUERADE
  rule matches on.\<close>

theorem alloc_in_pool:
  assumes "isOk (validateIndex i)"
  shows "PrefixContains (snd (snd (vethSubnetFor i))) (nsh_HostVethIP (buildHandle i))
       \<and> PrefixContains (snd (snd (vethSubnetFor i))) (nsh_NamespaceVethIP (buildHandle i))
       \<and> nsh_HostVethIP (buildHandle i) \<noteq> nsh_NamespaceVethIP (buildHandle i)
       \<and> (\<forall>a. PrefixContains (snd (snd (vethSubnetFor i))) a \<longrightarrow> PrefixContains VMSubnet a)"
proof -
  from assms have v: "0 \<le> i" "i < 16384" by (simp_all add: validateIndex_ok)
  have pool: "PrefixContains VMSubnet a" if "PrefixContains (snd (snd (vethSubnetFor i))) a" for a
  proof -
    from veth_prefix_v4 [OF that] obtain w where a: "a = Addr4 w" ..
    with that v have "uint w div 4 = 41943040 + i" by (simp add: veth_prefix_iff)
    then have "167772160 \<le> uint w \<and> uint w < 167772160 + 65536"
      using v by (auto simp: div_eq_iff_bounds)
    then show ?thesis by (simp add: a VMSubnet_iff)
  qed
  have "uint (netword i + 1) div 4 = 41943040 + i" "uint (netword i + 2) div 4 = 41943040 + i"
    unfolding netword_host [OF v] netword_ns [OF v] by (simp_all add: div_eq_iff_bounds)
  moreover have "netword i + 1 \<noteq> netword i + 2" by simp
  moreover have hd: "nsh_HostVethIP (buildHandle i) = Addr4 (netword i + 1)"
    "nsh_NamespaceVethIP (buildHandle i) = Addr4 (netword i + 2)"
    by (simp_all add: buildHandle_def vethSubnetFor_eq)
  ultimately show ?thesis
    using pool unfolding hd by (simp add: veth_prefix_iff [OF v])
qed

theorem alloc_in_pool_witness:
  "isOk (validateIndex 16383) \<and>
   PrefixContains (snd (snd (vethSubnetFor 16383))) (nsh_NamespaceVethIP (buildHandle 16383))"
  using alloc_in_pool [of 16383] by (simp add: validateIndex_ok)

text \<open>The key under which a sandbox's DNS policy is removed is the key under which it
  was registered, and no two indexes share a key: \<open>NamespaceVethIPFor\<close> fails exactly on an
  out-of-range index, otherwise returns the namespace address of the handle, and is
  injective.\<close>

theorem NamespaceVethIPFor_key:
  "NamespaceVethIPFor i = (if 0 \<le> i \<and> i < 16384 then Inr (nsh_NamespaceVethIP (buildHandle i))
     else Inl (New (''network index '' @ fmt_d i @ '' out of range [0,16384)'')))
   \<and> (isOk (NamespaceVethIPFor i) \<and> NamespaceVethIPFor i = NamespaceVethIPFor j \<longrightarrow> i = j)"
proof -
  have "fmt_d 16384 = ''16384''"
    by (simp add: fmt_d_def dec_nat.simps)
  then have eq: "NamespaceVethIPFor i =
      (if 0 \<le> i \<and> i < 16384 then Inr (nsh_NamespaceVethIP (buildHandle i))
       else Inl (New (''network index '' @ fmt_d i @ '' out of range [0,16384)'')))" for i
    by (auto simp: NamespaceVethIPFor_def validateIndex_def maxIndex_def vethSubnetSize_def
        vethSubnetBits_def buildHandle_def vethSubnetFor_eq)
  show ?thesis
    unfolding eq by (auto simp: nsIP_inj split: if_splits)
qed

theorem NamespaceVethIPFor_key_witness:
  "isOk (NamespaceVethIPFor 7) \<and> \<not> isOk (NamespaceVethIPFor 16384)"
  using NamespaceVethIPFor_key [of 7 7] NamespaceVethIPFor_key [of 16384 7] by simp

end
