(* ===== verification/Firecracker.thy ===== *)
theory Firecracker
  imports Snapshot_Store Allocator "HOL-Library.AList"
begin

text \<open>
  The microVM provider, \<open>daemon/pkg/firecracker\<close> (\<open>impl.go\<close>, \<open>disk.go\<close>, \<open>types.go\<close>, \<open>options.go\<close>): one
  jailed firecracker process per VM, an index of the VMs that live, and a directory per VM that a
  restarted daemon attaches to again. The host is the record of theory \<open>Host\<close>; the firecracker API
  client and the vsock transport are the record \<open>fcapi\<close>. The mutex of the index guards single reads and
  writes of it, so the index is the first component of the state of an operation.
\<close>

section \<open>types.go, options.go\<close>

definition ErrVMNotFound :: goerr where
  "ErrVMNotFound = New ''microvm not found''"

record Options =
  op_FirecrackerPath :: string
  op_JailerPath :: string
  op_JailUID :: nat
  op_JailGID :: nat
  op_ChrootBaseDir :: string
  op_AttachConsole :: bool

definition WithFirecrackerPath :: "string \<Rightarrow> Options \<Rightarrow> Options" where
  "WithFirecrackerPath path opts = opts\<lparr>op_FirecrackerPath := path\<rparr>"

definition WithJailerPath :: "string \<Rightarrow> Options \<Rightarrow> Options" where
  "WithJailerPath path opts = opts\<lparr>op_JailerPath := path\<rparr>"

definition WithJailUID :: "nat \<Rightarrow> Options \<Rightarrow> Options" where
  "WithJailUID uid opts = opts\<lparr>op_JailUID := uid\<rparr>"

definition WithJailGID :: "nat \<Rightarrow> Options \<Rightarrow> Options" where
  "WithJailGID gid opts = opts\<lparr>op_JailGID := gid\<rparr>"

definition WithChrootBaseDir :: "string \<Rightarrow> Options \<Rightarrow> Options" where
  "WithChrootBaseDir dir opts = opts\<lparr>op_ChrootBaseDir := dir\<rparr>"

definition WithAttachConsole :: "bool \<Rightarrow> Options \<Rightarrow> Options" where
  "WithAttachConsole attach opts = opts\<lparr>op_AttachConsole := attach\<rparr>"

definition defaultChrootBaseDir :: string where
  "defaultChrootBaseDir = ''/srv/jailer''"

definition New_firecracker :: "(Options \<Rightarrow> Options) list \<Rightarrow> Options result" where
  "New_firecracker opts =
    (let options = fold (\<lambda>opt o'. opt o') opts
           \<lparr> op_FirecrackerPath = [], op_JailerPath = [], op_JailUID = 0, op_JailGID = 0,
             op_ChrootBaseDir = defaultChrootBaseDir, op_AttachConsole = False \<rparr>
     in if op_FirecrackerPath options = []
        then Inl (New ''firecracker path is required (use WithFirecrackerPath)'')
        else if op_JailerPath options = []
        then Inl (New ''jailer path is required (use WithJailerPath)'')
        else Inr options)"

record Asset =
  as_SourcePath :: string
  as_JailPath :: string
  as_Writable :: bool

record BootSource =
  bs_KernelImagePath :: string
  bs_BootArgs :: string

record Drive =
  dv_DriveID :: string
  dv_PathOnHost :: string
  dv_IsRootDevice :: "bool option"
  dv_IsReadOnly :: bool

record MachineConfiguration =
  mc_VcpuCount :: "int64 option"
  mc_MemSizeMib :: "int64 option"

record NetworkInterface =
  ni_IfaceID :: string
  ni_HostDevName :: string
  ni_GuestMac :: string

record Vsock =
  vs_GuestCid :: int64
  vs_UdsPath :: "string option"

record Logger =
  lg_LogPath :: string
  lg_Level :: string

record Config =
  cf_BootSource :: "BootSource option"
  cf_Drives :: "Drive option list"
  cf_MachineConfig :: "MachineConfiguration option"
  cf_NetworkInterfaces :: "NetworkInterface list"
  cf_Vsock :: "Vsock option"
  cf_Logger :: "Logger option"

definition zeroConfig :: Config where
  "zeroConfig = \<lparr> cf_BootSource = None, cf_Drives = [], cf_MachineConfig = None,
     cf_NetworkInterfaces = [], cf_Vsock = None, cf_Logger = None \<rparr>"

record CreateMicroVMInput =
  ci_ID :: string
  ci_Network :: NamespaceHandle
  ci_Config :: "Config option"
  ci_Assets :: "Asset list"
  ci_AgentVsockPort :: nat
  ci_RootfsDiskMiB :: int64

record LoadSnapshotInput =
  li_ID :: string
  li_Network :: NamespaceHandle
  li_Assets :: "Asset list"
  li_AgentVsockPort :: nat
  li_LocalReference :: "LocalReference option"
  li_VsockUDSPath :: string

record MicroVMInfo =
  mi_State :: string
  mi_VCPUCount :: int64
  mi_MemoryMiB :: int64

section \<open>impl.go: state\<close>

record vmMeta =
  me_PID :: int
  me_AgentVsockPort :: nat
  me_NetworkIndex :: int

text \<open>What the files of a VM hold: the two JSON documents, or bytes that are neither.\<close>

datatype fcontent = CConfig "Config option" | CMeta vmMeta | CBytes string

text \<open>\<open>json.Unmarshal\<close>: a document without the fields of the target leaves them zero.\<close>

fun decode_meta :: "fcontent \<Rightarrow> vmMeta result" where
  "decode_meta (CMeta m) = Inr m"
| "decode_meta (CConfig _) = Inr \<lparr> me_PID = 0, me_AgentVsockPort = 0, me_NetworkIndex = 0 \<rparr>"
| "decode_meta (CBytes _) = Inl (New ''invalid character'')"

fun decode_config :: "fcontent \<Rightarrow> Config result" where
  "decode_config (CConfig c) = Inr (case c of None \<Rightarrow> zeroConfig | Some c' \<Rightarrow> c')"
| "decode_config (CMeta _) = Inr zeroConfig"
| "decode_config (CBytes _) = Inl (New ''invalid character'')"

text \<open>The firecracker API behind a socket, the vsock transport, and uuid. \<open>api_Describe\<close> answers with the
  instance state, \<open>None\<close> when the payload has none.\<close>

record 'w fcapi =
  api_Describe :: "'w \<Rightarrow> string \<Rightarrow> string option result"
  api_MachineConfiguration :: "'w \<Rightarrow> string \<Rightarrow> MachineConfiguration option result"
  api_PatchVM :: "'w \<Rightarrow> string \<Rightarrow> string \<Rightarrow> 'w \<times> unit result"
  api_CreateSnapshot :: "'w \<Rightarrow> string \<Rightarrow> string \<Rightarrow> string \<Rightarrow> 'w \<times> unit result"
  api_LoadSnapshot :: "'w \<Rightarrow> string \<Rightarrow> string \<Rightarrow> string \<Rightarrow> bool \<Rightarrow> 'w \<times> unit result"
  tr_New :: "'w \<Rightarrow> string \<Rightarrow> nat \<Rightarrow> 'w \<times> nat result"
  tr_Close :: "'w \<Rightarrow> nat \<Rightarrow> 'w"
  newUUID :: "'w \<Rightarrow> 'w \<times> string"

record 'w firecracker =
  f_options :: Options
  f_host :: "('w, fcontent) host"
  f_api :: "'w fcapi"

text \<open>The client of a VM is named by its socket, a transport by its handle.\<close>

record firecrackerVM =
  fv_client :: string
  fv_vmDir :: string
  fv_jailRoot :: string
  fv_id :: string
  fv_pid :: int
  fv_networkIndex :: int
  fv_jailUID :: nat
  fv_jailGID :: nat
  fv_vsockUDS :: string
  fv_vsockPort :: nat
  fv_vsock :: "nat option"

type_synonym vms = "(string \<times> firecrackerVM) list"

definition vmConfigFile :: string where "vmConfigFile = ''vm_config.json''"
definition apiSocketFile :: string where "apiSocketFile = ''firecracker.sock''"
definition jailRootSubDir :: string where "jailRootSubDir = ''root''"
definition vmMetaFile :: string where "vmMetaFile = ''meta.json''"

text \<open>\<open>vmIDPattern\<close>.\<close>

definition id_char :: "char \<Rightarrow> bool" where
  "id_char c = (let n = of_char c :: nat in
     (97 \<le> n \<and> n \<le> 122) \<or> (65 \<le> n \<and> n \<le> 90) \<or> (48 \<le> n \<and> n \<le> 57) \<or> c = CHR ''_'' \<or> c = CHR ''-'')"

definition vmIDPattern :: "string \<Rightarrow> bool" where
  "vmIDPattern i = (list_all id_char i \<and> 1 \<le> length i \<and> length i \<le> 64)"

definition errBadID :: "string \<Rightarrow> goerr" where
  "errBadID i = New (''invalid vm id '' @ quote i @ '': must match ^[a-zA-Z0-9_-]{1,64}$'')"

section \<open>impl.go: paths and files\<close>

definition execName :: "'w firecracker \<Rightarrow> string" where
  "execName f = filepath_Base (op_FirecrackerPath (f_options f))"

definition vmDir :: "'w firecracker \<Rightarrow> string \<Rightarrow> string" where
  "vmDir f i = filepath_Join [op_ChrootBaseDir (f_options f), execName f, i]"

definition jailRoot :: "'w firecracker \<Rightarrow> string \<Rightarrow> string" where
  "jailRoot f i = filepath_Join [vmDir f i, jailRootSubDir]"

definition pidFilePath :: "'w firecracker \<Rightarrow> string \<Rightarrow> string" where
  "pidFilePath f i = filepath_Join [jailRoot f i, execName f @ ''.pid'']"

definition metaFilePath :: "'w firecracker \<Rightarrow> string \<Rightarrow> string" where
  "metaFilePath f i = filepath_Join [vmDir f i, vmMetaFile]"

text \<open>Open for writing, truncated, and encode.\<close>

definition writeJSON :: "('w, fcontent) host \<Rightarrow> 'w \<Rightarrow> string \<Rightarrow> fcontent \<Rightarrow> 'w \<times> unit result" where
  "writeJSON h w path v = bindr (h_Create h w path 384) (\<lambda>w _. h_WriteFile h w path v)"

definition writeMeta :: "'w firecracker \<Rightarrow> 'w \<Rightarrow> string \<Rightarrow> vmMeta \<Rightarrow> 'w \<times> unit result" where
  "writeMeta f w i meta =
    bindr (h_Create (f_host f) w (metaFilePath f i) 384) (\<lambda>w _.
      h_WriteFile (f_host f) w (metaFilePath f i) (CMeta meta))"

definition readMeta :: "'w firecracker \<Rightarrow> 'w \<Rightarrow> string \<Rightarrow> vmMeta result" where
  "readMeta f w i =
    (case h_ReadFile (f_host f) w (metaFilePath f i) of
       Inl err \<Rightarrow> Inl err
     | Inr data \<Rightarrow> (case decode_meta data of
         Inl err \<Rightarrow> Inl (wrapf ''decode meta.json'' err)
       | Inr meta \<Rightarrow> Inr meta))"

definition readPIDFile :: "('w, fcontent) host \<Rightarrow> 'w \<Rightarrow> string \<Rightarrow> int result" where
  "readPIDFile h w path =
    (case h_ReadFile h w path of
       Inl err \<Rightarrow> Inl err
     | Inr (CBytes data) \<Rightarrow> ParseInt (TrimSpace data)
     | Inr _ \<Rightarrow> Inl ErrSyntax)"

definition resolveVsockUDS :: "string \<Rightarrow> string \<Rightarrow> string" where
  "resolveVsockUDS jail udsChrootPath =
    (if udsChrootPath = [] then [] else filepath_Join [jail, TrimPrefix udsChrootPath ''/''])"

definition vsockEndpoint :: "string \<Rightarrow> CreateMicroVMInput \<Rightarrow> string \<times> nat" where
  "vsockEndpoint jail input =
    (case ci_Config input of None \<Rightarrow> ([], 0) | Some cfg \<Rightarrow>
    (case cf_Vsock cfg of None \<Rightarrow> ([], 0) | Some v \<Rightarrow>
    (case vs_UdsPath v of None \<Rightarrow> ([], 0) | Some p \<Rightarrow>
      (resolveVsockUDS jail p, ci_AgentVsockPort input))))"

definition readVsockUDSPath :: "('w, fcontent) host \<Rightarrow> 'w \<Rightarrow> string \<Rightarrow> string \<Rightarrow> string result" where
  "readVsockUDSPath h w configPath jail =
    (case h_ReadFile h w configPath of
       Inl err \<Rightarrow> Inl err
     | Inr data \<Rightarrow>
    (case decode_config data of
       Inl err \<Rightarrow> Inl err
     | Inr cfg \<Rightarrow>
    (case cf_Vsock cfg of None \<Rightarrow> Inr [] | Some v \<Rightarrow>
    (case vs_UdsPath v of None \<Rightarrow> Inr [] | Some p \<Rightarrow>
      Inr (filepath_Join [jail, TrimPrefix p ''/''])))))"

definition copyFile :: "('w, fcontent) host \<Rightarrow> 'w \<Rightarrow> string \<Rightarrow> string \<Rightarrow> 'w \<times> unit result" where
  "copyFile h w src dst =
    (case h_ReadFile h w src of
       Inl err \<Rightarrow> (w, Inl err)
     | Inr data \<Rightarrow> bindr (h_Create h w dst 420) (\<lambda>w _. h_WriteFile h w dst data))"

definition sameFile :: "('w, fcontent) host \<Rightarrow> 'w \<Rightarrow> string \<Rightarrow> string \<Rightarrow> bool" where
  "sameFile h w a b =
    (case h_Stat h w a of Inl _ \<Rightarrow> False | Inr sa \<Rightarrow>
    (case h_Stat h w b of Inl _ \<Rightarrow> False | Inr sb \<Rightarrow> fi_Ino sa = fi_Ino sb))"

section \<open>disk.go\<close>

text \<open>Run a command and report its output with its error.\<close>

definition runTool :: "('w, fcontent) host \<Rightarrow> 'w \<Rightarrow> string \<Rightarrow> string list \<Rightarrow> string \<Rightarrow> 'w \<times> unit result" where
  "runTool h w cmd args what =
    (case h_Exec h w cmd args of
       (w', out, Some err) \<Rightarrow> (w', Inl (Wrap (what @ '': '') err ('' (output: '' @ TrimSpace out @ '')'')))
     | (w', out, None) \<Rightarrow> (w', Inr ()))"

definition digHoles :: "('w, fcontent) host \<Rightarrow> 'w \<Rightarrow> string \<Rightarrow> 'w \<times> unit result" where
  "digHoles h w path = runTool h w ''fallocate'' [''--dig-holes'', path] (''fallocate --dig-holes '' @ path)"

definition resizeRootfs :: "('w, fcontent) host \<Rightarrow> 'w \<Rightarrow> string \<Rightarrow> int64 \<Rightarrow> 'w \<times> unit result" where
  "resizeRootfs h w path sizeMiB =
    (if sizeMiB \<le> 0 then (w, Inr ())
     else case h_Stat h w path of
       Inl err \<Rightarrow> (w, Inl (wrapf (''stat '' @ path) err))
     | Inr fi \<Rightarrow>
       (let target = wrap64 (wrap64 (sizeMiB * 1024) * 1024) in
        if target < fi_Size fi
        then (w, Inl (New (''refusing to shrink '' @ path @ '' from '' @ fmt_d (fi_Size fi div (1024 * 1024))
                       @ '' MiB to '' @ fmt_d sizeMiB @ '' MiB'')))
        else if fi_Size fi = target then (w, Inr ())
        else bindr (runTool h w ''truncate'' [''-s'', fmt_d sizeMiB @ ''M'', path]
               (''truncate '' @ path @ '' to '' @ fmt_d sizeMiB @ '' MiB'')) (\<lambda>w _.
             runTool h w ''resize2fs'' [''-f'', path] (''resize2fs '' @ path))))"

text \<open>The first drive that is the root device and has a path is resized.\<close>

definition isRootDrive :: "Drive option \<Rightarrow> bool" where
  "isRootDrive d = (case d of None \<Rightarrow> False
     | Some dv \<Rightarrow> dv_IsRootDevice dv = Some True \<and> dv_PathOnHost dv \<noteq> [])"

definition resizeRootfsForInput ::
  "('w, fcontent) host \<Rightarrow> 'w \<Rightarrow> string \<Rightarrow> CreateMicroVMInput \<Rightarrow> 'w \<times> unit result" where
  "resizeRootfsForInput h w jail input =
    (if ci_RootfsDiskMiB input \<le> 0 then (w, Inr ())
     else case ci_Config input of None \<Rightarrow> (w, Inr ()) | Some cfg \<Rightarrow>
       (case find isRootDrive (cf_Drives cfg) of
          Some (Some dv) \<Rightarrow> resizeRootfs h w (jail @ ''/'' @ TrimPrefix (dv_PathOnHost dv) ''/'')
                              (ci_RootfsDiskMiB input)
        | _ \<Rightarrow> (w, Inr ())))"

section \<open>impl.go: staging\<close>

definition stageAsset :: "('w, fcontent) host \<Rightarrow> 'w \<Rightarrow> string \<Rightarrow> Asset \<Rightarrow> 'w \<times> unit result" where
  "stageAsset h w jail a =
    (let dst = filepath_Join [jail, TrimPrefix (as_JailPath a) ''/''] in
     bindr (h_MkdirAll h w (filepath_Dir dst) 493) (\<lambda>w _.
     (let w = fst (h_Remove h w dst) in
      bindr (if as_Writable a then
               bindr (copyFile h w (as_SourcePath a) dst) (\<lambda>w _.
                 onErr (wrapf (''dig holes in '' @ dst)) (digHoles h w dst))
             else case h_Link h w (as_SourcePath a) dst of
               (w', Inr _) \<Rightarrow> (w', Inr ())
             | (w', Inl err) \<Rightarrow> if \<not> errors_Is err EXDEV then (w', Inl err)
                                else copyFile h w' (as_SourcePath a) dst) (\<lambda>w _.
      h_Chmod h w dst (if as_Writable a then 438 else 420)))))"

fun stageAssets :: "('w, fcontent) host \<Rightarrow> string \<Rightarrow> Asset list \<Rightarrow> 'w \<Rightarrow> 'w \<times> unit result" where
  "stageAssets h jail [] w = (w, Inr ())"
| "stageAssets h jail (a # as) w =
    bindr (onErr (wrapf (''stage asset '' @ quote (as_SourcePath a))) (stageAsset h w jail a))
      (\<lambda>w _. stageAssets h jail as w)"

fun stagePairs :: "('w, fcontent) host \<Rightarrow> string \<Rightarrow> (string \<times> string) list \<Rightarrow> 'w \<Rightarrow> 'w \<times> unit result" where
  "stagePairs h jail [] w = (w, Inr ())"
| "stagePairs h jail ((src, j) # ps) w =
    (if sameFile h w src (filepath_Join [jail, TrimPrefix j ''/'']) then stagePairs h jail ps w
     else bindr (stageAsset h w jail \<lparr> as_SourcePath = src, as_JailPath = j, as_Writable = False \<rparr>)
       (\<lambda>w _. stagePairs h jail ps w))"

definition stageSnapshotFiles ::
  "('w, fcontent) host \<Rightarrow> 'w \<Rightarrow> string \<Rightarrow> LocalReference \<Rightarrow> 'w \<times> unit result" where
  "stageSnapshotFiles h w jail ref =
    (let snapshotChrootDir = filepath_Dir (TrimPrefix (MemFilePath (lr_SnapshotID ref)) ''/'') in
     bindr (h_MkdirAll h w (filepath_Join [jail, snapshotChrootDir]) DirMode) (\<lambda>w _.
       stagePairs h jail [(lr_MemFilePath ref, MemFilePath (lr_SnapshotID ref)),
                          (lr_StateFilePath ref, StateFilePath (lr_SnapshotID ref))] w))"

section \<open>impl.go: waiting\<close>

text \<open>A context with a timeout, and a ticker: the loop sees at most \<open>timeout / interval\<close> ticks before the
  context is done, which is the number each waiter is called with.\<close>

definition DeadlineExceeded :: goerr where
  "DeadlineExceeded = New ''context deadline exceeded''"

definition select_tick :: "('w, 'c) host \<Rightarrow> nat \<Rightarrow> 'w \<Rightarrow> 'w \<times> goerr option" where
  "select_tick h n w = (if n = 0 then (w, Some DeadlineExceeded) else h_Tick h w)"

fun waitForInstance ::
  "'w firecracker \<Rightarrow> string \<Rightarrow> (string option \<Rightarrow> bool) \<Rightarrow> nat \<Rightarrow> 'w \<Rightarrow> 'w \<times> unit result" where
  "waitForInstance f c ready n w =
    (let resp = api_Describe (f_api f) w c in
     if (case resp of Inr st \<Rightarrow> ready st | Inl _ \<Rightarrow> False) then (w, Inr ())
     else case select_tick (f_host f) n w of
       (w', Some ctxErr) \<Rightarrow>
         (w', Inl (case resp of Inl err \<Rightarrow> Wrap (Error ctxErr @ [CHR 0x0A]) err [] | Inr _ \<Rightarrow> ctxErr))
     | (w', None) \<Rightarrow> (case n of 0 \<Rightarrow> (w', Inl DeadlineExceeded)
                      | Suc m \<Rightarrow> waitForInstance f c ready m w'))"

declare waitForInstance.simps [simp del]

definition readyTicks :: nat where "readyTicks = 500"
definition agentTicks :: nat where "agentTicks = 300"

definition InstanceInfoStateRunning :: string where "InstanceInfoStateRunning = ''Running''"
definition InstanceInfoStatePaused :: string where "InstanceInfoStatePaused = ''Paused''"
definition VMStatePaused :: string where "VMStatePaused = ''Paused''"
definition VMStateResumed :: string where "VMStateResumed = ''Resumed''"

definition waitUntilRunning :: "'w firecracker \<Rightarrow> string \<Rightarrow> 'w \<Rightarrow> 'w \<times> unit result" where
  "waitUntilRunning f c w = waitForInstance f c (\<lambda>st. st = Some InstanceInfoStateRunning) readyTicks w"

definition waitUntilAPIReady :: "'w firecracker \<Rightarrow> string \<Rightarrow> 'w \<Rightarrow> 'w \<times> unit result" where
  "waitUntilAPIReady f c w = waitForInstance f c (\<lambda>_. True) readyTicks w"

fun agentLoop :: "'w firecracker \<Rightarrow> string \<Rightarrow> nat \<Rightarrow> nat \<Rightarrow> 'w \<Rightarrow> 'w \<times> unit result" where
  "agentLoop f udsPath agentPort n w =
    (case tr_New (f_api f) w udsPath agentPort of
       (w1, Inr tr) \<Rightarrow> (tr_Close (f_api f) w1 tr, Inr ())
     | (w1, Inl lastErr) \<Rightarrow>
    (case select_tick (f_host f) n w1 of
       (w2, Some ctxErr) \<Rightarrow> (w2, Inl (Wrap ''agent vsock not ready after 30s: '' ctxErr
                                        ('' (last: '' @ Error lastErr @ '')'')))
     | (w2, None) \<Rightarrow> (case n of 0 \<Rightarrow> (w2, Inl DeadlineExceeded)
                      | Suc m \<Rightarrow> agentLoop f udsPath agentPort m w2)))"

declare agentLoop.simps [simp del]

definition waitUntilAgentReady :: "'w firecracker \<Rightarrow> string \<Rightarrow> nat \<Rightarrow> 'w \<Rightarrow> 'w \<times> unit result" where
  "waitUntilAgentReady f udsPath agentPort w = agentLoop f udsPath agentPort agentTicks w"

fun waitProcessExit :: "('w, 'c) host \<Rightarrow> int \<Rightarrow> nat \<Rightarrow> 'w \<Rightarrow> 'w \<times> bool" where
  "waitProcessExit h pid n w =
    (case h_Kill h w pid 0 of
       (w1, Inl _) \<Rightarrow> (w1, True)
     | (w1, Inr _) \<Rightarrow>
    (case select_tick h n w1 of
       (w2, Some _) \<Rightarrow> (w2, False)
     | (w2, None) \<Rightarrow> (case n of 0 \<Rightarrow> (w2, False) | Suc m \<Rightarrow> waitProcessExit h pid m w2)))"

declare waitProcessExit.simps [simp del]

section \<open>impl.go: the provider\<close>

definition indexInsert :: "firecrackerVM \<Rightarrow> vms \<Rightarrow> vms" where
  "indexInsert vm vms = AList.update (fv_id vm) vm vms"

definition localclient_New :: "string \<Rightarrow> string" where
  "localclient_New socket = socket"

definition attach :: "'w firecracker \<Rightarrow> 'w \<Rightarrow> string \<Rightarrow> firecrackerVM result" where
  "attach f w i =
    (let jail = jailRoot f i; socketPath = filepath_Join [jail, apiSocketFile] in
     case h_Stat (f_host f) w socketPath of
       Inl err \<Rightarrow> if errors_Is err os_ErrNotExist then Inl ErrVMNotFound else Inl (wrapf ''stat api socket'' err)
     | Inr _ \<Rightarrow>
    (case readMeta f w i of
       Inl err \<Rightarrow> if errors_Is err os_ErrNotExist then Inl ErrVMNotFound else Inl (wrapf ''read meta.json'' err)
     | Inr meta \<Rightarrow>
    (let udsHostPath = (case readVsockUDSPath (f_host f) w (filepath_Join [jail, vmConfigFile]) jail of
                          Inl _ \<Rightarrow> [] | Inr p \<Rightarrow> p);
         apiClient = localclient_New socketPath
     in case api_Describe (f_api f) w apiClient of
       Inl _ \<Rightarrow> Inl ErrVMNotFound
     | Inr _ \<Rightarrow> Inr
        \<lparr> fv_client = apiClient, fv_vmDir = vmDir f i, fv_jailRoot = jail, fv_id = i,
          fv_pid = me_PID meta, fv_networkIndex = me_NetworkIndex meta,
          fv_jailUID = op_JailUID (f_options f), fv_jailGID = op_JailGID (f_options f),
          fv_vsockUDS = udsHostPath, fv_vsockPort = me_AgentVsockPort meta, fv_vsock = None \<rparr>)))"

definition prepareChroot :: "'w firecracker \<Rightarrow> 'w \<Rightarrow> string \<Rightarrow> 'w \<times> (string \<times> string \<times> string) result" where
  "prepareChroot f w i =
    bindr (onErr (wrapf ''clean stale vm dir'') (h_RemoveAll (f_host f) w (vmDir f i))) (\<lambda>w _.
    bindr (onErr (wrapf ''create jail root'') (h_MkdirAll (f_host f) w (jailRoot f i) 493)) (\<lambda>w _.
      (w, Inr (vmDir f i, jailRoot f i, filepath_Join [jailRoot f i, apiSocketFile]))))"

definition netnsPath :: "string \<Rightarrow> string" where
  "netnsPath name = ''/var/run/netns/'' @ name"

definition buildJailerCommand ::
  "'w firecracker \<Rightarrow> string \<Rightarrow> NamespaceHandle \<Rightarrow> string list \<Rightarrow> string \<times> string list" where
  "buildJailerCommand f i net firecrackerArgs =
    (let o' = f_options f in
     (op_JailerPath o',
      [''--id'', i,
       ''--exec-file'', op_FirecrackerPath o',
       ''--uid'', dec_nat (op_JailUID o'),
       ''--gid'', dec_nat (op_JailGID o'),
       ''--chroot-base-dir'', op_ChrootBaseDir o',
       ''--netns'', netnsPath (nsh_NamespaceName net),
       ''--new-pid-ns'']
      @ (if op_AttachConsole o' then [] else [''--daemonize''])
      @ [''--''] @ firecrackerArgs))"

text \<open>With \<open>AttachConsole\<close> the jailer is reaped in the background, which changes nothing the daemon
  reads.\<close>

definition runJailer :: "'w firecracker \<Rightarrow> 'w \<Rightarrow> string \<times> string list \<Rightarrow> string \<Rightarrow> 'w \<times> unit result" where
  "runJailer f w cmd dir =
    bindr (onErr (wrapf ''spawn jailer'') (h_Start (f_host f) w (fst cmd) (snd cmd))) (\<lambda>w _.
      if op_AttachConsole (f_options f) then (w, Inr ())
      else case h_Wait (f_host f) w of
        (w1, Inl err) \<Rightarrow> (fst (h_RemoveAll (f_host f) w1 dir), Inl (wrapf ''jailer bootstrap failed'' err))
      | (w1, Inr _) \<Rightarrow> (w1, Inr ()))"

definition killForkedFirecracker :: "'w firecracker \<Rightarrow> string \<Rightarrow> 'w \<Rightarrow> 'w" where
  "killForkedFirecracker f i w =
    (case readPIDFile (f_host f) w (pidFilePath f i) of
       Inr pid \<Rightarrow> fst (h_Kill (f_host f) w pid 9) | Inl _ \<Rightarrow> w)"

record registerVMInput =
  ri_id :: string
  ri_networkIndex :: int
  ri_vsockUDS :: string
  ri_vsockPort :: nat

definition registerVM ::
  "'w firecracker \<Rightarrow> vms \<times> 'w \<Rightarrow> registerVMInput \<Rightarrow> string \<Rightarrow> (vms \<times> 'w) \<times> firecrackerVM result" where
  "registerVM f s inp apiClient =
    (case s of (vms, w) \<Rightarrow>
     case readPIDFile (f_host f) w (pidFilePath f (ri_id inp)) of
       Inl err \<Rightarrow> ((vms, w), Inl (wrapf ''read firecracker pid file'' err))
     | Inr pid \<Rightarrow>
    (case writeMeta f w (ri_id inp) \<lparr> me_PID = pid, me_AgentVsockPort = ri_vsockPort inp,
                                      me_NetworkIndex = ri_networkIndex inp \<rparr> of
       (w1, Inl err) \<Rightarrow> ((vms, w1), Inl (wrapf ''write meta.json'' err))
     | (w1, Inr _) \<Rightarrow>
      (let vm = \<lparr> fv_client = apiClient, fv_vmDir = vmDir f (ri_id inp), fv_jailRoot = jailRoot f (ri_id inp),
                  fv_id = ri_id inp, fv_pid = pid, fv_networkIndex = ri_networkIndex inp,
                  fv_jailUID = op_JailUID (f_options f), fv_jailGID = op_JailGID (f_options f),
                  fv_vsockUDS = ri_vsockUDS inp, fv_vsockPort = ri_vsockPort inp, fv_vsock = None \<rparr>
       in ((indexInsert vm vms, w1), Inr vm))))"

text \<open>On a failed readiness check the forked process is killed and the chroot kept.\<close>

definition orKill ::
  "'w firecracker \<Rightarrow> string \<Rightarrow> (goerr \<Rightarrow> goerr) \<Rightarrow> 'w \<times> unit result \<Rightarrow> 'w \<times> unit result" where
  "orKill f i msg x =
    (case x of (w, Inl err) \<Rightarrow> (killForkedFirecracker f i w, Inl (msg err)) | (w, Inr u) \<Rightarrow> (w, Inr u))"

definition kept :: "string \<Rightarrow> string \<Rightarrow> goerr \<Rightarrow> goerr" where
  "kept what dir = wrapf (what @ '' (artifacts kept at '' @ dir @ '')'')"

text \<open>The body of \<open>CreateMicroVM\<close> up to the registration.\<close>

definition spawnFresh ::
  "'w firecracker \<Rightarrow> CreateMicroVMInput \<Rightarrow> 'w \<Rightarrow> 'w \<times> (registerVMInput \<times> string) result" where
  "spawnFresh f input w =
    bindr (prepareChroot f w (ci_ID input)) (\<lambda>w (dir, jail, socketHostPath).
    bindr (onErr (wrapf ''write vm config'')
      (writeJSON (f_host f) w (filepath_Join [jail, vmConfigFile]) (CConfig (ci_Config input)))) (\<lambda>w _.
    bindr (onErr (wrapf ''chmod vm config'') (h_Chmod (f_host f) w (filepath_Join [jail, vmConfigFile]) 420)) (\<lambda>w _.
    bindr (stageAssets (f_host f) jail (ci_Assets input) w) (\<lambda>w _.
    bindr (onErr (wrapf ''resize rootfs'') (resizeRootfsForInput (f_host f) w jail input)) (\<lambda>w _.
    bindr (runJailer f w (buildJailerCommand f (ci_ID input) (ci_Network input)
             [''--api-sock'', ''/'' @ apiSocketFile, ''--config-file'', ''/'' @ vmConfigFile]) dir) (\<lambda>w _.
    bindr (orKill f (ci_ID input) (kept ''vm did not become ready'' dir)
             (waitUntilRunning f (localclient_New socketHostPath) w)) (\<lambda>w _.
    (case vsockEndpoint jail input of (udsHostPath, agentPort) \<Rightarrow>
    bindr (if agentPort \<noteq> 0
           then orKill f (ci_ID input) (kept ''agent did not become ready'' dir)
                  (waitUntilAgentReady f udsHostPath agentPort w)
           else (w, Inr ())) (\<lambda>w _.
    (w, Inr (\<lparr> ri_id = ci_ID input, ri_networkIndex = nsh_Index (ci_Network input),
               ri_vsockUDS = udsHostPath, ri_vsockPort = agentPort \<rparr>,
             localclient_New socketHostPath)))))))))))"

text \<open>Running an operation on the world beside the index.\<close>

definition withIndex :: "vms \<Rightarrow> 'w \<times> 'a result \<Rightarrow> (vms \<times> 'w) \<times> 'a result" where
  "withIndex vms x = (case x of (w, r) \<Rightarrow> ((vms, w), r))"

definition CreateMicroVM ::
  "'w firecracker \<Rightarrow> vms \<times> 'w \<Rightarrow> CreateMicroVMInput \<Rightarrow> (vms \<times> 'w) \<times> firecrackerVM result" where
  "CreateMicroVM f s input =
    (case s of (vms, w) \<Rightarrow>
     if \<not> vmIDPattern (ci_ID input) then ((vms, w), Inl (errBadID (ci_ID input)))
     else case attach f w (ci_ID input) of
       Inr vm \<Rightarrow> ((indexInsert vm vms, w), Inr vm)
     | Inl _ \<Rightarrow> bindr (withIndex vms (spawnFresh f input w)) (\<lambda>s (inp, apiClient). registerVM f s inp apiClient))"

text \<open>The body of \<open>LoadSnapshot\<close> up to the registration.\<close>

definition spawnRestored ::
  "'w firecracker \<Rightarrow> LoadSnapshotInput \<Rightarrow> LocalReference \<Rightarrow> 'w \<Rightarrow> 'w \<times> (registerVMInput \<times> string) result" where
  "spawnRestored f input ref w =
    bindr (prepareChroot f w (li_ID input)) (\<lambda>w (dir, jail, socketHostPath).
    bindr (stageAssets (f_host f) jail (li_Assets input) w) (\<lambda>w _.
    bindr (onErr (wrapf ''stage snapshot'') (stageSnapshotFiles (f_host f) w jail ref)) (\<lambda>w _.
    bindr (runJailer f w (buildJailerCommand f (li_ID input) (li_Network input)
             [''--api-sock'', ''/'' @ apiSocketFile]) dir) (\<lambda>w _.
    (let apiClient = localclient_New socketHostPath in
    bindr (orKill f (li_ID input) (kept ''api did not become ready'' dir) (waitUntilAPIReady f apiClient w)) (\<lambda>w _.
    bindr (orKill f (li_ID input) (kept ''firecracker load RPC'' dir)
             (api_LoadSnapshot (f_api f) w apiClient (StateFilePath (lr_SnapshotID ref))
               (MemFilePath (lr_SnapshotID ref)) True)) (\<lambda>w _.
    bindr (orKill f (li_ID input) (kept ''loaded vm did not reach Running'' dir)
             (waitUntilRunning f apiClient w)) (\<lambda>w _.
    (let vsockUDS = resolveVsockUDS jail (li_VsockUDSPath input) in
    bindr (if li_AgentVsockPort input \<noteq> 0
           then orKill f (li_ID input) (kept ''agent did not become ready after restore'' dir)
                  (waitUntilAgentReady f vsockUDS (li_AgentVsockPort input) w)
           else (w, Inr ())) (\<lambda>w _.
    (w, Inr (\<lparr> ri_id = li_ID input, ri_networkIndex = nsh_Index (li_Network input),
               ri_vsockUDS = vsockUDS, ri_vsockPort = li_AgentVsockPort input \<rparr>, apiClient))))))))))))"

definition LoadSnapshot ::
  "'w firecracker \<Rightarrow> vms \<times> 'w \<Rightarrow> LoadSnapshotInput option \<Rightarrow> (vms \<times> 'w) \<times> firecrackerVM result" where
  "LoadSnapshot f s input =
    (case s of (vms, w) \<Rightarrow>
     case input of None \<Rightarrow> ((vms, w), Inl (New ''LoadSnapshotInput.LocalReference is required'')) | Some input \<Rightarrow>
    (case li_LocalReference input of
       None \<Rightarrow> ((vms, w), Inl (New ''LoadSnapshotInput.LocalReference is required''))
     | Some ref \<Rightarrow>
     if li_AgentVsockPort input \<noteq> 0 \<and> li_VsockUDSPath input = []
     then ((vms, w), Inl (New ''LoadSnapshotInput.VsockUDSPath is required when AgentVsockPort != 0''))
     else if \<not> vmIDPattern (li_ID input) then ((vms, w), Inl (errBadID (li_ID input)))
     else case attach f w (li_ID input) of
       Inr vm \<Rightarrow> ((indexInsert vm vms, w), Inr vm)
     | Inl _ \<Rightarrow> bindr (withIndex vms (spawnRestored f input ref w)) (\<lambda>s (inp, apiClient).
                 registerVM f s inp apiClient)))"

section \<open>impl.go: the VM handle\<close>

definition instanceState :: "'w fcapi \<Rightarrow> 'w \<Rightarrow> firecrackerVM \<Rightarrow> string result" where
  "instanceState a w vm =
    (case api_Describe a w (fv_client vm) of
       Inl err \<Rightarrow> Inl err
     | Inr None \<Rightarrow> Inl (New ''empty instance state'')
     | Inr (Some st) \<Rightarrow> Inr st)"

definition Describe :: "'w fcapi \<Rightarrow> 'w \<Rightarrow> firecrackerVM \<Rightarrow> MicroVMInfo result" where
  "Describe a w vm =
    (case instanceState a w vm of
       Inl err \<Rightarrow> Inl err
     | Inr st \<Rightarrow>
    (case api_MachineConfiguration a w (fv_client vm) of
       Inl err \<Rightarrow> Inl err
     | Inr None \<Rightarrow> Inl (New ''Describe: payload is nil'')
     | Inr (Some payload) \<Rightarrow> Inr
        \<lparr> mi_State = st,
          mi_VCPUCount = (case mc_VcpuCount payload of None \<Rightarrow> 0 | Some n \<Rightarrow> n),
          mi_MemoryMiB = (case mc_MemSizeMib payload of None \<Rightarrow> 0 | Some n \<Rightarrow> n) \<rparr>))"

definition transitionVM ::
  "'w fcapi \<Rightarrow> 'w \<Rightarrow> firecrackerVM \<Rightarrow> string \<Rightarrow> string \<Rightarrow> 'w \<times> unit result" where
  "transitionVM a w vm requestedTarget observedTarget =
    (case instanceState a w vm of
       Inl err \<Rightarrow> (w, Inl err)
     | Inr current \<Rightarrow>
       if current = observedTarget then (w, Inr ())
       else api_PatchVM a w (fv_client vm) requestedTarget)"

definition Pause :: "'w fcapi \<Rightarrow> 'w \<Rightarrow> firecrackerVM \<Rightarrow> 'w \<times> unit result" where
  "Pause a w vm = transitionVM a w vm VMStatePaused InstanceInfoStatePaused"

definition Resume :: "'w fcapi \<Rightarrow> 'w \<Rightarrow> firecrackerVM \<Rightarrow> 'w \<times> unit result" where
  "Resume a w vm = transitionVM a w vm VMStateResumed InstanceInfoStateRunning"

text \<open>The memoised transport is closed and forgotten.\<close>

definition dropVSock :: "'w fcapi \<Rightarrow> firecrackerVM \<Rightarrow> 'w \<Rightarrow> firecrackerVM \<times> 'w" where
  "dropVSock a vm w =
    (case fv_vsock vm of None \<Rightarrow> (vm, w) | Some tr \<Rightarrow> (vm\<lparr>fv_vsock := None\<rparr>, tr_Close a w tr))"

text \<open>\<open>CreateSnapshot\<close> from the point where the snapshot directory is ready: the deferred resume runs on
  both ways out.\<close>

definition takeSnapshot ::
  "'w firecracker \<Rightarrow> firecrackerVM \<Rightarrow> LocalReference \<Rightarrow> bool \<Rightarrow> 'w \<Rightarrow> (firecrackerVM \<times> 'w) \<times> LocalReference result" where
  "takeSnapshot f vm localRef pausedByUs w =
    (let resume = (\<lambda>w. if pausedByUs then fst (Resume (f_api f) w vm) else w) in
     case api_CreateSnapshot (f_api f) w (fv_client vm) (MemFilePath (lr_SnapshotID localRef))
            (StateFilePath (lr_SnapshotID localRef)) of
       (w1, Inl err) \<Rightarrow>
         ((vm, resume (fst (h_RemoveAll (f_host f) w1 (filepath_Dir (lr_MemFilePath localRef))))),
          Inl (wrapf ''firecracker snapshot RPC'' err))
     | (w1, Inr _) \<Rightarrow>
         (case dropVSock (f_api f) vm w1 of (vm', w2) \<Rightarrow> ((vm', resume w2), Inr localRef)))"

definition CreateSnapshot ::
  "'w firecracker \<Rightarrow> firecrackerVM \<times> 'w \<Rightarrow> (firecrackerVM \<times> 'w) \<times> LocalReference result" where
  "CreateSnapshot f s =
    (case s of (vm, w) \<Rightarrow>
     case MakeLocalReference (newUUID (f_api f)) w (fv_jailRoot vm) of (w0, localRef) \<Rightarrow>
    (let snapshotDir = filepath_Dir (lr_MemFilePath localRef);
         fail = (\<lambda>w err. ((vm, fst (h_RemoveAll (f_host f) w snapshotDir)), Inl err))
     in case h_MkdirAll (f_host f) w0 snapshotDir DirMode of
       (w1, Inl err) \<Rightarrow> ((vm, w1), Inl (wrapf ''create snapshot dir'' err))
     | (w1, Inr _) \<Rightarrow>
    (case h_Chown (f_host f) w1 snapshotDir (fv_jailUID vm) (fv_jailGID vm) of
       (w2, Inl err) \<Rightarrow> fail w2 (wrapf ''chown snapshot dir'' err)
     | (w2, Inr _) \<Rightarrow>
    (case instanceState (f_api f) w2 vm of
       Inl err \<Rightarrow> fail w2 (wrapf ''inspect instance state'' err)
     | Inr st \<Rightarrow>
       if st = InstanceInfoStateRunning then
         (case Pause (f_api f) w2 vm of
            (w3, Inl err) \<Rightarrow> fail w3 (wrapf ''pause for snapshot'' err)
          | (w3, Inr _) \<Rightarrow> takeSnapshot f vm localRef True w3)
       else takeSnapshot f vm localRef False w2))))"

definition gracefulTicks :: nat where "gracefulTicks = 50"
definition forceTicks :: nat where "forceTicks = 10"

text \<open>\<open>destroy\<close>: the transport, the process, the directory.\<close>

definition stopProcess :: "('w, 'c) host \<Rightarrow> int \<Rightarrow> 'w \<Rightarrow> 'w \<times> unit result" where
  "stopProcess h pid w =
    (case h_Kill h w pid 15 of
       (w1, Inl err) \<Rightarrow>
         if \<not> errors_Is err ESRCH then (w1, Inl (wrapf ''signal firecracker'' err))
         else (case waitProcessExit h pid gracefulTicks w1 of
            (w2, True) \<Rightarrow> (w2, Inr ())
          | (w2, False) \<Rightarrow> (fst (waitProcessExit h pid forceTicks (fst (h_Kill h w2 pid 9))), Inr ()))
     | (w1, Inr _) \<Rightarrow>
         (case waitProcessExit h pid gracefulTicks w1 of
            (w2, True) \<Rightarrow> (w2, Inr ())
          | (w2, False) \<Rightarrow> (fst (waitProcessExit h pid forceTicks (fst (h_Kill h w2 pid 9))), Inr ())))"

definition destroy :: "'w firecracker \<Rightarrow> firecrackerVM \<Rightarrow> 'w \<Rightarrow> 'w \<times> unit result" where
  "destroy f vm w =
    (let w1 = (case fv_vsock vm of None \<Rightarrow> w | Some tr \<Rightarrow> tr_Close (f_api f) w tr) in
     bindr (if fv_pid vm > 0 then stopProcess (f_host f) (fv_pid vm) w1 else (w1, Inr ())) (\<lambda>w _.
       onErr (wrapf ''remove vm dir'') (h_RemoveAll (f_host f) w (fv_vmDir vm))))"

definition NetworkIndex :: "firecrackerVM \<Rightarrow> int" where
  "NetworkIndex vm = fv_networkIndex vm"

definition VSock :: "'w fcapi \<Rightarrow> firecrackerVM \<times> 'w \<Rightarrow> (firecrackerVM \<times> 'w) \<times> nat result" where
  "VSock a s =
    (case s of (vm, w) \<Rightarrow>
     case fv_vsock vm of
       Some tr \<Rightarrow> ((vm, w), Inr tr)
     | None \<Rightarrow>
       if fv_vsockUDS vm = [] \<or> fv_vsockPort vm = 0
       then ((vm, w), Inl (New ''vsock not configured for this vm''))
       else (case tr_New a w (fv_vsockUDS vm) (fv_vsockPort vm) of
           (w1, Inl err) \<Rightarrow> ((vm, w1), Inl err)
         | (w1, Inr tr) \<Rightarrow> ((vm\<lparr>fv_vsock := Some tr\<rparr>, w1), Inr tr)))"

section \<open>impl.go: the index\<close>

definition Len :: "vms \<Rightarrow> nat" where
  "Len vms = length vms"

definition NextNetNSIndex :: "vms \<Rightarrow> int" where
  "NextNetNSIndex vms = fold (\<lambda>(_, vm) next. if fv_networkIndex vm + 1 > next then fv_networkIndex vm + 1 else next) vms 0"

definition GetMicroVM :: "vms \<Rightarrow> string \<Rightarrow> firecrackerVM option" where
  "GetMicroVM vms i = map_of vms i"

definition DeleteMicroVM :: "'w firecracker \<Rightarrow> vms \<times> 'w \<Rightarrow> string \<Rightarrow> (vms \<times> 'w) \<times> unit result" where
  "DeleteMicroVM f s i =
    (case s of (vms, w) \<Rightarrow>
     case map_of vms i of
       None \<Rightarrow> ((vms, w), Inl ErrVMNotFound)
     | Some vm \<Rightarrow> withIndex (AList.delete i vms) (destroy f vm w))"

fun recoverEntries :: "'w firecracker \<Rightarrow> 'w \<Rightarrow> (string \<times> bool) list \<Rightarrow> vms \<Rightarrow> vms" where
  "recoverEntries f w [] vms = vms"
| "recoverEntries f w ((i, isDir) # es) vms =
    (if \<not> isDir then recoverEntries f w es vms
     else if \<not> vmIDPattern i then recoverEntries f w es vms
     else case attach f w i of
       Inr vm \<Rightarrow> recoverEntries f w es (indexInsert vm vms)
     | Inl _ \<Rightarrow> recoverEntries f w es vms)"

definition Recover :: "'w firecracker \<Rightarrow> vms \<times> 'w \<Rightarrow> (vms \<times> 'w) \<times> unit result" where
  "Recover f s =
    (case s of (vms, w) \<Rightarrow>
     let root = filepath_Join [op_ChrootBaseDir (f_options f), execName f] in
     case h_ReadDir (f_host f) w root of
       Inl err \<Rightarrow> if errors_Is err os_ErrNotExist then ((vms, w), Inr ())
                  else ((vms, w), Inl (wrapf (''read chroot base dir '' @ root) err))
     | Inr entries \<Rightarrow> ((recoverEntries f w entries vms, w), Inr ()))"

end
