(* ===== verification/Protos.thy ===== *)
theory Protos
  imports Prelude
begin

text \<open>
  The control-plane messages, as generated in \<open>apis/gen/yaghan/control_plane/v1alpha1\<close>. A message
  pointer is an option where the code distinguishes nil; the metadata of a sandbox, node or
  snapshot is required by the request validation and is never nil. Getters return the zero value
  on nil, as the generated ones do. A timestamp is a number of nanoseconds since the Unix epoch.
  Enumerations are closed: values outside the generated constants are not represented.
\<close>

section \<open>Time\<close>

type_synonym Timestamp = int

definition pad0 :: "nat \<Rightarrow> string \<Rightarrow> string" where
  "pad0 n s = replicate (n - length s) CHR ''0'' @ s"

text \<open>The civil date of a day number counted from 1970-01-01.\<close>

definition civil :: "int \<Rightarrow> int \<times> int \<times> int" where
  "civil days =
    (let z = days + 719468; era = z div 146097; doe = z - era * 146097;
         yoe = (doe - doe div 1460 + doe div 36524 - doe div 146096) div 365;
         doy = doe - (365 * yoe + yoe div 4 - yoe div 100);
         mp = (5 * doy + 2) div 153; d = doy - (153 * mp + 2) div 5 + 1;
         m = (if mp < 10 then mp + 3 else mp - 9)
     in (yoe + era * 400 + (if m \<le> 2 then 1 else 0), m, d))"

definition trim_zeros :: "string \<Rightarrow> string" where
  "trim_zeros s = rev (dropWhile (\<lambda>c. c = CHR ''0'') (rev s))"

text \<open>\<open>AsTime().UTC().Format(time.RFC3339Nano)\<close>: the fraction is printed without trailing zeros,
  and not at all when it is zero.\<close>

definition RFC3339Nano :: "Timestamp \<Rightarrow> string" where
  "RFC3339Nano t =
    (let secs = t div 1000000000; nanos = t mod 1000000000;
         (y, m, d) = civil (secs div 86400); s = secs mod 86400;
         frac = trim_zeros (pad0 9 (fmt_d nanos))
     in pad0 4 (fmt_d y) @ ''-'' @ pad0 2 (fmt_d m) @ ''-'' @ pad0 2 (fmt_d d) @ ''T''
        @ pad0 2 (fmt_d (s div 3600)) @ '':'' @ pad0 2 (fmt_d (s mod 3600 div 60)) @ '':''
        @ pad0 2 (fmt_d (s mod 60)) @ (if frac = [] then [] else ''.'' @ frac) @ ''Z'')"

section \<open>Sandboxes\<close>

datatype Phase =
    PHASE_UNSPECIFIED | PHASE_PENDING | PHASE_RUNNING | PHASE_PAUSING | PHASE_PAUSED
  | PHASE_RESUMING | PHASE_SNAPSHOTTING | PHASE_DELETING | PHASE_DELETED | PHASE_FAILED

fun PhaseString :: "Phase \<Rightarrow> string" where
  "PhaseString PHASE_UNSPECIFIED = ''PHASE_UNSPECIFIED''"
| "PhaseString PHASE_PENDING = ''PHASE_PENDING''"
| "PhaseString PHASE_RUNNING = ''PHASE_RUNNING''"
| "PhaseString PHASE_PAUSING = ''PHASE_PAUSING''"
| "PhaseString PHASE_PAUSED = ''PHASE_PAUSED''"
| "PhaseString PHASE_RESUMING = ''PHASE_RESUMING''"
| "PhaseString PHASE_SNAPSHOTTING = ''PHASE_SNAPSHOTTING''"
| "PhaseString PHASE_DELETING = ''PHASE_DELETING''"
| "PhaseString PHASE_DELETED = ''PHASE_DELETED''"
| "PhaseString PHASE_FAILED = ''PHASE_FAILED''"

text \<open>The \<open>reference\<close> oneof of a source that is set.\<close>

datatype SandboxSource = Source_unset | Source_SnapshotId string | Source_ImageId string

record SandboxMeta =
  sm_Id :: string
  sm_Namespace :: string
  sm_Source :: "SandboxSource option"
  sm_Version :: int64
  sm_CreatedAt :: "Timestamp option"
  sm_LastModifiedAt :: "Timestamp option"
  sm_Labels :: "(string \<times> string) list"

record EgressTargets =
  et_IpAddresses :: "string list"
  et_CidrBlocks :: "string list"
  et_DomainNames :: "string list"

datatype EgressRules = Rules_unset | Rules_Allow EgressTargets | Rules_Deny EgressTargets

record Resources =
  rs_VcpuCount :: nat
  rs_MemoryMib :: nat
  rs_DiskMib :: nat

record Intent =
  in_Phase :: Phase
  in_StartSnapshot :: "string option"

record RpcStatus =
  rp_Code :: code
  rp_Message :: string

record SnapshotOutput =
  so_SnapshotId :: string
  so_CreatedAt :: "Timestamp option"
  so_Error :: "RpcStatus option"

record SandboxStatus =
  ss_Phase :: Phase
  ss_Message :: string

record Sandbox =
  sb_Metadata :: SandboxMeta
  sb_EgressPolicy :: "EgressRules option"
  sb_Resources :: "Resources option"
  sb_Node :: "string option"
  sb_Intent :: "Intent option"
  sb_LastSnapshot :: "SnapshotOutput option"
  sb_Status :: "SandboxStatus option"

definition GetId :: "Sandbox \<Rightarrow> string" where
  "GetId sb = sm_Id (sb_Metadata sb)"

definition GetVersion :: "Sandbox \<Rightarrow> int64" where
  "GetVersion sb = sm_Version (sb_Metadata sb)"

definition GetStatusPhase :: "Sandbox \<Rightarrow> Phase" where
  "GetStatusPhase sb = (case sb_Status sb of None \<Rightarrow> PHASE_UNSPECIFIED | Some s \<Rightarrow> ss_Phase s)"

definition GetIntentPhase :: "Sandbox \<Rightarrow> Phase" where
  "GetIntentPhase sb = (case sb_Intent sb of None \<Rightarrow> PHASE_UNSPECIFIED | Some i \<Rightarrow> in_Phase i)"

definition GetNodeId :: "Sandbox \<Rightarrow> string" where
  "GetNodeId sb = (case sb_Node sb of None \<Rightarrow> [] | Some n \<Rightarrow> n)"

definition GetAllow :: "EgressRules option \<Rightarrow> EgressTargets option" where
  "GetAllow p = (case p of Some (Rules_Allow t) \<Rightarrow> Some t | _ \<Rightarrow> None)"

definition GetDeny :: "EgressRules option \<Rightarrow> EgressTargets option" where
  "GetDeny p = (case p of Some (Rules_Deny t) \<Rightarrow> Some t | _ \<Rightarrow> None)"

text \<open>Field updates the handlers make.\<close>

definition setVersion :: "int64 \<Rightarrow> Sandbox \<Rightarrow> Sandbox" where
  "setVersion v sb = sb\<lparr> sb_Metadata := (sb_Metadata sb)\<lparr> sm_Version := v \<rparr> \<rparr>"

definition setLastModifiedAt :: "Timestamp option \<Rightarrow> Sandbox \<Rightarrow> Sandbox" where
  "setLastModifiedAt t sb = sb\<lparr> sb_Metadata := (sb_Metadata sb)\<lparr> sm_LastModifiedAt := t \<rparr> \<rparr>"

definition setCreatedAt :: "Timestamp option \<Rightarrow> Sandbox \<Rightarrow> Sandbox" where
  "setCreatedAt t sb = sb\<lparr> sb_Metadata := (sb_Metadata sb)\<lparr> sm_CreatedAt := t \<rparr> \<rparr>"

section \<open>Snapshots\<close>

record SnapshotMeta =
  sn_Id :: string
  sn_Namespace :: string
  sn_Description :: string
  sn_CreatedAt :: "Timestamp option"

record Snapshot =
  snap_Metadata :: SnapshotMeta
  snap_Sandbox :: "string option"
  snap_Resources :: "Resources option"

section \<open>Nodes\<close>

datatype NodePhase =
    NODE_UNSPECIFIED | NODE_HEALTHY | NODE_UNHEALTHY | NODE_LOST | NODE_DELETED | NODE_UNKNOWN

fun NodePhaseString :: "NodePhase \<Rightarrow> string" where
  "NodePhaseString NODE_UNSPECIFIED = ''PHASE_UNSPECIFIED''"
| "NodePhaseString NODE_HEALTHY = ''PHASE_HEALTHY''"
| "NodePhaseString NODE_UNHEALTHY = ''PHASE_UNHEALTHY''"
| "NodePhaseString NODE_LOST = ''PHASE_LOST''"
| "NodePhaseString NODE_DELETED = ''PHASE_DELETED''"
| "NodePhaseString NODE_UNKNOWN = ''PHASE_UNKNOWN''"

record NodeMeta =
  nm_Id :: string
  nm_Version :: int64
  nm_CreatedAt :: "Timestamp option"
  nm_LastModifiedAt :: "Timestamp option"

record NodeResources =
  nr_CpuCapacityMillicores :: nat
  nr_MemoryCapacityBytes :: nat
  nr_DiskCapacityBytes :: nat

record NodeMetrics =
  nx_SampledAt :: "Timestamp option"
  nx_ActiveSandboxCount :: nat
  nx_CpuUsedMillicores :: nat
  nx_MemoryUsedBytes :: nat
  nx_DiskUsedBytes :: nat

record NodeStatus =
  ns_Phase :: NodePhase
  ns_Message :: string

record EC2InstanceMeta =
  ec_InstanceId :: string
  ec_InstanceType :: string
  ec_ImageId :: string
  ec_AccountId :: string
  ec_Region :: string
  ec_AvailabilityZone :: string
  ec_PrivateIp :: string
  ec_KernelId :: string
  ec_Architecture :: string

record Node =
  nd_Metadata :: NodeMeta
  nd_Resources :: "NodeResources option"
  nd_Metrics :: "NodeMetrics option"
  nd_Status :: "NodeStatus option"
  nd_AwsEc2 :: "EC2InstanceMeta option"

definition NodeId :: "Node \<Rightarrow> string" where
  "NodeId n = nm_Id (nd_Metadata n)"

definition NodeVersion :: "Node \<Rightarrow> int64" where
  "NodeVersion n = nm_Version (nd_Metadata n)"

definition NodeStatusPhase :: "Node \<Rightarrow> NodePhase" where
  "NodeStatusPhase n = (case nd_Status n of None \<Rightarrow> NODE_UNSPECIFIED | Some s \<Rightarrow> ns_Phase s)"

section \<open>Events\<close>

record Event =
  ev_Id :: string
  ev_EmittedAt :: "Timestamp option"
  ev_Sandbox :: "Sandbox option"

section \<open>The session between a daemon and the api-server\<close>

datatype NodePatch = Patch_unset | Patch_NodeMetrics NodeMetrics | Patch_NodeStatus NodeStatus

datatype Request =
    Req_Connect int64 Node
  | Req_UpdateSandbox Sandbox
  | Req_PatchNode NodePatch
  | Req_unset

datatype Response =
    Resp_Acknowledge int64
  | Resp_Event Event
  | Resp_Error code string
  | Resp_unset

definition GetAcknowledge :: "Response \<Rightarrow> int64 option" where
  "GetAcknowledge r = (case r of Resp_Acknowledge i \<Rightarrow> Some i | _ \<Rightarrow> None)"

section \<open>Facts\<close>

lemma PhaseString_inj [simp]: "PhaseString p = PhaseString q \<longleftrightarrow> p = q"
  by (cases p; cases q) simp_all

lemmas getters = GetId_def GetVersion_def GetStatusPhase_def GetIntentPhase_def GetNodeId_def
  setVersion_def setLastModifiedAt_def setCreatedAt_def

lemma set_get [simp]:
  "GetId (setVersion v sb) = GetId sb" "GetVersion (setVersion v sb) = v"
  "GetId (setLastModifiedAt t sb) = GetId sb" "GetVersion (setLastModifiedAt t sb) = GetVersion sb"
  "GetId (setCreatedAt t sb) = GetId sb" "GetVersion (setCreatedAt t sb) = GetVersion sb"
  "GetStatusPhase (setVersion v sb) = GetStatusPhase sb"
  "GetStatusPhase (setLastModifiedAt t sb) = GetStatusPhase sb"
  "GetStatusPhase (setCreatedAt t sb) = GetStatusPhase sb"
  "GetIntentPhase (setVersion v sb) = GetIntentPhase sb"
  "GetIntentPhase (setLastModifiedAt t sb) = GetIntentPhase sb"
  "GetNodeId (setVersion v sb) = GetNodeId sb" "GetNodeId (setLastModifiedAt t sb) = GetNodeId sb"
  by (simp_all add: getters)

end
