(* ===== verification/Controller.thy ===== *)
theory Controller
  imports Firecracker Protos
begin

text \<open>
  The daemon's controller (daemon/pkg/controller): the indexer of sandboxes by id and version, the file
  that keeps the session id, the connection to the api-server, the reader that stores events and
  queues their ids, the worker that reconciles a queued id and reports the outcome, and the periodic
  resync. The generated gRPC clients, the work queue of client-go, the retry policy of backoff, the
  node agent and the reconciler are parameters, gathered in the record \<open>Controller\<close>; the state
  \<open>'s\<close> they act on is threaded through. What each goroutine does is given twice: as the
  functions of the source, and as the steps between two critical sections, which interleave.
\<close>

section \<open>indexer.go\<close>

type_synonym indexer = "string \<rightharpoonup> Sandbox"

definition newIndexer :: indexer where
  "newIndexer = Map.empty"

definition indexer_Put :: "indexer \<Rightarrow> Sandbox \<Rightarrow> indexer \<times> bool" where
  "indexer_Put i sandbox =
    (let ident = GetId sandbox in
     if ident = [] then (i, False)
     else case i ident of
       Some existing \<Rightarrow> if GetVersion sandbox < GetVersion existing then (i, False)
                        else (i(ident \<mapsto> sandbox), True)
     | None \<Rightarrow> (i(ident \<mapsto> sandbox), True))"

definition indexer_Get :: "indexer \<Rightarrow> string \<Rightarrow> Sandbox option" where
  "indexer_Get i ident = i ident"

definition indexer_Delete :: "indexer \<Rightarrow> string \<Rightarrow> indexer" where
  "indexer_Delete i ident = i(ident := None)"

section \<open>session.go\<close>

definition session_Load :: "('s, fcontent) host \<Rightarrow> string \<Rightarrow> 's \<Rightarrow> int64 result" where
  "session_Load h path s =
    (case h_ReadFile h s path of
       Inl err \<Rightarrow> if errors_Is err os_ErrNotExist then Inr 0
                  else Inl (wrapf (''read session id file '' @ path) err)
     | Inr c \<Rightarrow>
       (case (case c of CBytes data \<Rightarrow> ParseInt (TrimSpace data) | _ \<Rightarrow> Inl ErrSyntax) of
          Inl err \<Rightarrow> Inl (wrapf (''parse session id from '' @ path) err)
        | Inr i \<Rightarrow> Inr i))"

text \<open>Write, close and rename the temporary file; then, with \<open>os.CreateTemp\<close> as the parameter \<open>temp\<close>, the
  whole, which removes it on every way out once it exists.\<close>

definition session_Fill :: "('s, fcontent) host \<Rightarrow> string \<Rightarrow> int64 \<Rightarrow> string \<Rightarrow> 's \<Rightarrow> 's \<times> unit result" where
  "session_Fill h path i tmpPath s =
    (case h_WriteFile h s tmpPath (CBytes (fmt_d i @ [CHR 10])) of
       (s1, Inl err) \<Rightarrow> (fst (h_Close h s1 tmpPath), Inl (wrapf ''write session id'' err))
     | (s1, Inr _) \<Rightarrow>
       bindr (onErr (wrapf ''close session id tempfile'') (h_Close h s1 tmpPath)) (\<lambda>s _.
         onErr (wrapf ''rename session id file'') (h_Rename h s tmpPath path)))"

definition session_Save ::
  "('s, fcontent) host \<Rightarrow> ('s \<Rightarrow> string \<Rightarrow> string \<Rightarrow> 's \<times> string result) \<Rightarrow> string \<Rightarrow> int64 \<Rightarrow> 's \<Rightarrow> 's \<times> unit result" where
  "session_Save h temp path i s =
    bindr (onErr (wrapf ''ensure session id directory'') (h_MkdirAll h s (filepath_Dir path) 493)) (\<lambda>s _.
    bindr (onErr (wrapf ''create session id tempfile'')
        (temp s (filepath_Dir path) (filepath_Base path @ ''.*''))) (\<lambda>s tmpPath.
      (case session_Fill h path i tmpPath s of (s1, r) \<Rightarrow> (fst (h_Remove h s1 tmpPath), r))))"

section \<open>controller.go: messages and state\<close>

record ListRequest =
  lq_NodeId :: string
  lq_NewestFirst :: bool
  lq_PageSize :: int
  lq_ContinuationToken :: string

record 'q workqueue =
  wq_Add :: "'q \<Rightarrow> string \<Rightarrow> 'q"
  wq_Get :: "'q \<Rightarrow> (string \<times> 'q) option"
  wq_Done :: "'q \<Rightarrow> string \<Rightarrow> 'q"
  wq_NumRequeues :: "'q \<Rightarrow> string \<Rightarrow> int"
  wq_AddRateLimited :: "'q \<Rightarrow> string \<Rightarrow> 'q"
  wq_Forget :: "'q \<Rightarrow> string \<Rightarrow> 'q"
  wq_ShutDown :: "'q \<Rightarrow> 'q"

text \<open>The fields of a controller that change: the indexer, the queue, the current stream, and the state
  of what it calls.\<close>

record ('q, 's) cst =
  ct_indexer :: indexer
  ct_queue :: 'q
  ct_stream :: "nat option"
  ct_s :: 's

record ('q, 's) Controller =
  co_Open :: "'s \<Rightarrow> 's \<times> nat result"
  co_Send :: "'s \<Rightarrow> nat \<Rightarrow> Request \<Rightarrow> 's \<times> unit result"
  co_Recv :: "'s \<Rightarrow> nat \<Rightarrow> 's \<times> Response result"
  co_List :: "'s \<Rightarrow> ListRequest \<Rightarrow> 's \<times> (Sandbox list \<times> string) result"
  co_Reconcile :: "Sandbox \<Rightarrow> 's \<Rightarrow> 's \<times> Sandbox result"
  co_agent :: "('s \<Rightarrow> 's \<times> Node result) option"
  co_queue :: "'q workqueue"
  co_Retry :: "(int64 \<times> 's \<Rightarrow> (int64 \<times> 's) \<times> nat result) \<Rightarrow> int64 \<times> 's \<Rightarrow> (int64 \<times> 's) \<times> nat result"
  co_host :: "('s, fcontent) host"
  co_temp :: "'s \<Rightarrow> string \<Rightarrow> string \<Rightarrow> 's \<times> string result"
  co_ctxErr :: "'s \<Rightarrow> bool"
  co_SessionIDFile :: string
  co_MaxRetries :: int

definition setStream :: "nat option \<Rightarrow> ('q, 's, 'm) cst_scheme \<Rightarrow> ('q, 's, 'm) cst_scheme" where
  "setStream stream c = c\<lparr>ct_stream := stream\<rparr>"

definition sendOnStream ::
  "('q, 's) Controller \<Rightarrow> ('q, 's, 'm) cst_scheme \<Rightarrow> Request \<Rightarrow> ('q, 's, 'm) cst_scheme \<times> unit result" where
  "sendOnStream c st req =
    (case ct_stream st of
       None \<Rightarrow> (st, Inl (New ''stream is not connected''))
     | Some stream \<Rightarrow> (case co_Send c (ct_s st) stream req of (s, r) \<Rightarrow> (st\<lparr>ct_s := s\<rparr>, r)))"

definition sendUpdate ::
  "('q, 's) Controller \<Rightarrow> ('q, 's, 'm) cst_scheme \<Rightarrow> Sandbox \<Rightarrow> ('q, 's, 'm) cst_scheme \<times> unit result" where
  "sendUpdate c st sandbox = sendOnStream c st (Req_UpdateSandbox sandbox)"

definition ReportNodeMetrics ::
  "('q, 's) Controller \<Rightarrow> ('q, 's, 'm) cst_scheme \<Rightarrow> NodeMetrics \<Rightarrow> ('q, 's, 'm) cst_scheme \<times> unit result" where
  "ReportNodeMetrics c st metrics = sendOnStream c st (Req_PatchNode (Patch_NodeMetrics metrics))"

definition ReportStatusPhase ::
  "('q, 's) Controller \<Rightarrow> ('q, 's, 'm) cst_scheme \<Rightarrow> NodePhase \<Rightarrow> string \<Rightarrow> ('q, 's, 'm) cst_scheme \<times> unit result" where
  "ReportStatusPhase c st phase message =
    sendOnStream c st (Req_PatchNode (Patch_NodeStatus \<lparr> ns_Phase = phase, ns_Message = message \<rparr>))"

section \<open>controller.go: the connection\<close>

definition ackType :: "Response \<Rightarrow> string" where
  "ackType r = ''*controlplanev1alpha1.EstablishSessionResponse_'' @
    (case r of Resp_Acknowledge _ \<Rightarrow> ''Acknowledge'' | Resp_Event _ \<Rightarrow> ''Event'' | Resp_Error _ _ \<Rightarrow> ''Error''
     | Resp_unset \<Rightarrow> [])"

text \<open>One attempt to connect. The session id it was last acknowledged with stays with the closure.\<close>

definition connectOnce ::
  "('q, 's) Controller \<Rightarrow> Node \<Rightarrow> int64 \<times> 's \<Rightarrow> (int64 \<times> 's) \<times> nat result" where
  "connectOnce c node x =
    (case x of (sessionID, s) \<Rightarrow>
    (case co_Open c s of
       (s, Inl err) \<Rightarrow> ((sessionID, s), Inl (wrapf ''open stream'' err))
     | (s, Inr stream) \<Rightarrow>
    (case co_Send c s stream (Req_Connect sessionID node) of
       (s, Inl err) \<Rightarrow> ((sessionID, s), Inl (wrapf ''send ConnectionRequest'' err))
     | (s, Inr _) \<Rightarrow>
    (case co_Recv c s stream of
       (s, Inl err) \<Rightarrow> ((sessionID, s), Inl (wrapf ''await acknowledgement'' err))
     | (s, Inr resp) \<Rightarrow>
    (case GetAcknowledge resp of
       None \<Rightarrow> ((sessionID, s), Inl (New (''first response was not a ConnectionResponse: '' @ ackType resp)))
     | Some ack \<Rightarrow>
       if ack \<noteq> sessionID
       then ((ack, fst (session_Save (co_host c) (co_temp c) (co_SessionIDFile c) ack s)), Inr stream)
       else ((sessionID, s), Inr stream))))))"

definition connect ::
  "('q, 's) Controller \<Rightarrow> Node \<Rightarrow> 's \<Rightarrow> 's \<times> nat result" where
  "connect c node s =
    (let sessionID = (case session_Load (co_host c) (co_SessionIDFile c) s of Inr i \<Rightarrow> i | Inl _ \<Rightarrow> 0)
     in case co_Retry c (connectOnce c node) (sessionID, s) of ((_, s), r) \<Rightarrow> (s, r))"

section \<open>controller.go: the reader\<close>

definition dispatch :: "('q, 's) Controller \<Rightarrow> ('q, 's, 'm) cst_scheme \<Rightarrow> Event \<Rightarrow> ('q, 's, 'm) cst_scheme" where
  "dispatch c st event =
    (case ev_Sandbox event of
       None \<Rightarrow> st
     | Some sandbox \<Rightarrow>
       (case indexer_Put (ct_indexer st) sandbox of
          (i, True) \<Rightarrow> st\<lparr>ct_indexer := i, ct_queue := wq_Add (co_queue c) (ct_queue st) (GetId sandbox)\<rparr>
        | (i, False) \<Rightarrow> st\<lparr>ct_indexer := i\<rparr>))"

definition onResponse :: "('q, 's) Controller \<Rightarrow> ('q, 's, 'm) cst_scheme \<Rightarrow> Response \<Rightarrow> ('q, 's, 'm) cst_scheme" where
  "onResponse c st resp = (case resp of Resp_Event event \<Rightarrow> dispatch c st event | _ \<Rightarrow> st)"

text \<open>The loop ends when the stream does; a stream that never ends keeps it from returning.\<close>

partial_function (option) readLoop ::
  "('q, 's) Controller \<Rightarrow> nat \<Rightarrow> ('q, 's) cst \<Rightarrow> ('q, 's) cst option" where
  "readLoop c stream st =
    (let x = co_Recv c (ct_s st) stream; st1 = st\<lparr>ct_s := fst x\<rparr> in
     if isOk (snd x) then readLoop c stream (onResponse c st1 (projr (snd x))) else Some st1)"

partial_function (option) runLoop ::
  "('q, 's) Controller \<Rightarrow> Node \<Rightarrow> ('q, 's) cst \<Rightarrow> (('q, 's) cst \<times> unit result) option" where
  "runLoop c node st =
    (if co_ctxErr c (ct_s st) then Some (st, Inr ())
     else let x = connect c node (ct_s st); st1 = st\<lparr>ct_s := fst x\<rparr> in
       if \<not> isOk (snd x) then
         if co_ctxErr c (ct_s st1) then Some (st1, Inr ())
         else Some (st1, Inl (wrapf ''controller: establish session'' (projl (snd x))))
       else Option.bind (readLoop c (projr (snd x)) (setStream (Some (projr (snd x))) st1)) (\<lambda>st2.
         let st3 = setStream None st2 in
         if co_ctxErr c (ct_s st3) then Some (st3, Inr ()) else runLoop c node st3))"

text \<open>The calling goroutine of \<open>Run\<close>: the queue is shut down on every way out of the loop.\<close>

definition Run :: "('q, 's) Controller \<Rightarrow> ('q, 's) cst \<Rightarrow> (('q, 's) cst \<times> unit result) option" where
  "Run c st =
    (case co_agent c of
       None \<Rightarrow> Some (st, Inl (New ''controller: agent is not set; call SetAgent before Run''))
     | Some buildNode \<Rightarrow>
    (case buildNode (ct_s st) of
       (s, Inl err) \<Rightarrow> Some (st\<lparr>ct_s := s\<rparr>, Inl (wrapf ''controller: build node identity'' err))
     | (s, Inr node) \<Rightarrow>
       map_option (\<lambda>(st, r). (st\<lparr>ct_queue := wq_ShutDown (co_queue c) (ct_queue st)\<rparr>, r))
         (runLoop c node (st\<lparr>ct_s := s\<rparr>))))"

section \<open>controller.go: the worker\<close>

definition processItem ::
  "('q, 's) Controller \<Rightarrow> ('q, 's, 'm) cst_scheme \<Rightarrow> string \<Rightarrow> ('q, 's, 'm) cst_scheme \<times> unit result" where
  "processItem c st ident =
    (case indexer_Get (ct_indexer st) ident of
       None \<Rightarrow> (st, Inr ())
     | Some stored \<Rightarrow>
    (case co_Reconcile c stored (ct_s st) of
       (s, Inl err) \<Rightarrow> (st\<lparr>ct_s := s\<rparr>, Inl (wrapf ''reconcile'' err))
     | (s, Inr updated) \<Rightarrow>
       if stored = updated then (st\<lparr>ct_s := s\<rparr>, Inr ())
       else bindr (onErr (wrapf ''send update'') (sendUpdate c (st\<lparr>ct_s := s\<rparr>) updated)) (\<lambda>st _.
         (st\<lparr>ct_indexer := fst (indexer_Put (ct_indexer st) updated)\<rparr>, Inr ()))))"

definition markFailed ::
  "('q, 's) Controller \<Rightarrow> ('q, 's, 'm) cst_scheme \<Rightarrow> string \<Rightarrow> goerr \<Rightarrow> ('q, 's, 'm) cst_scheme" where
  "markFailed c st ident reconcileErr =
    (case indexer_Get (ct_indexer st) ident of
       None \<Rightarrow> st
     | Some stored \<Rightarrow>
       fst (sendUpdate c st (stored\<lparr>sb_Status := Some \<lparr> ss_Phase = PHASE_FAILED, ss_Message = Error reconcileErr \<rparr>\<rparr>)))"

text \<open>What \<open>processNext\<close> does with the outcome of an item, up to the deferred \<open>Done\<close>.\<close>

definition settle ::
  "('q, 's) Controller \<Rightarrow> ('q, 's, 'm) cst_scheme \<Rightarrow> string \<Rightarrow> unit result \<Rightarrow> ('q, 's, 'm) cst_scheme" where
  "settle c st ident r =
    (let Q = co_queue c;
         st1 = (case r of
            Inl err \<Rightarrow>
              if wq_NumRequeues Q (ct_queue st) ident < co_MaxRetries c
              then st\<lparr>ct_queue := wq_AddRateLimited Q (ct_queue st) ident\<rparr>
              else (let st1 = markFailed c st ident err in st1\<lparr>ct_queue := wq_Forget Q (ct_queue st1) ident\<rparr>)
          | Inr _ \<Rightarrow> st\<lparr>ct_queue := wq_Forget Q (ct_queue st) ident\<rparr>)
     in st1\<lparr>ct_queue := wq_Done Q (ct_queue st1) ident\<rparr>)"

definition processNext :: "('q, 's) Controller \<Rightarrow> ('q, 's, 'm) cst_scheme \<Rightarrow> ('q, 's, 'm) cst_scheme \<times> bool" where
  "processNext c st =
    (case wq_Get (co_queue c) (ct_queue st) of
       None \<Rightarrow> (st, False)
     | Some (ident, q) \<Rightarrow>
       (case processItem c (st\<lparr>ct_queue := q\<rparr>) ident of (st1, r) \<Rightarrow> (settle c st1 ident r, True)))"

partial_function (option) runWorker :: "('q, 's) Controller \<Rightarrow> ('q, 's) cst \<Rightarrow> ('q, 's) cst option" where
  "runWorker c st =
    (let x = processNext c st in if snd x then runWorker c (fst x) else Some (fst x))"

section \<open>resync.go\<close>

definition resyncPageSize :: int where
  "resyncPageSize = 1000"

definition resyncMaxPages :: nat where
  "resyncMaxPages = 100"

definition resyncStartupJitterCap :: int64 where
  "resyncStartupJitterCap = 30 * 1000000000"

definition resyncRow :: "('q, 's) Controller \<Rightarrow> Sandbox \<Rightarrow> ('q, 's, 'm) cst_scheme \<Rightarrow> ('q, 's, 'm) cst_scheme" where
  "resyncRow c sb st =
    (if sb_Intent sb = None then st
     else case indexer_Put (ct_indexer st) sb of
       (i, True) \<Rightarrow> st\<lparr>ct_indexer := i, ct_queue := wq_Add (co_queue c) (ct_queue st) (GetId sb)\<rparr>
     | (i, False) \<Rightarrow> st\<lparr>ct_indexer := i\<rparr>)"

text \<open>The loop over pages, with the number of pages left.\<close>

fun resyncPages ::
  "('q, 's) Controller \<Rightarrow> string \<Rightarrow> nat \<Rightarrow> string \<Rightarrow> ('q, 's, 'm) cst_scheme \<Rightarrow> ('q, 's, 'm) cst_scheme" where
  "resyncPages c nodeID 0 token st = st"
| "resyncPages c nodeID (Suc n) token st =
    (case co_List c (ct_s st) \<lparr> lq_NodeId = nodeID, lq_NewestFirst = True, lq_PageSize = resyncPageSize,
         lq_ContinuationToken = token \<rparr> of
       (s, Inl _) \<Rightarrow> st\<lparr>ct_s := s\<rparr>
     | (s, Inr (sandboxes, token')) \<Rightarrow>
       (let st1 = fold (resyncRow c) sandboxes (st\<lparr>ct_s := s\<rparr>) in
        if token' = [] then st1 else resyncPages c nodeID n token' st1))"

definition resync :: "('q, 's) Controller \<Rightarrow> string \<Rightarrow> ('q, 's, 'm) cst_scheme \<Rightarrow> ('q, 's, 'm) cst_scheme" where
  "resync c nodeID st = resyncPages c nodeID resyncMaxPages [] st"

text \<open>The jitter of the first pass; \<open>rnd\<close> is \<open>rand.Int64N\<close>.\<close>

definition startupJitter :: "(int64 \<Rightarrow> int64) \<Rightarrow> int64 \<Rightarrow> int64" where
  "startupJitter rnd interval =
    (let upper = min (sgn interval * (\<bar>interval\<bar> div 4)) resyncStartupJitterCap
     in if upper \<le> 0 then 0 else rnd (wrap64 (upper + 1)))"

end
