(* ===== verification/Atomic_File.thy ===== *)
theory Atomic_File
  imports Snapshot_Store
begin

text \<open>
  What code that replaces a file through a temporary one relies on: the locale \<open>temp_dir\<close> adds to a file
  system that a written file holds what was written, and that \<open>os.CreateTemp\<close>, the parameter \<open>temp\<close>, creates
  a file other than the one to be replaced.
\<close>

locale temp_dir = file_system h fsv
  for h :: "('s, 'c) host" and fsv +
  fixes temp :: "'s \<Rightarrow> string \<Rightarrow> string \<Rightarrow> 's \<times> string result" and path :: string
  assumes read_back: "fsv w p = Some c \<Longrightarrow> h_ReadFile h w p = Inr c"
    and write_frame: "q \<noteq> p \<Longrightarrow> fsv (fst (h_WriteFile h w p c)) q = fsv w q"
    and write_ok: "isOk (snd (h_WriteFile h w p c)) \<Longrightarrow> fsv (fst (h_WriteFile h w p c)) p = Some c"
    and chmod_frame: "fsv (fst (h_Chmod h w p m)) q = fsv w q"
    and temp_new: "temp w d pat = (w', Inr p) \<Longrightarrow> p \<noteq> path"
    and temp_frame: "\<lbrakk> temp w d pat = (w', r); r \<noteq> Inr q \<rbrakk> \<Longrightarrow> fsv w' q = fsv w q"
begin

text \<open>The last step: the temporary file takes the place of the other.\<close>

lemma rename_publishes:
  assumes "p \<noteq> path" "fsv w p = Some c" "h_Rename h w p path = (w', Inr u)"
  shows "fsv w' path = Some c" "\<lbrakk> q \<noteq> path; q \<noteq> p \<rbrakk> \<Longrightarrow> fsv w' q = fsv w q"
  using rename_ok [of w p path] assms by simp_all

lemma rename_refused: "h_Rename h w p path = (w', Inl e) \<Longrightarrow> fsv w' q = fsv w q"
  using rename_err [of w p path q] by simp

end

end
