(* ===== verification/Microvm_Provider.thy ===== *)
theory Microvm_Provider
  imports Firecracker
begin

text \<open>
  What the microVM provider guarantees: where a VM's files are, what every operation does to the index of
  live VMs, that a restarted daemon gets back the handle it had, that a snapshot leaves the VM in the
  state it found it in, and that the waiting loops succeed whenever the thing waited for happens in time.
\<close>

section \<open>Paths\<close>

lemma id_char_plain: "vmIDPattern i \<Longrightarrow> plain_comp i"
  by (auto simp: vmIDPattern_def plain_comp_def list_all_iff id_char_def)

definition vmRoot :: "'w firecracker \<Rightarrow> string" where
  "vmRoot f = filepath_Join [op_ChrootBaseDir (f_options f), execName f]"

lemma vmDir_under:
  "\<lbrakk> vmIDPattern i; op_ChrootBaseDir (f_options f) \<noteq> [] \<rbrakk> \<Longrightarrow> vmDir f i = under (vmRoot f) i"
  using Join_app_snoc [of "op_ChrootBaseDir (f_options f)" i "[execName f]"] id_char_plain [of i]
  by (simp add: vmDir_def vmRoot_def)

lemma Clean_kept: "\<exists>r acc. Clean p = path_of r acc \<and> (\<forall>a\<in>set acc. kept_comp a)"
  using clean_fold_kept [of "[]" "splitOn CHR ''/'' p" "rooted p"] splitOn_pieces [of _ "CHR ''/''" p]
  unfolding Clean_def by (metis empty_iff list.set(1))

section \<open>The index\<close>

text \<open>The contract of the index, as a map from ids to handles: what an entry says of its VM is what the
  provider's paths say for its id.\<close>

definition vm_ok :: "'w firecracker \<Rightarrow> string \<Rightarrow> firecrackerVM \<Rightarrow> bool" where
  "vm_ok f i vm \<longleftrightarrow> vmIDPattern i \<and> fv_id vm = i \<and> fv_vmDir vm = vmDir f i \<and> fv_jailRoot vm = jailRoot f i
    \<and> fv_client vm = filepath_Join [jailRoot f i, apiSocketFile]"

definition index_inv :: "'w firecracker \<Rightarrow> vms \<Rightarrow> bool" where
  "index_inv f vms \<longleftrightarrow> distinct (map fst vms) \<and> (\<forall>(i, vm)\<in>set vms. vm_ok f i vm)"

lemma attach_ok: "\<lbrakk> attach f w i = Inr vm; vmIDPattern i \<rbrakk> \<Longrightarrow> vm_ok f i vm"
  by (auto simp: attach_def vm_ok_def localclient_New_def Let_def split: sum.splits if_splits)

lemma indexInsert_map: "map_of (indexInsert vm vms) = (map_of vms)(fv_id vm \<mapsto> vm)"
  by (simp add: indexInsert_def update_conv')

lemma indexInsert_inv:
  assumes "index_inv f vms" and "vm_ok f i vm"
  shows "index_inv f (indexInsert vm vms)"
proof -
  have d: "distinct (map fst (indexInsert vm vms))"
    using assms(1) by (simp add: indexInsert_def index_inv_def distinct_update)
  have "vm_ok f j v" if "(j, v) \<in> set (indexInsert vm vms)" for j v
  proof -
    have "map_of (indexInsert vm vms) j = Some v"
      using d that by simp
    then show ?thesis
      using assms unfolding indexInsert_map index_inv_def
      by (auto simp: vm_ok_def split: if_splits dest!: map_of_SomeD)
  qed
  with d show ?thesis by (auto simp: index_inv_def)
qed

lemma delete_inv: "index_inv f vms \<Longrightarrow> index_inv f (AList.delete i vms)"
  by (auto simp: index_inv_def distinct_map_filter AList.delete_eq)

lemma delete_map: "map_of (AList.delete i vms) = (map_of vms)(i := None)"
  by (rule delete_conv')

text \<open>What the two ways to start a VM hand to the registration.\<close>

lemma spawnFresh_ok:
  "spawnFresh f input w = (w', Inr (inp, c))
   \<Longrightarrow> ri_id inp = ci_ID input \<and> c = filepath_Join [jailRoot f (ci_ID input), apiSocketFile]
     \<and> ri_networkIndex inp = nsh_Index (ci_Network input)"
  by (cases "vsockEndpoint (jailRoot f (ci_ID input)) input")
    (auto simp: spawnFresh_def prepareChroot_def result_simps localclient_New_def)

lemma spawnRestored_ok:
  "spawnRestored f input ref w = (w', Inr (inp, c))
   \<Longrightarrow> ri_id inp = li_ID input \<and> c = filepath_Join [jailRoot f (li_ID input), apiSocketFile]
     \<and> ri_networkIndex inp = nsh_Index (li_Network input)"
  by (auto simp: spawnRestored_def prepareChroot_def result_simps localclient_New_def Let_def split: prod.splits)

text \<open>The effect of an operation that starts a VM under the id \<open>i\<close>.\<close>

definition started :: "'w firecracker \<Rightarrow> string \<Rightarrow> vms \<Rightarrow> (vms \<times> 'w) \<times> firecrackerVM result \<Rightarrow> bool" where
  "started f i vms x \<longleftrightarrow> (case snd x of
     Inl _ \<Rightarrow> fst (fst x) = vms
   | Inr vm \<Rightarrow> vm_ok f i vm \<and> fst (fst x) = indexInsert vm vms)"

lemma registerVM_started:
  assumes "ri_id inp = i" and "vmIDPattern i" and "c = filepath_Join [jailRoot f i, apiSocketFile]"
  shows "started f i vms (registerVM f (vms, w) inp c)"
  using assms by (auto simp: started_def registerVM_def vm_ok_def Let_def split: sum.split prod.split)

lemma started_spawn:
  assumes "\<And>w' inp c. x = (w', Inr (inp, c)) \<Longrightarrow> ri_id inp = i \<and> c = filepath_Join [jailRoot f i, apiSocketFile]"
    and "vmIDPattern i"
  shows "started f i vms (bindr (withIndex vms x) (\<lambda>s (inp, c). registerVM f s inp c))"
proof (cases "snd x")
  case (Inl e)
  then show ?thesis by (cases x) (simp add: withIndex_def started_def)
next
  case (Inr a)
  then show ?thesis
    using assms by (cases x; cases a) (auto simp: withIndex_def intro!: registerVM_started)
qed

lemma CreateMicroVM_started: "started f (ci_ID input) vms (CreateMicroVM f (vms, w) input)"
proof (cases "vmIDPattern (ci_ID input)")
  case True
  then show ?thesis
    using attach_ok [OF _ True, of f w] started_spawn [of "spawnFresh f input w" "ci_ID input" f vms]
      spawnFresh_ok [of f input w]
    by (cases "attach f w (ci_ID input)") (auto simp: CreateMicroVM_def started_def [of f _ _ "(_, Inr _)"])
qed (simp add: CreateMicroVM_def started_def)

lemma LoadSnapshot_started:
  "\<exists>i. started f i vms (LoadSnapshot f (vms, w) input)
     \<and> (\<forall>inp. input = Some inp \<longrightarrow> i = li_ID inp)"
proof (cases "\<exists>inp ref. input = Some inp \<and> li_LocalReference inp = Some ref \<and> vmIDPattern (li_ID inp)")
  case True
  then obtain inp ref where i: "input = Some inp" "li_LocalReference inp = Some ref" "vmIDPattern (li_ID inp)"
    by blast
  have "started f (li_ID inp) vms (LoadSnapshot f (vms, w) input)"
    using attach_ok [OF _ i(3), of f w] started_spawn [of "spawnRestored f inp ref w" "li_ID inp" f vms]
      spawnRestored_ok [of f inp ref w] i
    by (cases "attach f w (li_ID inp)")
      (auto simp: LoadSnapshot_def started_def [of f _ _ "(_, Inr _)"] started_def [of f _ _ "(_, Inl _)"])
  then show ?thesis using i by blast
next
  case False
  then show ?thesis
    by (cases input) (auto simp: LoadSnapshot_def started_def split: option.split)
qed

lemma recoverEntries_inv: "index_inv f vms \<Longrightarrow> index_inv f (recoverEntries f w es vms)"
  by (induction f w es vms rule: recoverEntries.induct)
    (auto split: sum.split dest: attach_ok intro: indexInsert_inv)

lemma recoverEntries_map:
  "\<exists>\<rho>. map_of (recoverEntries f w es vms) = map_of vms ++ \<rho>
     \<and> (\<forall>i vm. \<rho> i = Some vm \<longrightarrow> vmIDPattern i \<and> attach f w i = Inr vm)"
proof (induction f w es vms rule: recoverEntries.induct)
  case (2 f w i isDir es vms)
  show ?case
  proof (cases "isDir \<and> vmIDPattern i \<and> isOk (attach f w i)")
    case True
    then obtain vm where vm: "attach f w i = Inr vm" by (auto simp: isOk_iff)
    with True 2(4) [OF _ _ vm] obtain \<rho> where
      r: "map_of (recoverEntries f w es (indexInsert vm vms)) = map_of (indexInsert vm vms) ++ \<rho>"
        "\<forall>j v. \<rho> j = Some v \<longrightarrow> vmIDPattern j \<and> attach f w j = Inr v" by auto
    have "fv_id vm = i" using attach_ok [OF vm] True by (simp add: vm_ok_def)
    then have "map_of (indexInsert vm vms) ++ \<rho> = map_of vms ++ ([i \<mapsto> vm] ++ \<rho>)"
      by (simp add: indexInsert_map map_add_assoc)
    moreover have "\<forall>j v. ([i \<mapsto> vm] ++ \<rho>) j = Some v \<longrightarrow> vmIDPattern j \<and> attach f w j = Inr v"
      using r(2) True vm by (auto simp: map_add_def split: option.splits if_splits)
    ultimately show ?thesis
      using True vm r(1) by (intro exI [of _ "[i \<mapsto> vm] ++ \<rho>"]) simp
  next
    case False
    then show ?thesis using 2(1,2,3) by (cases "attach f w i") auto
  qed
qed (auto intro: exI [of _ Map.empty])

section \<open>The provider as a machine\<close>

text \<open>The operations of the interface \<open>Provider\<close> that change the index, run in any order; between two of
  them the world may change in any way, and a restart empties the index.\<close>

datatype provider_op =
    OpCreate CreateMicroVMInput
  | OpLoad "LoadSnapshotInput option"
  | OpDelete string
  | OpRecover

fun provider_run :: "'w firecracker \<Rightarrow> vms \<times> 'w \<Rightarrow> provider_op \<Rightarrow> (vms \<times> 'w) \<times> unit result" where
  "provider_run f s (OpCreate input) = bindr (CreateMicroVM f s input) (\<lambda>s _. (s, Inr ()))"
| "provider_run f s (OpLoad input) = bindr (LoadSnapshot f s input) (\<lambda>s _. (s, Inr ()))"
| "provider_run f s (OpDelete i) = DeleteMicroVM f s i"
| "provider_run f s OpRecover = Recover f s"

inductive provider_reach :: "'w firecracker \<Rightarrow> vms \<times> 'w \<Rightarrow> bool" for f where
  boot: "provider_reach f ([], w)"
| op: "provider_reach f s \<Longrightarrow> provider_reach f (fst (provider_run f s x))"
| env: "provider_reach f (vms, w) \<Longrightarrow> provider_reach f (vms, w')"
| restart: "provider_reach f (vms, w) \<Longrightarrow> provider_reach f ([], w)"

text \<open>The abstract index: a map that starting a VM extends at its id, that a delete narrows at its id,
  and that a recovery extends with VMs found on disk; an operation that fails leaves it, a failed delete of
  a present VM excepted.\<close>

definition opens :: "'w firecracker \<Rightarrow> string \<Rightarrow> bool \<Rightarrow> (string \<rightharpoonup> firecrackerVM) \<Rightarrow> (string \<rightharpoonup> firecrackerVM) \<Rightarrow> bool" where
  "opens f i ok m m' \<longleftrightarrow> (if ok then \<exists>vm. vm_ok f i vm \<and> m' = m(i \<mapsto> vm) else m' = m)"

fun index_spec ::
  "'w firecracker \<Rightarrow> provider_op \<Rightarrow> bool \<Rightarrow> (string \<rightharpoonup> firecrackerVM) \<Rightarrow> (string \<rightharpoonup> firecrackerVM) \<Rightarrow> bool" where
  "index_spec f (OpCreate input) ok m m' = opens f (ci_ID input) ok m m'"
| "index_spec f (OpLoad input) ok m m' =
    (case input of None \<Rightarrow> \<not> ok \<and> m' = m | Some inp \<Rightarrow> opens f (li_ID inp) ok m m')"
| "index_spec f (OpDelete i) ok m m' \<longleftrightarrow> m' = m(i := None) \<and> (ok \<longrightarrow> i \<in> dom m)"
| "index_spec f OpRecover ok m m' \<longleftrightarrow> (if ok
    then \<exists>\<rho>. m' = m ++ \<rho> \<and> (\<forall>i vm. \<rho> i = Some vm \<longrightarrow> vm_ok f i vm) else m' = m)"

lemma started_opens:
  assumes "started f i vms x"
  shows "opens f i (isOk (snd x)) (map_of vms) (map_of (fst (fst x)))"
  using assms by (cases "snd x") (auto simp: started_def opens_def indexInsert_map vm_ok_def)

lemma started_inv: "\<lbrakk> started f i vms x; index_inv f vms \<rbrakk> \<Longrightarrow> index_inv f (fst (fst x))"
  by (auto simp: started_def intro: indexInsert_inv split: sum.splits)

lemma bindr_unit: "fst (bindr x (\<lambda>s _. (s, Inr ()))) = fst x" "isOk (snd (bindr x (\<lambda>s _. (s, Inr ())))) = isOk (snd x)"
  by (cases x; cases "snd x"; simp)+

lemma DeleteMicroVM_index:
  "fst (fst (DeleteMicroVM f (vms, w) i)) = (if i \<in> dom (map_of vms) then AList.delete i vms else vms)"
  "isOk (snd (DeleteMicroVM f (vms, w) i)) \<Longrightarrow> i \<in> dom (map_of vms)"
  by (cases "map_of vms i"; auto simp: DeleteMicroVM_def withIndex_def split: prod.split)+

lemma Recover_index:
  "fst (Recover f (vms, w)) = (vms, w) \<or> (\<exists>es. Recover f (vms, w) = ((recoverEntries f w es vms, w), Inr ()))"
  by (cases "h_ReadDir (f_host f) w (filepath_Join [op_ChrootBaseDir (f_options f), execName f])")
    (auto simp: Recover_def)

lemma recoverEntries_spec:
  "\<exists>\<rho>. map_of (recoverEntries f w es vms) = map_of vms ++ \<rho> \<and> (\<forall>i vm. \<rho> i = Some vm \<longrightarrow> vm_ok f i vm)"
  using recoverEntries_map [of f w es vms] attach_ok [of f w] by metis

lemma LoadSnapshot_None: "LoadSnapshot f (vms, w) None = ((vms, w), Inl (New ''LoadSnapshotInput.LocalReference is required''))"
  by (simp add: LoadSnapshot_def)

lemma Create_spec:
  "index_spec f (OpCreate input) (isOk (snd (CreateMicroVM f (vms, w) input))) (map_of vms)
     (map_of (fst (fst (CreateMicroVM f (vms, w) input))))"
  unfolding index_spec.simps by (rule started_opens [OF CreateMicroVM_started])

lemma Load_spec:
  "index_spec f (OpLoad input) (isOk (snd (LoadSnapshot f (vms, w) input))) (map_of vms)
     (map_of (fst (fst (LoadSnapshot f (vms, w) input))))"
proof (cases input)
  case (Some inp)
  then have "started f (li_ID inp) vms (LoadSnapshot f (vms, w) input)"
    using LoadSnapshot_started [of f vms w input] by blast
  then show ?thesis using started_opens Some by simp
qed (simp add: LoadSnapshot_None)

lemma Delete_spec:
  "index_spec f (OpDelete i) (isOk (snd (DeleteMicroVM f (vms, w) i))) (map_of vms)
     (map_of (fst (fst (DeleteMicroVM f (vms, w) i))))"
proof (cases "map_of vms i")
  case None
  then show ?thesis by (simp add: DeleteMicroVM_def fun_upd_idem)
next
  case (Some vm)
  then show ?thesis
    by (cases "destroy f vm w") (auto simp: DeleteMicroVM_def withIndex_def delete_map)
qed

lemma Recover_spec:
  "index_spec f OpRecover (isOk (snd (Recover f (vms, w)))) (map_of vms) (map_of (fst (fst (Recover f (vms, w)))))"
proof -
  consider "fst (Recover f (vms, w)) = (vms, w)" | es where "Recover f (vms, w) = ((recoverEntries f w es vms, w), Inr ())"
    using Recover_index [of f vms w] by blast
  then show ?thesis
  proof cases
    case 1
    then show ?thesis by (auto intro: exI [of _ Map.empty])
  next
    case 2
    then show ?thesis using recoverEntries_spec [of f w es vms] by simp
  qed
qed

lemma provider_run_spec:
  "index_spec f x (isOk (snd (provider_run f (vms, w) x))) (map_of vms) (map_of (fst (fst (provider_run f (vms, w) x))))"
proof (cases x)
  case (OpDelete i)
  show ?thesis unfolding OpDelete provider_run.simps by (rule Delete_spec)
next
  case OpRecover
  show ?thesis unfolding OpRecover provider_run.simps by (rule Recover_spec)
next
  case (OpCreate input)
  show ?thesis
    unfolding OpCreate provider_run.simps bindr_unit by (rule Create_spec)
next
  case (OpLoad input)
  show ?thesis
    unfolding OpLoad provider_run.simps bindr_unit by (rule Load_spec)
qed

lemma provider_run_inv:
  assumes "index_inv f vms"
  shows "index_inv f (fst (fst (provider_run f (vms, w) x)))"
proof (cases x)
  case (OpCreate input)
  show ?thesis
    unfolding OpCreate provider_run.simps bindr_unit
    by (rule started_inv [OF CreateMicroVM_started assms])
next
  case (OpLoad input)
  obtain i where "started f i vms (LoadSnapshot f (vms, w) input)"
    using LoadSnapshot_started [of f vms w input] by (elim exE conjE)
  from started_inv [OF this assms] show ?thesis
    unfolding OpLoad provider_run.simps bindr_unit .
next
  case (OpDelete i)
  show ?thesis
    unfolding OpDelete provider_run.simps DeleteMicroVM_index(1) by (simp add: assms delete_inv)
next
  case OpRecover
  show ?thesis
    using Recover_index [of f vms w] by (auto simp: OpRecover assms recoverEntries_inv [OF assms])
qed

lemma provider_reach_inv: "provider_reach f s \<Longrightarrow> index_inv f (fst s)"
proof (induction rule: provider_reach.induct)
  case (op s x)
  show ?case using provider_run_inv [OF op.IH, of "snd s" x] unfolding prod.collapse .
qed (auto simp: index_inv_def)

section \<open>The network index\<close>

lemma NextNetNSIndex_max:
  "fold (\<lambda>(_, vm) next. if fv_networkIndex vm + 1 > next then fv_networkIndex vm + 1 else next) vms n
    = Max (insert n ((\<lambda>(_, vm). fv_networkIndex vm + 1) ` set vms))"
proof (induction vms arbitrary: n)
  case (Cons e vms)
  obtain i vm where e: "e = (i, vm)" by fastforce
  show ?case
    unfolding fold_Cons o_apply Cons.IH e
    by (simp add: insert_commute max_def Max_insert2 del: Max_insert)
      (cases "vms = []"; auto simp: max_def)
qed simp

section \<open>Waiting\<close>

text \<open>The world after some ticks of the clock.\<close>

fun after :: "('w, 'c) host \<Rightarrow> nat \<Rightarrow> 'w \<Rightarrow> 'w" where
  "after h 0 w = w"
| "after h (Suc k) w = after h k (fst (h_Tick h w))"

text \<open>The context of the caller stays alive for that many ticks.\<close>

fun ticks :: "('w, 'c) host \<Rightarrow> nat \<Rightarrow> 'w \<Rightarrow> bool" where
  "ticks h 0 w = True"
| "ticks h (Suc k) w = (snd (h_Tick h w) = None \<and> ticks h k (fst (h_Tick h w)))"

definition ready_at :: "'w firecracker \<Rightarrow> string \<Rightarrow> (string option \<Rightarrow> bool) \<Rightarrow> 'w \<Rightarrow> bool" where
  "ready_at f c ready w = (case api_Describe (f_api f) w c of Inr st \<Rightarrow> ready st | Inl _ \<Rightarrow> False)"

lemma waitForInstance_ready:
  "ready_at f c ready w \<Longrightarrow> waitForInstance f c ready n w = (w, Inr ())"
  by (subst waitForInstance.simps) (simp add: ready_at_def Let_def)

lemma waitForInstance_tick:
  "\<lbrakk> \<not> ready_at f c ready w; snd (h_Tick (f_host f) w) = None \<rbrakk>
   \<Longrightarrow> waitForInstance f c ready (Suc n) w = waitForInstance f c ready n (fst (h_Tick (f_host f) w))"
  by (subst waitForInstance.simps)
    (auto simp: ready_at_def Let_def select_tick_def split: prod.split)

lemma waitForInstance_expired:
  "\<not> ready_at f c ready w \<Longrightarrow> \<exists>e. waitForInstance f c ready 0 w = (w, Inl e)"
  by (subst waitForInstance.simps) (auto simp: ready_at_def Let_def select_tick_def)

lemma waitForInstance_live:
  "\<lbrakk> ticks (f_host f) n w; k \<le> n; ready_at f c ready (after (f_host f) k w);
     \<forall>j<k. \<not> ready_at f c ready (after (f_host f) j w) \<rbrakk>
   \<Longrightarrow> waitForInstance f c ready n w = (after (f_host f) k w, Inr ())"
proof (induction k arbitrary: n w)
  case 0
  then show ?case by (simp add: waitForInstance_ready)
next
  case (Suc k)
  then obtain m where m: "n = Suc m" "k \<le> m" by (cases n) auto
  let ?w = "fst (h_Tick (f_host f) w)"
  have "\<not> ready_at f c ready (after (f_host f) j ?w)" if "j < k" for j
    using Suc.prems(4) that by (metis Suc_less_eq after.simps(2))
  moreover have "\<not> ready_at f c ready w" using Suc.prems(4) by (metis after.simps(1) zero_less_Suc)
  ultimately show ?case
    using Suc.IH [of m ?w] Suc.prems m by (simp add: waitForInstance_tick)
qed

lemma waitForInstance_late:
  "\<lbrakk> ticks (f_host f) n w; \<forall>j\<le>n. \<not> ready_at f c ready (after (f_host f) j w) \<rbrakk>
   \<Longrightarrow> \<exists>e. waitForInstance f c ready n w = (after (f_host f) n w, Inl e)"
proof (induction n arbitrary: w)
  case 0
  then show ?case using waitForInstance_expired by simp
next
  case (Suc n)
  let ?w = "fst (h_Tick (f_host f) w)"
  have "\<not> ready_at f c ready (after (f_host f) j ?w)" if "j \<le> n" for j
    using Suc.prems(2) that by (metis Suc_le_mono after.simps(2))
  moreover have "\<not> ready_at f c ready w" using Suc.prems(2) by (metis after.simps(1) zero_le)
  ultimately show ?case
    using Suc.IH [of ?w] Suc.prems by (simp add: waitForInstance_tick)
qed

section \<open>The state of a VM across a snapshot\<close>

text \<open>What \<open>CreateSnapshot\<close> relies on: the API reports and changes the state of the instance behind its
  socket, and files and transports have nothing to do with it.\<close>

locale vm_api =
  fixes f :: "'w firecracker" and vmst :: "'w \<Rightarrow> string \<Rightarrow> string option"
  assumes describe: "api_Describe (f_api f) w c = Inr st \<Longrightarrow> st = vmst w c"
    and patch_ok: "isOk (snd (api_PatchVM (f_api f) w c t))
      \<Longrightarrow> vmst (fst (api_PatchVM (f_api f) w c t)) c
        = Some (if t = VMStatePaused then InstanceInfoStatePaused else InstanceInfoStateRunning)"
    and patch_err: "\<not> isOk (snd (api_PatchVM (f_api f) w c t)) \<Longrightarrow> vmst (fst (api_PatchVM (f_api f) w c t)) c = vmst w c"
    and snapshot_state: "vmst (fst (api_CreateSnapshot (f_api f) w c m p)) c = vmst w c"
    and other_state: "vmst (fst (h_MkdirAll (f_host f) w p md)) c = vmst w c"
      "vmst (fst (h_Chown (f_host f) w p u g)) c = vmst w c"
      "vmst (fst (h_RemoveAll (f_host f) w p)) c = vmst w c"
      "vmst (fst (newUUID (f_api f) w)) c = vmst w c"
      "vmst (tr_Close (f_api f) w tr) c = vmst w c"
begin

lemma instanceState_ok: "instanceState (f_api f) w vm = Inr st \<Longrightarrow> vmst w (fv_client vm) = Some st"
  by (auto simp: instanceState_def split: sum.splits option.splits dest: describe)

lemma Resume_state:
  "vmst (fst (Resume (f_api f) w vm)) (fv_client vm) \<in> {vmst w (fv_client vm), Some InstanceInfoStateRunning}"
  using patch_ok [of w "fv_client vm" VMStateResumed] patch_err [of w "fv_client vm" VMStateResumed]
  by (cases "isOk (snd (api_PatchVM (f_api f) w (fv_client vm) VMStateResumed))")
    (auto simp: Resume_def transitionVM_def VMStatePaused_def VMStateResumed_def split: sum.split)

lemma Resume_runs:
  assumes "isOk (snd (api_PatchVM (f_api f) w (fv_client vm) VMStateResumed))"
    and "isOk (instanceState (f_api f) w vm)"
  shows "vmst (fst (Resume (f_api f) w vm)) (fv_client vm) = Some InstanceInfoStateRunning"
  using patch_ok [OF assms(1)] assms(2) instanceState_ok [of w vm]
  by (auto simp: Resume_def transitionVM_def VMStatePaused_def VMStateResumed_def isOk_iff)

lemma Pause_state:
  "vmst (fst (Pause (f_api f) w vm)) (fv_client vm) =
    (if isOk (snd (Pause (f_api f) w vm)) then Some InstanceInfoStatePaused else vmst w (fv_client vm))"
  using patch_ok [of w "fv_client vm" VMStatePaused] patch_err [of w "fv_client vm" VMStatePaused]
    instanceState_ok [of w vm]
  by (auto simp: Pause_def transitionVM_def split: sum.split)

lemma dropVSock_state: "vmst (snd (dropVSock (f_api f) vm w)) c = vmst w c"
  by (simp add: dropVSock_def other_state split: option.split)

text \<open>Whether the API answers and obeys a resume, wherever the world stands.\<close>

definition resumable :: "firecrackerVM \<Rightarrow> bool" where
  "resumable vm \<longleftrightarrow> (\<forall>w. isOk (instanceState (f_api f) w vm)
     \<and> isOk (snd (api_PatchVM (f_api f) w (fv_client vm) VMStateResumed)))"

lemma takeSnapshot_state:
  assumes x_def: "x = takeSnapshot f vm ref paused w"
  shows "\<not> paused \<Longrightarrow> vmst (snd (fst x)) (fv_client vm) = vmst w (fv_client vm)"
    and "paused \<Longrightarrow> vmst (snd (fst x)) (fv_client vm) \<in> {vmst w (fv_client vm), Some InstanceInfoStateRunning}"
    and "\<lbrakk> paused; resumable vm \<rbrakk> \<Longrightarrow> vmst (snd (fst x)) (fv_client vm) = Some InstanceInfoStateRunning"
proof -
  obtain w1 r where a: "api_CreateSnapshot (f_api f) w (fv_client vm) (MemFilePath (lr_SnapshotID ref))
      (StateFilePath (lr_SnapshotID ref)) = (w1, r)" by fastforce
  obtain vm' w2 where d: "dropVSock (f_api f) vm w1 = (vm', w2)" by fastforce
  let ?e = "fst (h_RemoveAll (f_host f) w1 (filepath_Dir (lr_MemFilePath ref)))"
  have s: "vmst w1 (fv_client vm) = vmst w (fv_client vm)" "vmst w2 (fv_client vm) = vmst w (fv_client vm)"
    "vmst ?e (fv_client vm) = vmst w (fv_client vm)"
    using snapshot_state [of w "fv_client vm"] dropVSock_state [of vm w1 "fv_client vm"] a d
    by (simp_all add: other_state) (metis fst_conv snapshot_state snd_conv)+
  have x: "snd (fst x) = (let v = (if isOk r then w2 else ?e) in if paused then fst (Resume (f_api f) v vm) else v)"
    by (cases r) (simp_all add: x_def takeSnapshot_def a d Let_def)
  show "\<not> paused \<Longrightarrow> vmst (snd (fst x)) (fv_client vm) = vmst w (fv_client vm)"
    by (simp add: x s)
  show "paused \<Longrightarrow> vmst (snd (fst x)) (fv_client vm) \<in> {vmst w (fv_client vm), Some InstanceInfoStateRunning}"
    using Resume_state [of w2 vm] Resume_state [of ?e vm] by (simp add: x s Let_def)
  show "\<lbrakk> paused; resumable vm \<rbrakk> \<Longrightarrow> vmst (snd (fst x)) (fv_client vm) = Some InstanceInfoStateRunning"
    by (simp add: x Let_def Resume_runs resumable_def)
qed

definition state_kept :: "firecrackerVM \<Rightarrow> 'w \<Rightarrow> 'w \<Rightarrow> bool" where
  "state_kept vm w w' \<longleftrightarrow>
    (let st = vmst w (fv_client vm); st' = vmst w' (fv_client vm) in
     (st' = st \<or> st = Some InstanceInfoStateRunning \<and> st' = Some InstanceInfoStatePaused)
     \<and> (resumable vm \<longrightarrow> st' = st))"

lemma snapshot_inspect:
  assumes s: "vmst w2 (fv_client vm) = vmst w (fv_client vm)" and i: "instanceState (f_api f) w2 vm = Inr st"
  shows "state_kept vm w (snd (fst (
     if st = InstanceInfoStateRunning then
       (case Pause (f_api f) w2 vm of
          (w3, Inl err) \<Rightarrow> ((vm, fst (h_RemoveAll (f_host f) w3 dir)), Inl (g err))
        | (w3, Inr _) \<Rightarrow> takeSnapshot f vm localRef True w3)
     else takeSnapshot f vm localRef False w2)))"
proof (cases "st = InstanceInfoStateRunning")
  case True
  have r: "vmst w (fv_client vm) = Some InstanceInfoStateRunning"
    using instanceState_ok [OF i] s True by simp
  obtain w3 p where p: "Pause (f_api f) w2 vm = (w3, p)" by fastforce
  have w3: "vmst w3 (fv_client vm) = (if isOk p then Some InstanceInfoStatePaused else vmst w (fv_client vm))"
    using Pause_state [of w2 vm] s p by simp
  show ?thesis
    using takeSnapshot_state(2,3) [OF refl, where vm = vm and ref = localRef and paused = True and w = w3] w3 r
    by (cases p) (auto simp: True p state_kept_def other_state)
next
  case False
  then show ?thesis
    using takeSnapshot_state(1) [OF refl, where vm = vm and ref = localRef and paused = False and w = w2] s
    by (simp add: state_kept_def)
qed

lemma CreateSnapshot_state: "state_kept vm w (snd (fst (CreateSnapshot f (vm, w))))"
proof -
  obtain w0 u where u: "newUUID (f_api f) w = (w0, u)" by fastforce
  let ?ref = "localReferenceFor (fv_jailRoot vm) u"
  let ?dir = "filepath_Dir (lr_MemFilePath ?ref)"
  obtain w1 m where m: "h_MkdirAll (f_host f) w0 ?dir DirMode = (w1, m)" by fastforce
  obtain w2 o' where c: "h_Chown (f_host f) w1 ?dir (fv_jailUID vm) (fv_jailGID vm) = (w2, o')" by fastforce
  have s: "vmst w0 (fv_client vm) = vmst w (fv_client vm)" "vmst w1 (fv_client vm) = vmst w (fv_client vm)"
    "vmst w2 (fv_client vm) = vmst w (fv_client vm)"
    using other_state(4) [of w "fv_client vm"] other_state(1) [of w0 ?dir DirMode "fv_client vm"]
      other_state(2) [of w1 ?dir "fv_jailUID vm" "fv_jailGID vm" "fv_client vm"] u m c by simp_all
  show ?thesis
  proof (cases "isOk m \<and> isOk o' \<and> isOk (instanceState (f_api f) w2 vm)")
    case True
    then obtain st where "instanceState (f_api f) w2 vm = Inr st" by (auto simp: isOk_iff)
    with True show ?thesis
      using snapshot_inspect [OF s(3), of st ?dir "wrapf ''pause for snapshot''" ?ref]
      by (auto simp: CreateSnapshot_def MakeLocalReference_def u m c Let_def isOk_iff)
  next
    case False
    then have "vmst (snd (fst (CreateSnapshot f (vm, w)))) (fv_client vm) = vmst w (fv_client vm)"
      by (auto simp: CreateSnapshot_def MakeLocalReference_def u m c Let_def s other_state split: sum.splits)
    then show ?thesis by (simp add: state_kept_def Let_def)
  qed
qed

end

section \<open>Attaching again\<close>

lemma under_last: "CHR ''/'' \<notin> set c \<Longrightarrow> takeWhile (\<lambda>x. x \<noteq> CHR ''/'') (rev (under p c)) = rev c"
proof -
  assume c: "CHR ''/'' \<notin> set c"
  then have "takeWhile (\<lambda>x. x \<noteq> CHR ''/'') (rev c @ ys) = rev c @ takeWhile (\<lambda>x. x \<noteq> CHR ''/'') ys" for ys
    by (intro takeWhile_append2) auto
  from this [of "[]"] this [of "CHR ''/'' # _"] show ?thesis by (auto simp: under_def)
qed

lemma Clean_nonempty: "Clean p \<noteq> []"
proof -
  obtain r acc where c: "Clean p = path_of r acc" "\<forall>a\<in>set (rev acc). kept_comp a"
    using Clean_kept [of p] by auto
  show ?thesis
  proof (cases "acc = []")
    case False
    then show ?thesis using Join_kept [OF _ c(2)] by (simp add: c(1) path_of_def)
  qed (simp add: c(1) path_of_def)
qed

lemma filepath_Join_ne: "e \<noteq> [] \<Longrightarrow> filepath_Join (e # es) \<noteq> []"
  by (simp add: filepath_Join_nonempty Clean_nonempty)

lemmas vm_names = plain_comp_def vmConfigFile_def vmMetaFile_def

lemma vm_plain: "plain_comp vmConfigFile" "plain_comp vmMetaFile"
  by (simp_all add: vm_names)

lemma config_not_meta:
  assumes "op_ChrootBaseDir (f_options f) \<noteq> []"
  shows "filepath_Join [jailRoot f i, vmConfigFile] \<noteq> metaFilePath f i"
proof
  have d: "vmDir f i \<noteq> []" using assms by (simp add: vmDir_def filepath_Join_ne)
  then have j: "jailRoot f i \<noteq> []" by (simp add: jailRoot_def filepath_Join_ne)
  assume "filepath_Join [jailRoot f i, vmConfigFile] = metaFilePath f i"
  then have "under (filepath_Join [jailRoot f i]) vmConfigFile = under (filepath_Join [vmDir f i]) vmMetaFile"
    using Join_app_snoc [OF j, of vmConfigFile "[]"] Join_app_snoc [OF d, of vmMetaFile "[]"]
    by (simp add: metaFilePath_def vm_names)
  then have "rev vmConfigFile = rev vmMetaFile"
    using under_last [of vmConfigFile] under_last [of vmMetaFile] by (metis plain_comp_def vm_plain)
  then show False by (simp add: vm_names)
qed

text \<open>Files that keep what is written to them.\<close>

locale vm_files =
  fixes f :: "'w firecracker" and fsv :: "'w \<Rightarrow> string \<Rightarrow> fcontent option"
  assumes read_back: "fsv w p = Some c \<Longrightarrow> h_ReadFile (f_host f) w p = Inr c"
    and create_frame: "q \<noteq> p \<Longrightarrow> fsv (fst (h_Create (f_host f) w p m)) q = fsv w q"
    and write_ok: "isOk (snd (h_WriteFile (f_host f) w p c)) \<Longrightarrow> fsv (fst (h_WriteFile (f_host f) w p c)) q
      = (if q = p then Some c else fsv w q)"
begin

lemma writeMeta_ok:
  assumes "writeMeta f w i meta = (w', Inr u)"
  shows "fsv w' (metaFilePath f i) = Some (CMeta meta)" and "q \<noteq> metaFilePath f i \<Longrightarrow> fsv w' q = fsv w q"
proof -
  from assms obtain w1 v where c: "h_Create (f_host f) w (metaFilePath f i) 384 = (w1, Inr v)"
    and m: "h_WriteFile (f_host f) w1 (metaFilePath f i) (CMeta meta) = (w', Inr u)"
    by (auto simp: writeMeta_def result_simps)
  show "fsv w' (metaFilePath f i) = Some (CMeta meta)"
    using write_ok [of w1 "metaFilePath f i" "CMeta meta" "metaFilePath f i"] m by simp
  show "q \<noteq> metaFilePath f i \<Longrightarrow> fsv w' q = fsv w q"
    using write_ok [of w1 "metaFilePath f i" "CMeta meta" q] create_frame [of q "metaFilePath f i" w 384] m c
    by simp
qed

text \<open>The vsock path an attach reads back from the configuration is the one the VM was started with.\<close>

lemma readVsock_config:
  assumes "fsv w p = Some (CConfig cfg)" and "ci_Config input = cfg"
    and "\<And>c v. \<lbrakk> cfg = Some c; cf_Vsock c = Some v \<rbrakk> \<Longrightarrow> vs_UdsPath v \<noteq> Some []"
  shows "readVsockUDSPath (f_host f) w p jail = Inr (fst (vsockEndpoint jail input))"
  using read_back [OF assms(1)] assms(2,3)
  by (auto simp: readVsockUDSPath_def vsockEndpoint_def resolveVsockUDS_def zeroConfig_def split: option.splits)

lemma registered_attach:
  assumes r: "registerVM f (vms, w) inp c = ((vms', w'), Inr vm)"
    and c: "c = filepath_Join [jailRoot f (ri_id inp), apiSocketFile]"
    and m: "fsv w2 (metaFilePath f (ri_id inp)) = fsv w' (metaFilePath f (ri_id inp))"
    and l: "isOk (h_Stat (f_host f) w2 c)" "isOk (api_Describe (f_api f) w2 c)"
  shows "attach f w2 (ri_id inp) = Inr (vm\<lparr>fv_vsockUDS :=
    (case readVsockUDSPath (f_host f) w2 (filepath_Join [jailRoot f (ri_id inp), vmConfigFile]) (jailRoot f (ri_id inp))
     of Inl _ \<Rightarrow> [] | Inr p \<Rightarrow> p)\<rparr>)"
proof -
  let ?i = "ri_id inp"
  from r obtain pid u where "readPIDFile (f_host f) w (pidFilePath f ?i) = Inr pid"
    and w': "writeMeta f w ?i \<lparr> me_PID = pid, me_AgentVsockPort = ri_vsockPort inp,
                                me_NetworkIndex = ri_networkIndex inp \<rparr> = (w', Inr u)"
    and vm: "vm = \<lparr> fv_client = c, fv_vmDir = vmDir f ?i, fv_jailRoot = jailRoot f ?i,
        fv_id = ?i, fv_pid = pid, fv_networkIndex = ri_networkIndex inp,
        fv_jailUID = op_JailUID (f_options f), fv_jailGID = op_JailGID (f_options f),
        fv_vsockUDS = ri_vsockUDS inp, fv_vsockPort = ri_vsockPort inp, fv_vsock = None \<rparr>"
    by (auto simp: registerVM_def Let_def split: sum.splits prod.splits)
  have "readMeta f w2 ?i = Inr \<lparr> me_PID = pid, me_AgentVsockPort = ri_vsockPort inp,
      me_NetworkIndex = ri_networkIndex inp \<rparr>"
    using read_back [of w2 "metaFilePath f ?i"] m writeMeta_ok(1) [OF w'] by (simp add: readMeta_def)
  then show ?thesis
    using l by (auto simp: attach_def Let_def c [symmetric] localclient_New_def vm isOk_iff)
qed

end

section \<open>Disks\<close>

lemma wrap64_mult: "wrap64 (wrap64 x * k) = wrap64 (x * k)"
proof -
  have "(wrap64 x * k + 2 ^ 63) mod 2 ^ 64 = (x * k + 2 ^ 63) mod 2 ^ 64"
  proof -
    have "wrap64 x = x - 2 ^ 64 * ((x + 2 ^ 63) div 2 ^ 64)"
      by (simp add: wrap64_def minus_mult_div_eq_mod [symmetric])
    then have "(wrap64 x - x) * k = 2 ^ 64 * (- ((x + 2 ^ 63) div 2 ^ 64) * k)" by simp
    then have "2 ^ 64 dvd (wrap64 x - x) * k" by (metis dvd_triv_left)
    then have "2 ^ 64 dvd (wrap64 x * k + 2 ^ 63) - (x * k + 2 ^ 63)" by (simp add: algebra_simps)
    then show ?thesis by (simp add: mod_eq_dvd_iff)
  qed
  then show ?thesis by (simp add: wrap64_def)
qed

lemma wrap64_le: "0 \<le> x \<Longrightarrow> wrap64 x \<le> x"
  using zmod_le_nonneg_dividend [of "x + 2 ^ 63" "2 ^ 64"] by (simp add: wrap64_def)

text \<open>The size of a file, and the two tools that \<open>resizeRootfs\<close> runs.\<close>

locale disk_tools =
  fixes h :: "('w, fcontent) host" and fsize :: "'w \<Rightarrow> string \<Rightarrow> int"
  assumes stat_size: "h_Stat h w p = Inr fi \<Longrightarrow> fi_Size fi = fsize w p \<and> 0 \<le> fsize w p"
    and truncate_ok: "\<lbrakk> 0 < n; in_int64 n; h_Exec h w ''truncate'' [''-s'', fmt_d n @ ''M'', p] = (w', out, None) \<rbrakk>
      \<Longrightarrow> fsize w' p = n * 1048576"
    and truncate_err: "h_Exec h w ''truncate'' args = (w', out, Some e) \<Longrightarrow> fsize w' p = fsize w p"
    and resize2fs_size: "fsize (fst (h_Exec h w ''resize2fs'' args)) p = fsize w p"
begin

lemma resize_run:
  assumes "0 < n" and "in_int64 n"
    and r: "bindr (runTool h w ''truncate'' [''-s'', fmt_d n @ ''M'', p] a) (\<lambda>w _. runTool h w ''resize2fs'' [''-f'', p] b) = (w', r)"
  shows "fsize w' p = fsize w p \<and> \<not> isOk r \<or> fsize w' p = n * 1048576"
proof -
  obtain w1 o1 e1 where t: "h_Exec h w ''truncate'' [''-s'', fmt_d n @ ''M'', p] = (w1, o1, e1)" by (metis surj_pair)
  obtain w2 o2 e2 where f: "h_Exec h w1 ''resize2fs'' [''-f'', p] = (w2, o2, e2)" by (metis surj_pair)
  show ?thesis
    using r t f truncate_ok [OF assms(1,2), of w p w1 o1] truncate_err [of w _ w1 o1 _ p]
      resize2fs_size [of w1 "[''-f'', p]" p]
    by (cases e1; cases e2) (auto simp: runTool_def)
qed

lemma resizeRootfs_size:
  assumes n: "in_int64 n" and r: "resizeRootfs h w p n = (w', r)"
  shows "fsize w p \<le> fsize w' p"
    and "\<lbrakk> isOk r; 0 < n; n < 2 ^ 43 \<rbrakk> \<Longrightarrow> fsize w' p = n * 1048576"
proof -
  define t where "t = wrap64 (wrap64 (n * 1024) * 1024)"
  have t: "t = wrap64 (n * 1048576)" by (simp add: t_def wrap64_mult mult.assoc)
  have le: "t \<le> n * 1048576" if "0 < n" using wrap64_le that by (simp add: t)
  have eq: "t = n * 1048576" if "0 < n" "n < 2 ^ 43"
    using that wrap64_id by (simp add: t in_int64_def)
  consider "n \<le> 0" "w' = w" | "\<not> isOk r" "w' = w"
    | "0 < n" "fsize w p = t" "w' = w"
    | "0 < n" "fsize w p < t" "fsize w' p = fsize w p \<and> \<not> isOk r \<or> fsize w' p = n * 1048576"
  proof (cases "n \<le> 0")
    case True
    then show ?thesis using r that(1) by (simp add: resizeRootfs_def)
  next
    case False
    then have n0: "0 < n" by simp
    show ?thesis
  proof (cases "h_Stat h w p")
    case (Inl e)
    then have "\<not> isOk r" "w' = w" using r n0 by (auto simp: resizeRootfs_def)
    then show ?thesis by (rule that(2))
  next
    case fi: (Inr fi)
    show ?thesis
      using r n0 that resize_run [OF n0 n, of w p _ _ w' r] stat_size [OF fi] fi
      by (auto simp: resizeRootfs_def Let_def t_def [symmetric] split: if_splits)
  qed
  qed
  note c = this
  show "fsize w p \<le> fsize w' p" using c le by cases auto
  show "\<lbrakk> isOk r; 0 < n; n < 2 ^ 43 \<rbrakk> \<Longrightarrow> fsize w' p = n * 1048576" using c eq by cases auto
qed

end

end
