(* ===== verification/Microvm_Properties.thy ===== *)
theory Microvm_Properties
  imports Microvm_Provider
begin

text \<open>
  A host that runs firecracker in memory, as an instance of the interfaces of the provider, and the
  properties of the provider.
\<close>

section \<open>A host in memory\<close>

text \<open>Files by path, instances by socket, a clock and a supply of ids. Starting the jailer writes the pid
  file and the socket below the directory of the VM, as the jailer does.\<close>

record fcw =
  vw_files :: "(string \<times> fcontent) list"
  vw_inst :: "(string \<times> string) list"
  vw_clock :: nat
  vw_killable :: bool

definition mem_jail :: "string \<Rightarrow> string" where
  "mem_jail i = ''/srv/jailer/firecracker/'' @ i @ ''/root''"

definition mem_start :: "fcw \<Rightarrow> string \<Rightarrow> string list \<Rightarrow> fcw \<times> unit result" where
  "mem_start w cmd args =
    (let jail = mem_jail (args ! 1); sock = jail @ ''/firecracker.sock'' in
     (w\<lparr> vw_files := AList.update sock (CBytes [])
          (AList.update (jail @ ''/firecracker.pid'') (CBytes (dec_nat (100 + vw_clock w))) (vw_files w)),
        vw_inst := AList.update sock (if ''--config-file'' \<in> set args then ''Running'' else ''Not started'') (vw_inst w),
        vw_clock := Suc (vw_clock w) \<rparr>, Inr ()))"

definition mem_fc_host :: "(fcw, fcontent) host" where
  "mem_fc_host = \<lparr>
    h_Stat = \<lambda>w p. case map_of (vw_files w) p of None \<Rightarrow> Inl os_ErrNotExist
                   | Some _ \<Rightarrow> Inr \<lparr> fi_Size = 1048576, fi_IsDir = False, fi_Ino = length p \<rparr>,
    h_ReadFile = \<lambda>w p. case map_of (vw_files w) p of None \<Rightarrow> Inl os_ErrNotExist | Some c \<Rightarrow> Inr c,
    h_ReadDir = \<lambda>w p. Inr [(''vm1'', True), (''lost+found'', True), (''README'', False)],
    h_WriteFile = \<lambda>w p c. (w\<lparr>vw_files := AList.update p c (vw_files w)\<rparr>, Inr ()),
    h_Create = \<lambda>w p m. (w\<lparr>vw_files := AList.update p (CBytes []) (vw_files w)\<rparr>, Inr ()),
    h_Close = \<lambda>w p. (w, Inr ()),
    h_MkdirAll = \<lambda>w p m. (w, Inr ()),
    h_Remove = \<lambda>w p. (w\<lparr>vw_files := AList.delete p (vw_files w)\<rparr>, Inr ()),
    h_RemoveAll = \<lambda>w p. (w\<lparr>vw_files := filter (\<lambda>(q, _). \<not> HasPrefix q p) (vw_files w)\<rparr>, Inr ()),
    h_Rename = \<lambda>w p q. case map_of (vw_files w) p of None \<Rightarrow> (w, Inl os_ErrNotExist)
                   | Some c \<Rightarrow> (w\<lparr>vw_files := AList.update q c (AList.delete p (vw_files w))\<rparr>, Inr ()),
    h_Link = \<lambda>w p q. case map_of (vw_files w) p of None \<Rightarrow> (w, Inl os_ErrNotExist)
                   | Some c \<Rightarrow> (w\<lparr>vw_files := AList.update q c (vw_files w)\<rparr>, Inr ()),
    h_Chmod = \<lambda>w p m. (w, Inr ()),
    h_Chown = \<lambda>w p u g. (w, Inr ()),
    h_Exec = \<lambda>w c args. (w, [], None),
    h_Start = mem_start,
    h_Wait = \<lambda>w. (w, Inr ()),
    h_Kill = \<lambda>w pid sig. (w, Inl (if vw_killable w then ESRCH else New ''operation not permitted'')),
    h_Tick = \<lambda>w. (w\<lparr>vw_clock := Suc (vw_clock w)\<rparr>, None) \<rparr>"

definition mem_fc_api :: "fcw fcapi" where
  "mem_fc_api = \<lparr>
    api_Describe = \<lambda>w c. case map_of (vw_inst w) c of None \<Rightarrow> Inl (New ''connection refused'') | Some st \<Rightarrow> Inr (Some st),
    api_MachineConfiguration = \<lambda>w c. Inr (Some \<lparr> mc_VcpuCount = Some 1, mc_MemSizeMib = Some 128 \<rparr>),
    api_PatchVM = \<lambda>w c t. (w\<lparr>vw_inst := AList.update c (if t = VMStatePaused then ''Paused'' else ''Running'') (vw_inst w)\<rparr>, Inr ()),
    api_CreateSnapshot = \<lambda>w c m p. (w, Inr ()),
    api_LoadSnapshot = \<lambda>w c p m r. (w\<lparr>vw_inst := AList.update c ''Running'' (vw_inst w)\<rparr>, Inr ()),
    tr_New = \<lambda>w p port. (w, Inr 7),
    tr_Close = \<lambda>w tr. w,
    newUUID = \<lambda>w. (w\<lparr>vw_clock := Suc (vw_clock w)\<rparr>, ''snap-'' @ dec_nat (vw_clock w)) \<rparr>"

definition mem_fc_options :: Options where
  "mem_fc_options = \<lparr> op_FirecrackerPath = ''/usr/bin/firecracker'', op_JailerPath = ''/usr/bin/jailer'',
     op_JailUID = 1000, op_JailGID = 1000, op_ChrootBaseDir = defaultChrootBaseDir, op_AttachConsole = False \<rparr>"

definition mem_fc :: "fcw firecracker" where
  "mem_fc = \<lparr> f_options = mem_fc_options, f_host = mem_fc_host, f_api = mem_fc_api \<rparr>"

lemmas mem_fc_defs = mem_fc_def mem_fc_host_def mem_fc_api_def mem_fc_options_def

interpretation mfc: vm_api mem_fc "\<lambda>w. map_of (vw_inst w)"
  by unfold_locales
    (auto simp: mem_fc_defs InstanceInfoStatePaused_def InstanceInfoStateRunning_def update_conv' split: option.splits)

interpretation mff: vm_files mem_fc "\<lambda>w. map_of (vw_files w)"
  by unfold_locales (auto simp: mem_fc_defs update_conv')

definition wit_fcw :: fcw where
  "wit_fcw = \<lparr> vw_files = [(''/images/vmlinux'', CBytes ''kernel''), (''/images/rootfs'', CBytes ''rootfs'')],
     vw_inst = [], vw_clock = 0, vw_killable = True \<rparr>"

definition wit_config :: Config where
  "wit_config = zeroConfig\<lparr>
     cf_Drives := [Some \<lparr> dv_DriveID = ''rootfs'', dv_PathOnHost = ''/rootfs'', dv_IsRootDevice = Some True,
                          dv_IsReadOnly = False \<rparr>],
     cf_Vsock := Some \<lparr> vs_GuestCid = 3, vs_UdsPath = Some ''/v.sock'' \<rparr>\<rparr>"

definition wit_create :: CreateMicroVMInput where
  "wit_create = \<lparr> ci_ID = ''vm1'', ci_Network = buildHandle 5, ci_Config = Some wit_config,
     ci_Assets = [\<lparr> as_SourcePath = ''/images/rootfs'', as_JailPath = ''/rootfs'', as_Writable = True \<rparr>],
     ci_AgentVsockPort = 1024, ci_RootfsDiskMiB = 2 \<rparr>"

section \<open>The index\<close>

text \<open>C16: in every state the provider can reach, through any sequence of creates, restores, deletes,
  recoveries, restarts and changes of the world, the index has one well-formed entry per id, \<open>Len\<close> is the
  number of ids in it, and each operation does to it what the abstract map says: a create or a restore that
  succeeds sets the entry of its id and nothing else, one that fails changes nothing, a delete removes the
  entry of its id, and a recovery only adds VMs it attached to.\<close>

theorem provider_refines:
  assumes "provider_reach f (vms, w)"
  shows "index_inv f vms \<and> Len vms = card (dom (map_of vms))
    \<and> (\<forall>x. index_spec f x (isOk (snd (provider_run f (vms, w) x)))
          (map_of vms) (map_of (fst (fst (provider_run f (vms, w) x)))))"
proof -
  have i: "index_inv f vms" using provider_reach_inv [OF assms] by simp
  then have "distinct (map fst vms)" by (simp add: index_inv_def)
  then have "Len vms = card (dom (map_of vms))"
    by (metis Len_def distinct_card dom_map_of_conv_image_fst length_map list.set_map)
  then show ?thesis by (intro conjI allI provider_run_spec i)
qed

definition wit_run :: "vms \<times> fcw" where
  "wit_run = fst (provider_run mem_fc ([], wit_fcw) (OpCreate wit_create))"

theorem provider_refines_witness: "Len (fst wit_run) = card (dom (map_of (fst wit_run)))"
proof -
  have "provider_reach mem_fc (fst wit_run, snd wit_run)"
    unfolding wit_run_def prod.collapse by (intro provider_reach.intros)
  from provider_refines [OF this] show ?thesis by blast
qed

text \<open>C29: the directory of a live VM, which a delete removes with everything below it, is a direct child of
  the provider's own directory named by the VM's id, and two VMs never share one.\<close>

theorem vmDir_confined:
  assumes "provider_reach f (vms, w)" and "op_ChrootBaseDir (f_options f) \<noteq> []"
    and "GetMicroVM vms i = Some vm" and "GetMicroVM vms j = Some vm'"
  shows "fv_vmDir vm = under (filepath_Join [op_ChrootBaseDir (f_options f), execName f]) i
    \<and> i \<noteq> [] \<and> CHR ''/'' \<notin> set i \<and> CHR ''.'' \<notin> set i
    \<and> (fv_vmDir vm = fv_vmDir vm' \<longleftrightarrow> i = j)"
proof -
  have "vm_ok f i vm" "vm_ok f j vm'"
    using provider_reach_inv [OF assms(1)] assms(3,4)
    by (auto simp: index_inv_def GetMicroVM_def dest!: map_of_SomeD)
  moreover have "CHR ''/'' \<notin> set i \<and> CHR ''.'' \<notin> set i \<and> i \<noteq> []" if "vmIDPattern i" for i
    using that by (auto simp: vmIDPattern_def list_all_iff id_char_def)
  ultimately show ?thesis
    using vmDir_under [OF _ assms(2)] under_inj unfolding vm_ok_def vmRoot_def by metis
qed

text \<open>A VM on disk that a recovery finds.\<close>

definition wit_disk :: fcw where
  "wit_disk = \<lparr> vw_files = [(''/srv/jailer/firecracker/vm1/meta.json'', CMeta \<lparr> me_PID = 100, me_AgentVsockPort = 1024,
       me_NetworkIndex = 5 \<rparr>), (''/srv/jailer/firecracker/vm1/root/firecracker.sock'', CBytes [])],
     vw_inst = [(''/srv/jailer/firecracker/vm1/root/firecracker.sock'', ''Running'')], vw_clock = 0,
     vw_killable = True \<rparr>"

lemma wit_disk_recover: "map fst (fst (fst (Recover mem_fc ([], wit_disk)))) = [''vm1'']"
  by code_simp

lemma wit_disk_reach:
  "provider_reach mem_fc (fst (fst (Recover mem_fc ([], wit_disk))), snd (fst (Recover mem_fc ([], wit_disk))))"
  using provider_reach.op [OF provider_reach.boot [of mem_fc wit_disk], of OpRecover] by simp

lemma wit_disk_facts:
  "op_ChrootBaseDir (f_options mem_fc) \<noteq> []"
  "under (filepath_Join [op_ChrootBaseDir (f_options mem_fc), execName mem_fc]) ''vm1'' = ''/srv/jailer/firecracker/vm1''"
  by code_simp+

lemma wit_disk_vm: "\<exists>vm. GetMicroVM (fst (fst (Recover mem_fc ([], wit_disk)))) ''vm1'' = Some vm"
proof -
  have "''vm1'' \<in> set (map fst (fst (fst (Recover mem_fc ([], wit_disk)))))"
    unfolding wit_disk_recover by simp
  then show ?thesis unfolding GetMicroVM_def by (auto simp: map_of_eq_None_iff dest: weak_map_of_SomeI)
qed

theorem vmDir_confined_witness:
  "\<exists>vm. GetMicroVM (fst (fst (Recover mem_fc ([], wit_disk)))) ''vm1'' = Some vm
    \<and> fv_vmDir vm = ''/srv/jailer/firecracker/vm1''"
proof -
  obtain vm where vm: "GetMicroVM (fst (fst (Recover mem_fc ([], wit_disk)))) ''vm1'' = Some vm"
    using wit_disk_vm by (elim exE)
  from vmDir_confined [OF wit_disk_reach wit_disk_facts(1) vm vm] vm
  show ?thesis unfolding wit_disk_facts(2) by blast
qed


definition wit_vm :: "string \<Rightarrow> int \<Rightarrow> firecrackerVM" where
  "wit_vm i n = \<lparr> fv_client = ''sock'', fv_vmDir = i, fv_jailRoot = i, fv_id = i, fv_pid = 100, fv_networkIndex = n,
     fv_jailUID = 0, fv_jailGID = 0, fv_vsockUDS = [], fv_vsockPort = 0, fv_vsock = None \<rparr>"


section \<open>Restart\<close>

text \<open>C28: a VM that was registered by a create is handed back unchanged to a daemon that restarts: once
  the VM is registered, attaching to it, in any later world in which its two documents are as they were
  left and its socket answers, gives the very handle the create returned (pid, network index, socket,
  vsock path and port).\<close>

theorem registered_vm_reattached:
  assumes "vm_files f fsv" and "op_ChrootBaseDir (f_options f) \<noteq> []"
    and "jail = jailRoot f (ri_id inp)" and "c = filepath_Join [jail, apiSocketFile]"
    and "(ri_vsockUDS inp, ri_vsockPort inp) = vsockEndpoint jail input"
    and "\<And>cfg v. \<lbrakk> ci_Config input = Some cfg; cf_Vsock cfg = Some v \<rbrakk> \<Longrightarrow> vs_UdsPath v \<noteq> Some []"
    and "fsv w (filepath_Join [jail, vmConfigFile]) = Some (CConfig (ci_Config input))"
    and "registerVM f (vms, w) inp c = ((vms', w'), Inr vm)"
    and "\<And>p. p \<in> {metaFilePath f (ri_id inp), filepath_Join [jail, vmConfigFile]} \<Longrightarrow> fsv w2 p = fsv w' p"
    and "isOk (h_Stat (f_host f) w2 c)" and "isOk (api_Describe (f_api f) w2 c)"
  shows "attach f w2 (ri_id inp) = Inr vm"
proof -
  from assms(8) obtain meta u where m: "writeMeta f w (ri_id inp) meta = (w', Inr u)"
    and uds: "fv_vsockUDS vm = ri_vsockUDS inp"
    by (auto simp: registerVM_def Let_def split: sum.splits prod.splits)
  have "fsv w2 (filepath_Join [jail, vmConfigFile]) = Some (CConfig (ci_Config input))"
    using vm_files.writeMeta_ok(2) [OF assms(1) m] config_not_meta [OF assms(2)] assms(3,7,9) by simp
  then have "readVsockUDSPath (f_host f) w2 (filepath_Join [jail, vmConfigFile]) jail
      = Inr (fst (vsockEndpoint jail input))"
    by (rule vm_files.readVsock_config [OF assms(1) _ refl]) (rule assms(6))
  then have "readVsockUDSPath (f_host f) w2 (filepath_Join [jail, vmConfigFile]) jail = Inr (ri_vsockUDS inp)"
    by (simp add: assms(5) [symmetric])
  then show ?thesis
    using vm_files.registered_attach [OF assms(1,8), of w2] assms(3,4,9,10,11) by (simp add: uds [symmetric])
qed

definition wit_spawned :: fcw where
  "wit_spawned = \<lparr> vw_files = [(''/srv/jailer/firecracker/vm1/root/firecracker.pid'', CBytes (''100'' @ [CHR 0x0A])),
       (''/srv/jailer/firecracker/vm1/root/vm_config.json'', CConfig (Some wit_config)),
       (''/srv/jailer/firecracker/vm1/root/firecracker.sock'', CBytes [])],
     vw_inst = [(''/srv/jailer/firecracker/vm1/root/firecracker.sock'', ''Running'')], vw_clock = 0,
     vw_killable = True \<rparr>"

definition wit_reg :: registerVMInput where
  "wit_reg = \<lparr> ri_id = ''vm1'', ri_networkIndex = 5, ri_vsockUDS = ''/srv/jailer/firecracker/vm1/root/v.sock'',
     ri_vsockPort = 1024 \<rparr>"

definition wit_sock :: string where
  "wit_sock = filepath_Join [jailRoot mem_fc (ri_id wit_reg), apiSocketFile]"

lemma wit_reg_facts:
  "isOk (snd (registerVM mem_fc ([], wit_spawned) wit_reg wit_sock))"
  "ri_vsockUDS wit_reg = fst (vsockEndpoint (jailRoot mem_fc (ri_id wit_reg)) wit_create)"
  "ri_vsockPort wit_reg = snd (vsockEndpoint (jailRoot mem_fc (ri_id wit_reg)) wit_create)"
  "isOk (h_Stat (f_host mem_fc) (snd (fst (registerVM mem_fc ([], wit_spawned) wit_reg wit_sock))) wit_sock)"
  "isOk (api_Describe (f_api mem_fc) (snd (fst (registerVM mem_fc ([], wit_spawned) wit_reg wit_sock))) wit_sock)"
  by code_simp+

lemma wit_reg_config:
  "map_of (vw_files wit_spawned) (filepath_Join [jailRoot mem_fc (ri_id wit_reg), vmConfigFile])
     = Some (CConfig (ci_Config wit_create))"
proof -
  have "filepath_Join [jailRoot mem_fc (ri_id wit_reg), vmConfigFile] = ''/srv/jailer/firecracker/vm1/root/vm_config.json''"
    by code_simp
  then show ?thesis by (simp add: wit_spawned_def wit_create_def)
qed

theorem registered_vm_reattached_witness:
  "\<exists>s vm. registerVM mem_fc ([], wit_spawned) wit_reg wit_sock = (s, Inr vm)
    \<and> attach mem_fc (snd s) ''vm1'' = Inr vm"
proof -
  obtain vms w' vm where r: "registerVM mem_fc ([], wit_spawned) wit_reg wit_sock = ((vms, w'), Inr vm)"
    using okE [OF wit_reg_facts(1)] by (metis surj_pair)
  have "attach mem_fc w' (ri_id wit_reg) = Inr vm"
  proof (rule registered_vm_reattached [OF mff.vm_files_axioms wit_disk_facts(1) refl _ _ _ wit_reg_config])
    show "wit_sock = filepath_Join [jailRoot mem_fc (ri_id wit_reg), apiSocketFile]" by (rule wit_sock_def)
    show "(ri_vsockUDS wit_reg, ri_vsockPort wit_reg) = vsockEndpoint (jailRoot mem_fc (ri_id wit_reg)) wit_create"
      by (simp add: wit_reg_facts(2,3))
    show "vs_UdsPath v \<noteq> Some []" if "ci_Config wit_create = Some cfg" "cf_Vsock cfg = Some v" for cfg v
      using that by (auto simp: wit_create_def wit_config_def)
    show "registerVM mem_fc ([], wit_spawned) wit_reg wit_sock = ((vms, w'), Inr vm)" by (rule r)
    show "isOk (h_Stat (f_host mem_fc) w' wit_sock)" "isOk (api_Describe (f_api mem_fc) w' wit_sock)"
      using wit_reg_facts(4,5) r by simp_all
  qed simp
  with r show ?thesis by (auto simp: wit_reg_def)
qed

text \<open>A VM that was restored from a snapshot has no configuration file, since \<open>LoadSnapshot\<close> writes none:
  the handle a restarted daemon gets has lost the vsock path, and its agent cannot be reached any more.\<close>

lemma restored_vm_loses_vsock:
  assumes "vm_files f fsv" and "c = filepath_Join [jailRoot f (ri_id inp), apiSocketFile]"
    and "registerVM f (vms, w) inp c = ((vms', w'), Inr vm)"
    and "fsv w2 (metaFilePath f (ri_id inp)) = fsv w' (metaFilePath f (ri_id inp))"
    and "\<not> isOk (h_ReadFile (f_host f) w2 (filepath_Join [jailRoot f (ri_id inp), vmConfigFile]))"
    and "isOk (h_Stat (f_host f) w2 c)" and "isOk (api_Describe (f_api f) w2 c)"
  shows "\<exists>vm2. attach f w2 (ri_id inp) = Inr vm2
    \<and> VSock (f_api f) (vm2, w2) = ((vm2, w2), Inl (New ''vsock not configured for this vm''))"
proof -
  have "\<not> isOk (readVsockUDSPath (f_host f) w2 (filepath_Join [jailRoot f (ri_id inp), vmConfigFile]) (jailRoot f (ri_id inp)))"
    using assms(5) by (auto simp: readVsockUDSPath_def split: sum.splits)
  then have "attach f w2 (ri_id inp) = Inr (vm\<lparr>fv_vsockUDS := []\<rparr>)"
    using vm_files.registered_attach [OF assms(1,3,2,4,6,7)] by (auto split: sum.splits)
  moreover have "fv_vsock vm = None"
    using assms(3) by (auto simp: registerVM_def Let_def split: sum.splits prod.splits)
  ultimately show ?thesis by (simp add: VSock_def)
qed

section \<open>Snapshots, waiting, disks\<close>

text \<open>C30: taking a snapshot, whatever fails on the way, leaves a VM that was not running in the state it
  was in; a running VM is running again afterwards when the API obeys the resume, and at worst it is left
  paused; a snapshot that succeeds drops the memoised vsock transport.\<close>

theorem CreateSnapshot_keeps_state:
  assumes "vm_api f vmst" and "CreateSnapshot f (vm, w) = ((vm', w'), r)"
    and "st = vmst w (fv_client vm)" and "st' = vmst w' (fv_client vm)"
  shows "(st' = st \<or> st = Some InstanceInfoStateRunning \<and> st' = Some InstanceInfoStatePaused)
    \<and> ((\<forall>v. isOk (instanceState (f_api f) v vm) \<and> isOk (snd (api_PatchVM (f_api f) v (fv_client vm) VMStateResumed)))
        \<longrightarrow> st' = st)
    \<and> (isOk r \<longrightarrow> fv_vsock vm' = None)"
proof -
  have "vm_api.state_kept f vmst vm w w'"
    using vm_api.CreateSnapshot_state [OF assms(1), of vm w] assms(2) by simp
  moreover have "isOk r \<longrightarrow> fv_vsock vm' = None"
    using assms(2)
    by (auto simp: CreateSnapshot_def takeSnapshot_def dropVSock_def Let_def
        split: prod.splits sum.splits if_splits option.splits)
  ultimately show ?thesis
    by (simp add: vm_api.state_kept_def [OF assms(1)] vm_api.resumable_def [OF assms(1)] assms(3,4) Let_def)
qed

definition wit_running :: firecrackerVM where
  "wit_running = (wit_vm ''vm1'' 5)\<lparr>fv_jailRoot := ''/srv/vm1/root'', fv_client := ''sock'', fv_vsock := Some 7\<rparr>"

definition wit_runw :: fcw where
  "wit_runw = \<lparr> vw_files = [], vw_inst = [(''sock'', ''Running'')], vw_clock = 0, vw_killable = True \<rparr>"

lemma wit_running_snapshot: "isOk (snd (CreateSnapshot mem_fc (wit_running, wit_runw)))"
  by code_simp

theorem CreateSnapshot_keeps_state_witness:
  "map_of (vw_inst wit_runw) ''sock'' = Some ''Running''
    \<and> fv_vsock (fst (fst (CreateSnapshot mem_fc (wit_running, wit_runw)))) = None"
proof -
  obtain vm' w' r where c: "CreateSnapshot mem_fc (wit_running, wit_runw) = ((vm', w'), r)"
    by (metis surj_pair)
  show ?thesis
    using CreateSnapshot_keeps_state [OF mfc.vm_api_axioms c refl refl] wit_running_snapshot c
    by (simp add: wit_runw_def)
qed

text \<open>C34: \<open>waitUntilRunning\<close> ends after at most the 500 ticks its timeout allows, and it decides: when the
  instance first reports Running after \<open>k\<close> of them it returns at that moment with success, and when it does
  not report Running within them it fails.\<close>

theorem waitUntilRunning_decides:
  assumes "ticks (f_host f) 500 w" and "running = ready_at f c (\<lambda>st. st = Some InstanceInfoStateRunning)"
  shows "(\<forall>k\<le>500. running (after (f_host f) k w) \<and> (\<forall>j<k. \<not> running (after (f_host f) j w))
      \<longrightarrow> waitUntilRunning f c w = (after (f_host f) k w, Inr ()))
    \<and> ((\<forall>k\<le>500. \<not> running (after (f_host f) k w))
      \<longrightarrow> (\<exists>e. waitUntilRunning f c w = (after (f_host f) 500 w, Inl e)))"
  using waitForInstance_live [of f 500 w _ c] waitForInstance_late [of f 500 w c] assms
  by (auto simp: waitUntilRunning_def readyTicks_def)

lemma mem_ticks: "ticks (f_host mem_fc) n w"
  by (induction n arbitrary: w) (simp_all add: mem_fc_defs)

theorem waitUntilRunning_decides_witness: "waitUntilRunning mem_fc ''sock'' wit_runw = (wit_runw, Inr ())"
  using waitUntilRunning_decides [OF mem_ticks refl, of "''sock''" wit_runw, THEN conjunct1, rule_format, of 0]
  by (simp add: ready_at_def mem_fc_defs wit_runw_def InstanceInfoStateRunning_def)

text \<open>Resizing a root file system never shrinks the file, not even when the product of the requested
  size overflows; and when it succeeds, for a size below 8 EiB, the file has the requested size.\<close>

theorem resizeRootfs_grows:
  assumes "disk_tools h fsize" and "in_int64 sizeMiB" and "resizeRootfs h w path sizeMiB = (w', r)"
  shows "fsize w path \<le> fsize w' path
    \<and> (isOk r \<and> 0 < sizeMiB \<and> sizeMiB < 2 ^ 43 \<longrightarrow> fsize w' path = sizeMiB * (1024 * 1024))"
  using disk_tools.resizeRootfs_size [OF assms] by simp

text \<open>A disk with a single file, in bytes.\<close>

definition mem_disk :: "(int, fcontent) host" where
  "mem_disk = \<lparr>
    h_Stat = \<lambda>w p. if w < 0 then Inl os_ErrNotExist else Inr \<lparr> fi_Size = w, fi_IsDir = False, fi_Ino = 0 \<rparr>,
    h_ReadFile = \<lambda>w p. Inl os_ErrNotExist, h_ReadDir = \<lambda>w p. Inr [],
    h_WriteFile = \<lambda>w p c. (w, Inr ()), h_Create = \<lambda>w p m. (w, Inr ()), h_Close = \<lambda>w p. (w, Inr ()),
    h_MkdirAll = \<lambda>w p m. (w, Inr ()), h_Remove = \<lambda>w p. (w, Inr ()), h_RemoveAll = \<lambda>w p. (w, Inr ()),
    h_Rename = \<lambda>w p q. (w, Inr ()), h_Link = \<lambda>w p q. (w, Inr ()), h_Chmod = \<lambda>w p m. (w, Inr ()),
    h_Chown = \<lambda>w p u g. (w, Inr ()),
    h_Exec = \<lambda>w c args. if c = ''truncate'' then
        (case ParseInt (butlast (args ! 1)) of Inr n \<Rightarrow> (n * 1048576, [], None) | Inl e \<Rightarrow> (w, [], Some e))
      else (w, [], None),
    h_Start = \<lambda>w c args. (w, Inr ()), h_Wait = \<lambda>w. (w, Inr ()), h_Kill = \<lambda>w pid sig. (w, Inr ()),
    h_Tick = \<lambda>w. (w, None) \<rparr>"

interpretation mdisk: disk_tools mem_disk "\<lambda>w p. w"
  by unfold_locales (auto simp: mem_disk_def ParseInt_fmt_d split: if_splits sum.splits)

lemma wit_resize: "resizeRootfs mem_disk 1048576 ''/rootfs'' 3 = (3145728, Inr ())"
  by code_simp

theorem resizeRootfs_grows_witness:
  "(1048576 :: int) \<le> fst (resizeRootfs mem_disk 1048576 ''/rootfs'' 3) \<and> fst (resizeRootfs mem_disk 1048576 ''/rootfs'' 3) = 3 * (1024 * 1024)"
  using resizeRootfs_grows [OF mdisk.disk_tools_axioms _ wit_resize] by (simp add: in_int64_def wit_resize)

end
