(* ===== verification/Session_Properties.thy ===== *)
theory Session_Properties
  imports Controller Atomic_File Microvm_Properties
begin

text \<open>
  The file with the controller's session id: the id survives a restart and a failed save leaves the old
  one, under the contract \<open>temp_dir\<close> of theory \<open>Atomic_File\<close>.
\<close>

section \<open>The session id\<close>

lemma TrimSpace_line:
  assumes "s \<noteq> []" "list_all (\<lambda>c. \<not> is_space c) s"
  shows "TrimSpace (s @ [CHR 10]) = s"
proof -
  have "is_space (CHR 10)" by (simp add: is_space_def)
  moreover have "dropWhile is_space (s @ [CHR 10]) = s @ [CHR 10]" "dropWhile is_space (rev s) = rev s"
    using assms by (simp_all add: dropWhile_eq_self_iff list_all_iff hd_rev)
  ultimately show ?thesis by (simp add: TrimSpace_def)
qed

lemma TrimSpace_fmt_d: "TrimSpace (fmt_d i @ [CHR 10]) = fmt_d i"
proof (rule TrimSpace_line)
  have "list_all (\<lambda>c. \<not> is_space c) (dec_nat n)" for n
    using dec_nat_spec [of n] by (auto simp: list_all_iff is_space_def is_digit_def)
  moreover have "\<not> is_space (CHR ''-'')" by (simp add: is_space_def)
  ultimately show "list_all (\<lambda>c. \<not> is_space c) (fmt_d i)" by (simp add: fmt_d_def)
  show "fmt_d i \<noteq> []" using dec_nat_spec [of "nat i"] by (simp add: fmt_d_def)
qed

locale session_dir = temp_dir h fsv temp path
  for h :: "('s, fcontent) host" and fsv and temp :: "'s \<Rightarrow> string \<Rightarrow> string \<Rightarrow> 's \<times> string result" and path :: string
begin

lemma Fill_ok:
  assumes p: "p \<noteq> path" and r: "session_Fill h path i p s = (s', Inr u)"
  shows "fsv s' path = Some (CBytes (fmt_d i @ [CHR 10]))"
proof -
  let ?c = "CBytes (fmt_d i @ [CHR 10])"
  obtain s3 r3 where w: "h_WriteFile h s p ?c = (s3, r3)" by fastforce
  obtain s4 r4 where c: "h_Close h s3 p = (s4, r4)" by fastforce
  have r3: "isOk r3" "isOk r4" using r by (cases r3; cases r4; simp add: session_Fill_def w c)+
  then have m: "h_Rename h s4 p path = (s', Inr u)" using r by (auto simp: session_Fill_def w c isOk_iff onErr_ok)
  have "fsv s3 p = Some ?c" using write_ok [of s p ?c] w r3 by simp
  then have "fsv s4 p = Some ?c" using close_frame [of s3 p p] c by simp
  then show ?thesis using rename_publishes(1) [OF p _ m] by simp
qed

lemma Fill_err:
  assumes p: "p \<noteq> path" and r: "session_Fill h path i p s = (s', Inl e)"
  shows "fsv s' path = fsv s path"
proof -
  let ?c = "CBytes (fmt_d i @ [CHR 10])"
  obtain s3 r3 where w: "h_WriteFile h s p ?c = (s3, r3)" by fastforce
  obtain s4 r4 where c: "h_Close h s3 p = (s4, r4)" by fastforce
  obtain s5 r5 where m: "h_Rename h s4 p path = (s5, r5)" by fastforce
  have "fsv s3 path = fsv s path" using write_frame [of path p s ?c] p w by simp
  moreover have "fsv s4 path = fsv s3 path" using close_frame [of s3 p path] c by simp
  moreover have "\<not> isOk r5 \<Longrightarrow> fsv s5 path = fsv s4 path" using rename_err [of s4 p path path] m by simp
  ultimately show ?thesis
    using r by (cases r3; cases r4; cases r5) (simp_all add: session_Fill_def w c m)
qed

lemma Save_cases:
  assumes "session_Save h temp path i s = (s', r)"
  obtains "\<not> isOk r" "fsv s' path = fsv s path"
  | p s2 s3 where "p \<noteq> path" "session_Fill h path i p s2 = (s3, r)" "fsv s2 path = fsv s path" "fsv s' path = fsv s3 path"
proof -
  obtain s1 r1 where m: "h_MkdirAll h s (filepath_Dir path) 493 = (s1, r1)" by fastforce
  obtain s2 r2 where t: "temp s1 (filepath_Dir path) (filepath_Base path @ ''.*'') = (s2, r2)" by fastforce
  have 1: "fsv s1 path = fsv s path" using mkdir_frame [of s "filepath_Dir path" 493 path] m by simp
  have "r2 \<noteq> Inr path" using temp_new t by blast
  then have 2: "fsv s2 path = fsv s1 path" by (rule temp_frame [OF t])
  show ?thesis
  proof (cases "isOk r1 \<and> isOk r2")
    case False
    then have "\<not> isOk r" "fsv s' path = fsv s path"
      using assms 1 2 by (cases r1; cases r2; auto simp: session_Save_def m t)+
    then show ?thesis by (rule that(1))
  next
    case True
    then obtain p where p: "r2 = Inr p" by (auto simp: isOk_iff)
    obtain s3 r3 where f: "session_Fill h path i p s2 = (s3, r3)" by fastforce
    have n: "p \<noteq> path" using temp_new t p by blast
    from True obtain u where u: "r1 = Inr u" by (auto simp: isOk_iff)
    have "s' = fst (h_Remove h s3 p)" "r = r3" using assms by (simp_all add: session_Save_def m t p u f)
    then show ?thesis
      using that(2) [OF n, of s2 s3] f n 1 2 remove_frame [of path p s3] by simp
  qed
qed

lemma Load_saved: "\<lbrakk> fsv s path = Some (CBytes (fmt_d i @ [CHR 10])); in_int64 i \<rbrakk> \<Longrightarrow> session_Load h path s = Inr i"
  using read_back [of s path "CBytes (fmt_d i @ [CHR 10])"] by (simp add: session_Load_def TrimSpace_fmt_d ParseInt_fmt_d)

lemma Save_Load:
  assumes "in_int64 i" "session_Save h temp path i s = (s', r)"
  shows "if isOk r then session_Load h path s' = Inr i else fsv s' path = fsv s path"
  using assms(2)
proof (cases rule: Save_cases)
  case (2 p s2 s3)
  then show ?thesis
    using Fill_ok [OF 2(1), of i s2 s3] Fill_err [OF 2(1), of i s2 s3] Load_saved [of s' i] assms(1) by (cases r) auto
qed simp

end

interpretation mses: session_dir mem_fc_host "\<lambda>w. map_of (vw_files w)" "\<lambda>w d p. (w, Inr (d @ ''/tmp''))" "''/var/session.id''"
proof unfold_locales
qed (auto simp: mem_fc_defs update_conv' delete_conv' split: option.splits)

text \<open>The session id survives a restart. After a save of an id that succeeds, loading gives that id back,
  for every int64; a save that fails, at whichever step, leaves the file as it was.\<close>

theorem session_roundtrip:
  assumes "session_dir h fsv temp path" and "in_int64 i" and "session_Save h temp path i s = (s', r)"
  shows "if isOk r then session_Load h path s' = Inr i else fsv s' path = fsv s path"
  using assms by (rule session_dir.Save_Load)

theorem session_roundtrip_witness:
  "session_Load mem_fc_host ''/var/session.id''
     (fst (session_Save mem_fc_host (\<lambda>w d p. (w, Inr (d @ ''/tmp''))) ''/var/session.id'' (-42) wit_fcw)) = Inr (-42)"
proof -
  let ?x = "session_Save mem_fc_host (\<lambda>w d p. (w, Inr (d @ ''/tmp''))) ''/var/session.id'' (-42) wit_fcw"
  have "isOk (snd ?x)" by code_simp
  with session_roundtrip [OF mses.session_dir_axioms, of "-42" wit_fcw "fst ?x" "snd ?x"] show ?thesis
    by (simp add: in_int64_def)
qed

end
