(* ===== verification/Linux_Driver.thy ===== *)
theory Linux_Driver
  imports Allocator Firewall
begin

text \<open>
  The Linux network driver, \<open>daemon/pkg/network/linux.go\<close> and \<open>sysctl.go\<close>: the network namespace of a
  microVM, its TAP device, its veth pair, its default route and its egress rules, and how they are
  taken down. The netlink and netns packages are the record \<open>netlink\<close>, an argument of every
  operation; what the driver relies on of them is the locale \<open>net_kernel\<close>, which reads the world as
  a kernel state \<open>kern\<close>. The lock of the driver serialises calls, so one call is one sequence of steps.
\<close>

section \<open>The operations of the kernel\<close>

type_synonym nsid = nat

text \<open>The link values the driver builds or looks up.\<close>

datatype Link = Tuntap string nat nat | Veth string string nsid | Device string

text \<open>A netlink call is made in the namespace of the thread (\<open>None\<close>) or through a handle on a
  namespace (\<open>Some n\<close>).\<close>

record 'w netlink =
  netns_Get :: "'w \<Rightarrow> nsid result"
  netns_Set :: "'w \<Rightarrow> nsid \<Rightarrow> 'w \<times> unit result"
  netns_NewNamed :: "'w \<Rightarrow> string \<Rightarrow> 'w \<times> nsid result"
  netns_DeleteNamed :: "'w \<Rightarrow> string \<Rightarrow> 'w \<times> unit result"
  nl_NewHandleAt :: "'w \<Rightarrow> nsid \<Rightarrow> nsid result"
  nl_LinkByName :: "'w \<Rightarrow> nsid option \<Rightarrow> string \<Rightarrow> Link result"
  nl_LinkAdd :: "'w \<Rightarrow> Link \<Rightarrow> 'w \<times> unit result"
  nl_LinkDel :: "'w \<Rightarrow> Link \<Rightarrow> 'w \<times> unit result"
  nl_AddrAdd :: "'w \<Rightarrow> nsid option \<Rightarrow> Link \<Rightarrow> Addr \<times> nat \<Rightarrow> 'w \<times> unit result"
  nl_LinkSetUp :: "'w \<Rightarrow> nsid option \<Rightarrow> Link \<Rightarrow> 'w \<times> unit result"
  nl_RouteAdd :: "'w \<Rightarrow> nsid \<Rightarrow> Addr \<Rightarrow> 'w \<times> unit result"
  nl_isLinkNotFoundError :: "goerr \<Rightarrow> bool"
  os_Stat :: "'w \<Rightarrow> string \<Rightarrow> unit result"
  os_WriteFile :: "'w \<Rightarrow> string \<Rightarrow> string \<Rightarrow> 'w \<times> unit result"

text \<open>The error numbers the driver compares with. \<open>syscall.Errno\<close> makes \<open>ENOENT\<close> match
  \<open>os.ErrNotExist\<close>.\<close>

definition ENOENT :: goerr where
  "ENOENT = New ''no such file or directory''"

definition ENODEV :: goerr where
  "ENODEV = New ''no such device''"

definition ErrNotExist :: goerr where
  "ErrNotExist = New ''file does not exist''"

section \<open>sysctl.go\<close>

definition ipForwardPath :: string where
  "ipForwardPath = ''/proc/sys/net/ipv4/ip_forward''"

definition writeSysctl :: "'w netlink \<Rightarrow> 'w \<Rightarrow> string \<Rightarrow> string \<Rightarrow> 'w \<times> unit result" where
  "writeSysctl k w path value =
    onErr (wrapf (''write sysctl '' @ path @ ''='' @ value)) (os_WriteFile k w path (value @ [CHR 0x0A]))"

definition EnableHostIPForward :: "'w netlink \<Rightarrow> 'w \<Rightarrow> 'w \<times> unit result" where
  "EnableHostIPForward k w = writeSysctl k w ipForwardPath ''1''"

definition EnableNamespaceIPForward :: "'w netlink \<Rightarrow> 'w \<Rightarrow> 'w \<times> unit result" where
  "EnableNamespaceIPForward k w = writeSysctl k w ipForwardPath ''1''"

section \<open>linux.go\<close>

record 'w linuxDriver =
  dr_net :: "'w netlink"
  dr_TAPOwner :: nat
  dr_TAPGroup :: nat
  dr_Firewall :: "'w iptablesFirewall option"
  dr_ResolverIP :: Addr

definition netnsMountDir :: string where
  "netnsMountDir = ''/run/netns''"

definition isLinkNotFound :: "'w netlink \<Rightarrow> goerr \<Rightarrow> bool" where
  "isLinkNotFound k err =
    (nl_isLinkNotFoundError k err \<or> errors_Is err ENODEV \<or> errors_Is err ErrNotExist \<or> errors_Is err ENOENT)"

definition hasStaleState :: "'w netlink \<Rightarrow> 'w \<Rightarrow> NamespaceHandle \<Rightarrow> bool" where
  "hasStaleState k w meta =
    (isOk (os_Stat k w (netnsMountDir @ ''/'' @ nsh_NamespaceName meta))
     \<or> isOk (nl_LinkByName k w None (nsh_HostVethName meta)))"

definition deprovisionLocked :: "'w netlink \<Rightarrow> 'w \<Rightarrow> int \<Rightarrow> 'w \<times> unit result" where
  "deprovisionLocked k w index =
    bindr (case nl_LinkByName k w None (hostVethName index) of
        Inr link \<Rightarrow> onErr (wrapf ''delete host veth'') (nl_LinkDel k w link)
      | Inl err \<Rightarrow> if isLinkNotFound k err then (w, Inr ())
                   else (w, Inl (wrapf ''lookup host veth'' err))) (\<lambda>w _.
    case netns_DeleteNamed k w (namespaceName index) of
      (w', Inl err) \<Rightarrow> if \<not> errors_Is err ENOENT then (w', Inl (wrapf ''delete netns'' err)) else (w', Inr ())
    | (w', Inr _) \<Rightarrow> (w', Inr ()))"

text \<open>\<open>netns.Set(origin)\<close> with its error dropped.\<close>

definition restoreNs :: "'w netlink \<Rightarrow> nsid \<Rightarrow> 'w \<Rightarrow> 'w" where
  "restoreNs k origin w = fst (netns_Set k w origin)"

definition createNamespace :: "'w netlink \<Rightarrow> 'w \<Rightarrow> string \<Rightarrow> 'w \<times> nsid result" where
  "createNamespace k w name =
    (case netns_Get k w of
       Inl err \<Rightarrow> (w, Inl (wrapf ''get current netns'' err))
     | Inr origin \<Rightarrow>
    (case netns_NewNamed k w name of
       (w1, Inl err) \<Rightarrow> (restoreNs k origin w1, Inl (wrapf (''create named netns '' @ quote name) err))
     | (w1, Inr nsFd) \<Rightarrow>
    (case (case nl_LinkByName k w1 None ''lo'' of
             Inl err \<Rightarrow> (w1, Inl err) | Inr lo \<Rightarrow> nl_LinkSetUp k w1 None lo) of
       (w2, Inl err) \<Rightarrow>
         (restoreNs k origin (fst (netns_DeleteNamed k w2 name)), Inl (wrapf ''bring lo up'' err))
     | (w2, Inr _) \<Rightarrow> (restoreNs k origin w2, Inr nsFd))))"

text \<open>The block that \<open>setupTAP\<close> and \<open>configureEgress\<close> open with: enter the namespace, and go back to the
  original one when the body returns.\<close>

definition inNamespace :: "'w netlink \<Rightarrow> 'w \<Rightarrow> nsid \<Rightarrow> ('w \<Rightarrow> 'w \<times> unit result) \<Rightarrow> 'w \<times> unit result" where
  "inNamespace k w nsFd body =
    (case netns_Get k w of
       Inl err \<Rightarrow> (w, Inl (wrapf ''get origin netns'' err))
     | Inr origin \<Rightarrow>
    (let (w', r) = (case netns_Set k w nsFd of
           (w1, Inl err) \<Rightarrow> (w1, Inl (wrapf ''enter netns'' err))
         | (w1, Inr _) \<Rightarrow> body w1)
     in (restoreNs k origin w', r)))"

definition setupTAP :: "'w linuxDriver \<Rightarrow> 'w \<Rightarrow> nsid \<Rightarrow> 'w \<times> unit result" where
  "setupTAP d w nsFd =
    (let k = dr_net d; tap = Tuntap tapDeviceName (dr_TAPOwner d) (dr_TAPGroup d) in
     inNamespace k w nsFd (\<lambda>w.
       bindr (onErr (wrapf (''create tap '' @ quote tapDeviceName @ '' (is the tun kernel module loaded?)''))
         (nl_LinkAdd k w tap)) (\<lambda>w _.
       bindr (onErr (wrapf ''assign tap ip'') (nl_AddrAdd k w None tap (tapIP, tapPrefixBits))) (\<lambda>w _.
       onErr (wrapf ''bring tap up'') (nl_LinkSetUp k w None tap)))))"

definition setupVethPair :: "'w netlink \<Rightarrow> 'w \<Rightarrow> nsid \<Rightarrow> NamespaceHandle \<Rightarrow> 'w \<times> unit result" where
  "setupVethPair k w nsFd meta =
    (let veth = Veth (nsh_HostVethName meta) namespaceVethName nsFd in
     bindr (onErr (wrapf ''create veth pair'') (nl_LinkAdd k w veth)) (\<lambda>w _.
     bindr (onErr (wrapf ''lookup host veth'') (w, nl_LinkByName k w None (nsh_HostVethName meta))) (\<lambda>w hostLink.
     bindr (onErr (wrapf ''assign host veth ip'')
       (nl_AddrAdd k w None hostLink (nsh_HostVethIP meta, vethSubnetBits))) (\<lambda>w _.
     bindr (onErr (wrapf ''bring host veth up'') (nl_LinkSetUp k w None hostLink)) (\<lambda>w _.
     bindr (onErr (wrapf ''open ns netlink handle'') (w, nl_NewHandleAt k w nsFd)) (\<lambda>w nsHandle.
     bindr (onErr (wrapf ''lookup ns veth'') (w, nl_LinkByName k w (Some nsHandle) namespaceVethName)) (\<lambda>w nsLink.
     bindr (onErr (wrapf ''assign ns veth ip'')
       (nl_AddrAdd k w (Some nsHandle) nsLink (fst (snd (vethSubnetFor (nsh_Index meta))), vethSubnetBits))) (\<lambda>w _.
     onErr (wrapf ''bring ns veth up'') (nl_LinkSetUp k w (Some nsHandle) nsLink)))))))))"

definition configureEgress ::
  "'w netlink \<Rightarrow> 'w \<Rightarrow> nsid \<Rightarrow> 'w iptablesFirewall \<Rightarrow> NamespaceHandle \<Rightarrow> EgressPolicy option \<Rightarrow> Addr
   \<Rightarrow> 'w \<times> unit result" where
  "configureEgress k w nsFd fw meta egress resolverIP =
    inNamespace k w nsFd (\<lambda>w.
      bindr (onErr (wrapf ''enable ip_forward in netns'') (EnableNamespaceIPForward k w)) (\<lambda>w _.
      onErr (wrapf ''install firewall rules in netns'') (ConfigureNamespace fw w
        \<lparr> nc_NamespaceVethName = namespaceVethName, nc_GuestSubnet = GuestSubnet, nc_Egress = egress,
          nc_SandboxIndex = nsh_Index meta, nc_ResolverIP = resolverIP \<rparr>)))"

definition installDefaultRoute :: "'w netlink \<Rightarrow> 'w \<Rightarrow> nsid \<Rightarrow> Addr \<Rightarrow> 'w \<times> unit result" where
  "installDefaultRoute k w nsFd gateway =
    bindr (onErr (wrapf ''open ns netlink handle'') (w, nl_NewHandleAt k w nsFd)) (\<lambda>w h.
    onErr (wrapf (''add default route via '' @ AddrString gateway)) (nl_RouteAdd k w h gateway))"

text \<open>The \<open>rollback\<close> closure of \<open>Provision\<close> around a step: best-effort cleanup, then the cause.\<close>

definition rollback :: "'w netlink \<Rightarrow> int \<Rightarrow> string \<Rightarrow> 'w \<times> unit result \<Rightarrow> 'w \<times> unit result" where
  "rollback k index what x = (case x of
     (w, Inl err) \<Rightarrow> (fst (deprovisionLocked k w index), Inl (wrapf what err))
   | (w, Inr a) \<Rightarrow> (w, Inr a))"

text \<open>The steps of \<open>Provision\<close> once the namespace exists.\<close>

definition setupTopology ::
  "'w linuxDriver \<Rightarrow> 'w \<Rightarrow> int \<Rightarrow> nsid \<Rightarrow> EgressPolicy option \<Rightarrow> 'w \<times> NamespaceHandle result" where
  "setupTopology d w index nsFd egress =
    (let k = dr_net d; meta = buildHandle index in
     bindr (rollback k index ''setup tap'' (setupTAP d w nsFd)) (\<lambda>w _.
     bindr (rollback k index ''setup veth pair'' (setupVethPair k w nsFd meta)) (\<lambda>w _.
     bindr (rollback k index ''install default route'' (installDefaultRoute k w nsFd (nsh_HostVethIP meta))) (\<lambda>w _.
     bindr (case dr_Firewall d of
              None \<Rightarrow> (w, Inr ())
            | Some fw \<Rightarrow> rollback k index ''configure egress'' (configureEgress k w nsFd fw meta egress (dr_ResolverIP d))) (\<lambda>w _.
     (w, Inr meta))))))"

definition Provision ::
  "'w linuxDriver \<Rightarrow> 'w \<Rightarrow> int \<Rightarrow> EgressPolicy option \<Rightarrow> 'w \<times> NamespaceHandle result" where
  "Provision d w index egress =
    (case validateIndex index of
       Inl err \<Rightarrow> (w, Inl err)
     | Inr _ \<Rightarrow>
    (let k = dr_net d; meta = buildHandle index in
     bindr (if hasStaleState k w meta
            then onErr (wrapf (''clean stale network state for index '' @ fmt_d index)) (deprovisionLocked k w index)
            else (w, Inr ())) (\<lambda>w _.
     bindr (onErr (wrapf ''create namespace'') (createNamespace k w (nsh_NamespaceName meta))) (\<lambda>w nsFd.
     setupTopology d w index nsFd egress))))"

definition Deprovision :: "'w linuxDriver \<Rightarrow> 'w \<Rightarrow> int \<Rightarrow> 'w \<times> unit result" where
  "Deprovision d w index =
    (case validateIndex index of
       Inl err \<Rightarrow> (w, Inl err)
     | Inr _ \<Rightarrow> deprovisionLocked (dr_net d) w index)"

section \<open>The state of the kernel\<close>

record netif =
  if_addrs :: "(Addr \<times> nat) list"
  if_up :: bool
  if_owner :: nat
  if_group :: nat
  if_peer :: "(nsid \<times> string) option"

record netspace =
  nn_links :: "string \<rightharpoonup> netif"
  nn_gateway :: "Addr option"
  nn_forward :: bool
  nn_rules :: "string \<Rightarrow> string \<Rightarrow> rulespec list"
  nn_chains :: "string \<Rightarrow> string \<Rightarrow> bool"

text \<open>Named namespaces, the contents of each namespace, and the namespace of the calling thread.\<close>

record kern =
  kn_named :: "string \<rightharpoonup> nsid"
  kn_space :: "nsid \<Rightarrow> netspace"
  kn_cur :: nsid

definition down :: netif where
  "down = \<lparr> if_addrs = [], if_up = False, if_owner = 0, if_group = 0, if_peer = None \<rparr>"

definition new_space :: netspace where
  "new_space = \<lparr> nn_links = [''lo'' \<mapsto> down], nn_gateway = None, nn_forward = False,
     nn_rules = (\<lambda>t c. []), nn_chains = (\<lambda>t c. False) \<rparr>"

definition on_space :: "nsid \<Rightarrow> (netspace \<Rightarrow> netspace) \<Rightarrow> kern \<Rightarrow> kern" where
  "on_space n f ks = ks\<lparr> kn_space := (kn_space ks)(n := f (kn_space ks n)) \<rparr>"

definition in_scope :: "nsid option \<Rightarrow> kern \<Rightarrow> nsid" where
  "in_scope s ks = (case s of None \<Rightarrow> kn_cur ks | Some n \<Rightarrow> n)"

fun link_name :: "Link \<Rightarrow> string" where
  "link_name (Tuntap nm u g) = nm"
| "link_name (Veth nm p n) = nm"
| "link_name (Device nm) = nm"

definition add_link :: "string \<Rightarrow> netif \<Rightarrow> netspace \<Rightarrow> netspace" where
  "add_link nm l s = s\<lparr> nn_links := (nn_links s)(nm \<mapsto> l) \<rparr>"

definition del_link :: "string \<Rightarrow> netspace \<Rightarrow> netspace" where
  "del_link nm s = s\<lparr> nn_links := (nn_links s)(nm := None) \<rparr>"

definition on_link :: "string \<Rightarrow> (netif \<Rightarrow> netif) \<Rightarrow> netspace \<Rightarrow> netspace" where
  "on_link nm f s = s\<lparr> nn_links := (nn_links s)(nm := map_option f (nn_links s nm)) \<rparr>"

fun k_LinkAdd :: "Link \<Rightarrow> kern \<Rightarrow> kern" where
  "k_LinkAdd (Tuntap nm u g) ks = on_space (kn_cur ks) (add_link nm (down\<lparr> if_owner := u, if_group := g \<rparr>)) ks"
| "k_LinkAdd (Veth nm p n) ks =
    on_space n (add_link p (down\<lparr> if_peer := Some (kn_cur ks, nm) \<rparr>))
      (on_space (kn_cur ks) (add_link nm (down\<lparr> if_peer := Some (n, p) \<rparr>)) ks)"
| "k_LinkAdd (Device nm) ks = ks"

text \<open>Deleting one end of a veth pair deletes the other.\<close>

definition k_LinkDel :: "string \<Rightarrow> kern \<Rightarrow> kern" where
  "k_LinkDel nm ks =
    (let ks' = on_space (kn_cur ks) (del_link nm) ks in
     case nn_links (kn_space ks (kn_cur ks)) nm of
       Some l \<Rightarrow> (case if_peer l of Some (n, p) \<Rightarrow> on_space n (del_link p) ks' | None \<Rightarrow> ks')
     | None \<Rightarrow> ks')"

text \<open>What the driver relies on of the kernel and of the packages over it. A call that fails changes
  nothing, except that a failed \<open>NewNamed\<close> may leave the thread in another namespace and the name
  behind. \<open>host\<close> is the namespace of the daemon; an open handle on it can be entered.\<close>

locale net_kernel =
  fixes k :: "'w netlink"
    and kern :: "'w \<Rightarrow> kern"
    and host :: nsid
  assumes get_cur: "netns_Get k w = Inr n \<Longrightarrow> n = kn_cur (kern w)"
    and set_ok: "netns_Set k w n = (w', Inr u) \<Longrightarrow> kern w' = (kern w)\<lparr> kn_cur := n \<rparr>"
    and set_err: "netns_Set k w n = (w', Inl e) \<Longrightarrow> kern w' = kern w"
    and set_host: "isOk (snd (netns_Set k w host))"
    and new_ok: "netns_NewNamed k w nm = (w', Inr n) \<Longrightarrow>
      kn_named (kern w) nm = None \<and> n \<notin> ran (kn_named (kern w)) \<and> n \<noteq> host
      \<and> (\<forall>nm l p. nn_links (kn_space (kern w) host) nm = Some l \<longrightarrow> if_peer l \<noteq> Some (n, p))
      \<and> kern w' = (kern w)\<lparr> kn_named := (kn_named (kern w))(nm \<mapsto> n),
          kn_space := (kn_space (kern w))(n := new_space), kn_cur := n \<rparr>"
    and new_err: "netns_NewNamed k w nm = (w', Inl e) \<Longrightarrow>
      (\<exists>c v. kern w' = (kern w)\<lparr> kn_cur := c, kn_named := (kn_named (kern w))(nm := v) \<rparr>
        \<and> (v = kn_named (kern w) nm \<or> kn_named (kern w) nm = None \<and> v \<notin> Some ` ran (kn_named (kern w)) \<and> v \<noteq> Some host
             \<and> (\<forall>nm l n p. nn_links (kn_space (kern w) host) nm = Some l \<longrightarrow> if_peer l = Some (n, p) \<longrightarrow> v \<noteq> Some n)))"
    and delete_ok: "netns_DeleteNamed k w nm = (w', Inr u) \<Longrightarrow>
      kern w' = (kern w)\<lparr> kn_named := (kn_named (kern w))(nm := None) \<rparr>"
    and delete_err: "netns_DeleteNamed k w nm = (w', Inl e) \<Longrightarrow>
      kern w' = kern w \<and> (errors_Is e ENOENT \<longrightarrow> kn_named (kern w) nm = None)"
    and handle_at: "nl_NewHandleAt k w n = Inr h \<Longrightarrow> h = n"
    and lookup_ok: "nl_LinkByName k w s nm = Inr l \<Longrightarrow>
      l = Device nm \<and> nn_links (kn_space (kern w) (in_scope s (kern w))) nm \<noteq> None"
    and lookup_err: "nl_LinkByName k w s nm = Inl e \<Longrightarrow> isLinkNotFound k e \<Longrightarrow>
      nn_links (kn_space (kern w) (in_scope s (kern w))) nm = None"
    and add_ok: "nl_LinkAdd k w l = (w', Inr u) \<Longrightarrow> kern w' = k_LinkAdd l (kern w)
      \<and> nn_links (kn_space (kern w) (kn_cur (kern w))) (link_name l) = None"
    and add_err: "nl_LinkAdd k w l = (w', Inl e) \<Longrightarrow> kern w' = kern w"
    and del_ok: "nl_LinkDel k w l = (w', Inr u) \<Longrightarrow> kern w' = k_LinkDel (link_name l) (kern w)"
    and del_err: "nl_LinkDel k w l = (w', Inl e) \<Longrightarrow> kern w' = kern w"
    and addr_ok: "nl_AddrAdd k w s l a = (w', Inr u) \<Longrightarrow>
      kern w' = on_space (in_scope s (kern w)) (on_link (link_name l) (if_addrs_update (\<lambda>as. as @ [a]))) (kern w)"
    and addr_err: "nl_AddrAdd k w s l a = (w', Inl e) \<Longrightarrow> kern w' = kern w"
    and up_ok: "nl_LinkSetUp k w s l = (w', Inr u) \<Longrightarrow>
      kern w' = on_space (in_scope s (kern w)) (on_link (link_name l) (if_up_update (\<lambda>_. True))) (kern w)"
    and up_err: "nl_LinkSetUp k w s l = (w', Inl e) \<Longrightarrow> kern w' = kern w"
    and route_ok: "nl_RouteAdd k w n g = (w', Inr u) \<Longrightarrow>
      kern w' = on_space n (nn_gateway_update (\<lambda>_. Some g)) (kern w)"
    and route_err: "nl_RouteAdd k w n g = (w', Inl e) \<Longrightarrow> kern w' = kern w"
    and write_ok: "os_WriteFile k w ipForwardPath (''1'' @ [CHR 0x0A]) = (w', Inr u) \<Longrightarrow>
      kern w' = on_space (kn_cur (kern w)) (nn_forward_update (\<lambda>_. True)) (kern w)"
    and write_err: "os_WriteFile k w ipForwardPath (''1'' @ [CHR 0x0A]) = (w', Inl e) \<Longrightarrow> kern w' = kern w"

section \<open>Invariant and frame\<close>

lemma handle_names [simp]:
  "nsh_NamespaceName (buildHandle i) = namespaceName i" "nsh_HostVethName (buildHandle i) = hostVethName i"
  "nsh_Index (buildHandle i) = i" "nsh_HostVethIP (buildHandle i) = fst (vethSubnetFor i)"
  by (simp_all add: buildHandle_def split: prod.split)

text \<open>The host's namespace has no name, names are not shared, and the peer of the host veth of an index
  is in no named namespace but the one of that index.\<close>

definition net_inv :: "nsid \<Rightarrow> kern \<Rightarrow> bool" where
  "net_inv host ks \<longleftrightarrow> host \<notin> ran (kn_named ks)
     \<and> (\<forall>x y n. kn_named ks x = Some n \<longrightarrow> kn_named ks y = Some n \<longrightarrow> x = y)
     \<and> (\<forall>i l n p. nn_links (kn_space ks host) (hostVethName i) = Some l \<longrightarrow> if_peer l = Some (n, p) \<longrightarrow>
          n \<noteq> host \<and> (\<forall>x. kn_named ks x = Some n \<longrightarrow> x = namespaceName i))"

text \<open>Nothing changes but the namespace and the host veth of the index: the other named namespaces,
  the other links of the host, its route, its forwarding flag and its rules stay.\<close>

definition only_index :: "nsid \<Rightarrow> int \<Rightarrow> kern \<Rightarrow> kern \<Rightarrow> bool" where
  "only_index host i ks ks' \<longleftrightarrow>
     (\<forall>x. x \<noteq> namespaceName i \<longrightarrow> kn_named ks' x = kn_named ks x
        \<and> (\<forall>n. kn_named ks x = Some n \<longrightarrow> kn_space ks' n = kn_space ks n))
     \<and> (\<forall>nm. nm \<noteq> hostVethName i \<longrightarrow> nn_links (kn_space ks' host) nm = nn_links (kn_space ks host) nm)
     \<and> nn_gateway (kn_space ks' host) = nn_gateway (kn_space ks host)
     \<and> nn_forward (kn_space ks' host) = nn_forward (kn_space ks host)
     \<and> nn_rules (kn_space ks' host) = nn_rules (kn_space ks host)
     \<and> nn_chains (kn_space ks' host) = nn_chains (kn_space ks host)"

lemma only_index_refl [simp]: "only_index host i ks ks"
  by (simp add: only_index_def)

lemma only_index_trans: "only_index host i a b \<Longrightarrow> only_index host i b c \<Longrightarrow> only_index host i a c"
  unfolding only_index_def by metis

text \<open>A namespace that only the index can name.\<close>

definition own :: "nsid \<Rightarrow> int \<Rightarrow> nsid \<Rightarrow> kern \<Rightarrow> bool" where
  "own host i n ks \<longleftrightarrow> n \<noteq> host \<and> (\<forall>x. kn_named ks x = Some n \<longrightarrow> x = namespaceName i)"

lemma kn_sel [simp]:
  "kn_named (on_space n f ks) = kn_named ks" "kn_cur (on_space n f ks) = kn_cur ks"
  "kn_space (on_space n f ks) = (kn_space ks)(n := f (kn_space ks n))"
  by (simp_all add: on_space_def)

lemma nn_sel [simp]:
  "nn_links (add_link nm l s) = (nn_links s)(nm \<mapsto> l)"
  "nn_links (del_link nm s) = (nn_links s)(nm := None)"
  "nn_links (on_link nm f s) = (nn_links s)(nm := map_option f (nn_links s nm))"
  "nn_gateway (add_link nm l s) = nn_gateway s" "nn_gateway (del_link nm s) = nn_gateway s"
  "nn_gateway (on_link nm f s) = nn_gateway s"
  "nn_forward (add_link nm l s) = nn_forward s" "nn_forward (del_link nm s) = nn_forward s"
  "nn_forward (on_link nm f s) = nn_forward s"
  "nn_rules (add_link nm l s) = nn_rules s" "nn_rules (del_link nm s) = nn_rules s"
  "nn_rules (on_link nm f s) = nn_rules s"
  "nn_chains (add_link nm l s) = nn_chains s" "nn_chains (del_link nm s) = nn_chains s"
  "nn_chains (on_link nm f s) = nn_chains s"
  by (simp_all add: add_link_def del_link_def on_link_def)

lemma k_LinkAdd_sel [simp]: "kn_named (k_LinkAdd l ks) = kn_named ks" "kn_cur (k_LinkAdd l ks) = kn_cur ks"
  by (cases l; simp)+

lemma k_LinkDel_sel [simp]: "kn_named (k_LinkDel nm ks) = kn_named ks" "kn_cur (k_LinkDel nm ks) = kn_cur ks"
  by (simp_all add: k_LinkDel_def Let_def split: option.splits)

text \<open>A state between the steps of a call: the invariant holds, only the index was touched, the
  names are those of the start, and the thread is in \<open>c\<close>.\<close>

definition mid :: "nsid \<Rightarrow> int \<Rightarrow> kern \<Rightarrow> nsid \<Rightarrow> kern \<Rightarrow> bool" where
  "mid host i ks0 c ks \<longleftrightarrow> net_inv host ks \<and> only_index host i ks0 ks \<and> kn_named ks = kn_named ks0 \<and> kn_cur ks = c"

lemma net_inv_step:
  assumes "net_inv host ks" "kn_named ks' = kn_named ks"
    and "\<And>i l n p. nn_links (kn_space ks' host) (hostVethName i) = Some l \<Longrightarrow> if_peer l = Some (n, p) \<Longrightarrow>
      (\<exists>l0. nn_links (kn_space ks host) (hostVethName i) = Some l0 \<and> if_peer l0 = Some (n, p)) \<or> own host i n ks"
  shows "net_inv host ks'"
proof -
  have "own host i n ks"
    if "nn_links (kn_space ks' host) (hostVethName i) = Some l" "if_peer l = Some (n, p)" for i l n p
    using assms(3) [OF that]
  proof
    assume "\<exists>l0. nn_links (kn_space ks host) (hostVethName i) = Some l0 \<and> if_peer l0 = Some (n, p)"
    with assms(1) show ?thesis unfolding net_inv_def own_def by blast
  qed
  with assms(1) show ?thesis unfolding net_inv_def own_def assms(2) by blast
qed

lemma only_index_own:
  assumes "own host i n ks"
  shows "only_index host i ks (on_space n f ks)"
  using assms unfolding only_index_def own_def kn_sel by (metis fun_upd_other)

lemma only_index_host:
  assumes "host \<notin> ran (kn_named ks)"
    "\<And>nm. nm \<noteq> hostVethName i \<Longrightarrow> nn_links (f (kn_space ks host)) nm = nn_links (kn_space ks host) nm"
    "nn_gateway (f (kn_space ks host)) = nn_gateway (kn_space ks host)"
    "nn_forward (f (kn_space ks host)) = nn_forward (kn_space ks host)"
    "nn_rules (f (kn_space ks host)) = nn_rules (kn_space ks host)"
    "nn_chains (f (kn_space ks host)) = nn_chains (kn_space ks host)"
  shows "only_index host i ks (on_space host f ks)"
  using assms unfolding only_index_def kn_sel by (metis fun_upd_other fun_upd_same ranI)

lemma own_named: "own host i n ks \<Longrightarrow> kn_named ks' = kn_named ks \<Longrightarrow> own host i n ks'"
  by (simp add: own_def)

lemma mid_trans: "mid host i a c b \<Longrightarrow> mid host i b c' d \<Longrightarrow> mid host i a c' d"
  unfolding mid_def using only_index_trans by metis

lemma mid_step:
  assumes "mid host i ks0 c ks" "net_inv host ks'" "only_index host i ks ks'"
    "kn_named ks' = kn_named ks" "kn_cur ks' = c'"
  shows "mid host i ks0 c' ks'"
  using assms only_index_trans unfolding mid_def by metis

lemma mid_cur:
  assumes "mid host i ks0 c ks"
  shows "mid host i ks0 c' (ks\<lparr> kn_cur := c' \<rparr>)"
proof (rule mid_step [OF assms])
  have "net_inv host (ks\<lparr> kn_cur := c' \<rparr>) = net_inv host ks" by (simp add: net_inv_def)
  then show "net_inv host (ks\<lparr> kn_cur := c' \<rparr>)" using assms by (simp add: mid_def)
  show "only_index host i ks (ks\<lparr> kn_cur := c' \<rparr>)" by (simp add: only_index_def)
qed simp_all

lemma mid_own_space:
  assumes m: "mid host i ks0 c ks" and "own host i n ks0"
  shows "mid host i ks0 c (on_space n f ks)"
proof (rule mid_step [OF m])
  have o: "own host i n ks" using assms own_named unfolding mid_def by blast
  then show "only_index host i ks (on_space n f ks)" by (rule only_index_own)
  have "kn_space (on_space n f ks) host = kn_space ks host" using o by (simp add: own_def)
  then show "net_inv host (on_space n f ks)"
    using m net_inv_step [of host ks "on_space n f ks"] unfolding mid_def by fastforce
qed (use m in \<open>simp_all add: mid_def\<close>)

lemma mid_host_space:
  assumes m: "mid host i ks0 c ks"
    and f: "\<And>s. nn_gateway (f s) = nn_gateway s \<and> nn_forward (f s) = nn_forward s \<and> nn_rules (f s) = nn_rules s
      \<and> nn_chains (f s) = nn_chains s" "\<And>s nm. nm \<noteq> hostVethName i \<Longrightarrow> nn_links (f s) nm = nn_links s nm"
    and p: "\<And>s l n p. nn_links (f s) (hostVethName i) = Some l \<Longrightarrow> if_peer l = Some (n, p) \<Longrightarrow>
      (\<exists>l0. nn_links s (hostVethName i) = Some l0 \<and> if_peer l0 = Some (n, p)) \<or> own host i n ks0"
  shows "mid host i ks0 c (on_space host f ks)"
proof (rule mid_step [OF m])
  have inv: "net_inv host ks" and nm: "kn_named ks = kn_named ks0" using m unfolding mid_def by blast+
  then have "host \<notin> ran (kn_named ks)" unfolding net_inv_def by blast
  then show "only_index host i ks (on_space host f ks)"
    by (rule only_index_host) (use f in blast)+
  show "net_inv host (on_space host f ks)"
  proof (rule net_inv_step [OF inv])
    fix j l n q
    assume l: "nn_links (kn_space (on_space host f ks) host) (hostVethName j) = Some l" "if_peer l = Some (n, q)"
    show "(\<exists>l0. nn_links (kn_space ks host) (hostVethName j) = Some l0 \<and> if_peer l0 = Some (n, q)) \<or> own host j n ks"
    proof (cases "j = i")
      case True
      with l p [of "kn_space ks host" l n q] own_named nm show ?thesis by (auto simp: own_def)
    next
      case False
      with l f(2) [of "hostVethName j" "kn_space ks host"] show ?thesis by auto
    qed
  qed simp
qed (use m in \<open>simp_all add: mid_def\<close>)

lemma mid_host_link:
  assumes "mid host i ks0 c ks" "\<And>l. if_peer (g l) = if_peer l"
  shows "mid host i ks0 c (on_space host (on_link (hostVethName i) g) ks)"
  by (rule mid_host_space [OF assms(1)]) (auto simp: assms(2))

lemma mid_add_veth:
  assumes m: "mid host i ks0 host ks" and o: "own host i n ks0"
  shows "mid host i ks0 host (k_LinkAdd (Veth (hostVethName i) p n) ks)"
proof -
  let ?l = "down\<lparr> if_peer := Some (n, p) \<rparr>"
  have "mid host i ks0 host (on_space host (add_link (hostVethName i) ?l) ks)"
    by (rule mid_host_space [OF m]) (use o in \<open>auto simp: down_def\<close>)
  from mid_own_space [OF this o] m show ?thesis by (simp add: mid_def)
qed

lemma mid_del_veth:
  assumes m: "mid host i ks0 host ks"
  shows "mid host i ks0 host (k_LinkDel (hostVethName i) ks)"
proof -
  let ?ks = "on_space host (del_link (hostVethName i)) ks"
  have d: "mid host i ks0 host ?ks" by (rule mid_host_space [OF m]) auto
  have c: "kn_cur ks = host" using m by (simp add: mid_def)
  consider (none) "k_LinkDel (hostVethName i) ks = ?ks"
    | (peer) l n p where "k_LinkDel (hostVethName i) ks = on_space n (del_link p) ?ks"
        "nn_links (kn_space ks host) (hostVethName i) = Some l" "if_peer l = Some (n, p)"
  proof (cases "nn_links (kn_space ks host) (hostVethName i)")
    case None
    then show ?thesis using none c by (simp add: k_LinkDel_def)
  next
    case (Some l)
    show ?thesis
    proof (cases "if_peer l")
      case None
      then show ?thesis using none c Some by (simp add: k_LinkDel_def)
    next
      case (Some np)
      then show ?thesis using peer [of "fst np" "snd np" l] c \<open>nn_links _ _ = Some l\<close>
        by (simp add: k_LinkDel_def split_beta)
    qed
  qed
  then show ?thesis
  proof cases
    case none
    then show ?thesis using d by simp
  next
    case peer
    have "own host i n ks0"
      using m peer(2,3) unfolding mid_def net_inv_def own_def by metis
    from mid_own_space [OF d this] show ?thesis by (simp add: peer(1))
  qed
qed

lemma k_LinkDel_gone: "kn_cur ks = c \<Longrightarrow> nn_links (kn_space (k_LinkDel nm ks) c) nm = None"
  by (simp add: k_LinkDel_def Let_def split: option.splits prod.splits)

text \<open>A state after a call: as \<open>mid\<close>, back in the host's namespace, and the name of the index may be new
  or gone.\<close>

definition ended :: "nsid \<Rightarrow> int \<Rightarrow> kern \<Rightarrow> kern \<Rightarrow> bool" where
  "ended host i ks0 ks \<longleftrightarrow> net_inv host ks \<and> only_index host i ks0 ks \<and> kn_cur ks = host"

lemma ended_trans: "ended host i a b \<Longrightarrow> ended host i b c \<Longrightarrow> ended host i a c"
  unfolding ended_def using only_index_trans by blast

lemma mid_ended: "mid host i ks0 host ks \<Longrightarrow> ended host i ks0 ks"
  by (simp add: ended_def mid_def)

lemma ended_mid: "net_inv host ks \<Longrightarrow> kn_cur ks = host \<Longrightarrow> mid host i ks host ks"
  by (simp add: mid_def)

lemma net_inv_rename:
  assumes "net_inv host ks"
    and "v = None \<or> (\<exists>n. v = Some n \<and> n \<notin> ran (kn_named ks) \<and> n \<noteq> host
      \<and> (\<forall>nm l p. nn_links (kn_space ks host) nm = Some l \<longrightarrow> if_peer l \<noteq> Some (n, p)))"
  shows "net_inv host (ks\<lparr> kn_named := (kn_named ks)(namespaceName i := v) \<rparr>)"
  using assms unfolding net_inv_def by (auto simp: ran_def split: if_splits)

lemma only_index_rename: "only_index host i ks (ks\<lparr> kn_named := (kn_named ks)(namespaceName i := v) \<rparr>)"
  by (simp add: only_index_def)

lemma cur_named_swap: "(ks\<lparr> kn_cur := c \<rparr>)\<lparr> kn_named := f \<rparr> = (ks\<lparr> kn_named := f \<rparr>)\<lparr> kn_cur := c \<rparr>" for ks :: kern
  by (cases ks) simp

lemma mid_unname:
  assumes "mid host i ks0 host ks"
  shows "ended host i ks0 (ks\<lparr> kn_named := (kn_named ks)(namespaceName i := None) \<rparr>)"
  using assms net_inv_rename [of host ks None i] only_index_rename only_index_trans
  unfolding mid_def ended_def by (metis kern.select_convs(3) kern.surjective kern.update_convs(1))

text \<open>A fresh namespace, named for the index.\<close>

definition named_ns :: "int \<Rightarrow> nsid \<Rightarrow> kern \<Rightarrow> kern" where
  "named_ns i n ks = ks\<lparr> kn_named := (kn_named ks)(namespaceName i \<mapsto> n) \<rparr>"

text \<open>Composition of changes to a namespace.\<close>

lemma on_space_twice: "on_space n f (on_space n g ks) = on_space n (f \<circ> g) ks"
  by (simp add: on_space_def)

lemma on_space_swap: "m \<noteq> n \<Longrightarrow> on_space m f (on_space n g ks) = on_space n g (on_space m f ks)"
  by (simp add: on_space_def fun_upd_twist)

lemma on_space_cur: "on_space n f (ks\<lparr> kn_cur := c \<rparr>) = (on_space n f ks)\<lparr> kn_cur := c \<rparr>"
  by (simp add: on_space_def)

lemma on_link_add: "on_link nm f \<circ> add_link nm l = add_link nm (f l)"
  by (simp add: fun_eq_iff on_link_def add_link_def)

lemma cur_same: "kn_cur ks = c \<Longrightarrow> ks\<lparr> kn_cur := c \<rparr> = ks" for ks :: kern
  by (cases ks) simp

text \<open>The links a provisioned namespace and the host get.\<close>

definition tap_if :: "'w linuxDriver \<Rightarrow> netif" where
  "tap_if d = \<lparr> if_addrs = [(tapIP, tapPrefixBits)], if_up = True, if_owner = dr_TAPOwner d,
     if_group = dr_TAPGroup d, if_peer = None \<rparr>"

definition veth_if :: "Addr \<Rightarrow> nsid \<Rightarrow> string \<Rightarrow> netif" where
  "veth_if ip n nm = \<lparr> if_addrs = [(ip, vethSubnetBits)], if_up = True, if_owner = 0, if_group = 0,
     if_peer = Some (n, nm) \<rparr>"

definition ns_config :: "'w linuxDriver \<Rightarrow> int \<Rightarrow> EgressPolicy option \<Rightarrow> NamespaceConfig" where
  "ns_config d i egress = \<lparr> nc_NamespaceVethName = namespaceVethName, nc_GuestSubnet = GuestSubnet, nc_Egress = egress,
     nc_SandboxIndex = i, nc_ResolverIP = dr_ResolverIP d \<rparr>"

text \<open>The topology of an index: its namespace with loopback, TAP and veth up and addressed, the
  default route, the host's end of the veth pair.\<close>

definition topology :: "'w linuxDriver \<Rightarrow> nsid \<Rightarrow> int \<Rightarrow> nsid \<Rightarrow> kern \<Rightarrow> bool" where
  "topology d host i n ks \<longleftrightarrow>
     kn_named ks (namespaceName i) = Some n
     \<and> nn_links (kn_space ks n) = [''lo'' \<mapsto> down\<lparr> if_up := True \<rparr>, tapDeviceName \<mapsto> tap_if d,
         namespaceVethName \<mapsto> veth_if (fst (snd (vethSubnetFor i))) host (hostVethName i)]
     \<and> nn_gateway (kn_space ks n) = Some (fst (vethSubnetFor i))
     \<and> nn_links (kn_space ks host) (hostVethName i) = Some (veth_if (fst (vethSubnetFor i)) n namespaceVethName)"

definition absent :: "nsid \<Rightarrow> int \<Rightarrow> kern \<Rightarrow> bool" where
  "absent host i ks \<longleftrightarrow> kn_named ks (namespaceName i) = None \<and> nn_links (kn_space ks host) (hostVethName i) = None"

end
