(* ===== verification/Linux_Network.thy ===== *)
theory Linux_Network
  imports Linux_Driver
begin

text \<open>
  The facts on the network driver: every call keeps the wiring invariant and touches its own index
  only (\<open>net_driver\<close>), a failed call cleans up on a kernel whose deletions work (\<open>clean_driver\<close>), and
  a call succeeds from any leftovers on a kernel that fails only for a reason in its state
  (\<open>healthy_driver\<close>). The kernel in memory at the end satisfies all three.
\<close>

section \<open>What every call keeps\<close>

lemma appendDests_keeps:
  assumes "\<And>w t c r. I w \<Longrightarrow> I (fst (AppendUnique ipt w t c r))"
  shows "I w \<Longrightarrow> I (fst (appendDests ipt w verb subnet veth target ds))"
proof (induction ds arbitrary: w)
  case (Cons a ds)
  show ?case unfolding appendDests.simps
    by (rule bindr_keeps [where I = I]) (simp_all only: fst_onErr assms Cons)
qed simp

lemma resolverRules_keeps:
  assumes "\<And>w t c r. I w \<Longrightarrow> I (fst (AppendUnique ipt w t c r))"
  shows "I w \<Longrightarrow> I (fst (resolverRules ipt w subnet veth ip ps))"
proof (induction ps arbitrary: w)
  case (Cons a ps)
  show ?case unfolding resolverRules.simps
    by (rule bindr_keeps [where I = I]) (simp_all only: fst_onErr assms Cons)
qed simp

text \<open>What the iptables and ipset calls keep, \<open>ConfigureNamespace\<close> keeps.\<close>

lemma ConfigureNamespace_keeps:
  assumes a: "\<And>w t c r. I w \<Longrightarrow> I (fst (AppendUnique (f_ipt f) w t c r))"
    and s: "\<And>w i. I w \<Longrightarrow> I (fst (f_sets f w i))"
    and w: "I w"
  shows "I (fst (ConfigureNamespace f w c))"
proof -
  note b = bindr_keeps [where I = I]
    and step = a s appendDests_keeps [where I = I, OF a] resolverRules_keeps [where I = I, OF a]
  have ret: "I w \<Longrightarrow> I (fst (appendReturnAccept f w u v))" for w u v
    by (simp add: appendReturnAccept_def a)
  have acc: "I w \<Longrightarrow> I (fst (appendEgressAccept f w u v))" for w u v
    by (simp add: appendEgressAccept_def a)
  have dom: "I w \<Longrightarrow> I (fst (appendResolverCarveOut f w u v x))" for w u v x
    unfolding appendResolverCarveOut_def by (rule step)
  have allow: "I w \<Longrightarrow> I (fst (appendEgressAllow f w u c p))" for w u c p
    unfolding appendEgressAllow_def Let_def
    by (intro b) (simp_all only: fst_onErr step dom fst_conv split: if_split, (intro b conjI impI; simp only: fst_onErr step dom fst_conv)+)
  have deny: "I w \<Longrightarrow> I (fst (appendEgressDeny f w u v p))" for w u v p
    unfolding appendEgressDeny_def by (intro b) (simp_all only: step acc)
  show ?thesis
  proof (cases "nc_Egress c")
    case None
    then show ?thesis unfolding ConfigureNamespace_def Let_def
      using w by (simp add: b ret acc a)
  next
    case (Some p)
    then show ?thesis unfolding ConfigureNamespace_def Let_def
      using w by (simp add: b ret allow deny a)
  qed
qed

text \<open>Adding an address or bringing a link up changes one link and not its peer.\<close>

definition on_one_link :: "nsid \<Rightarrow> string \<Rightarrow> kern \<Rightarrow> kern \<Rightarrow> bool" where
  "on_one_link n nm ks ks' \<longleftrightarrow> ks' = ks \<or>
     (\<exists>g. (\<forall>l. if_peer (g l) = if_peer l) \<and> ks' = on_space n (on_link nm g) ks)"

locale net_driver = net_kernel "dr_net d" kern host
  for d :: "'w linuxDriver"
    and kern :: "'w \<Rightarrow> kern"
    and host :: nsid +
  assumes fw_append: "dr_Firewall d = Some f \<Longrightarrow>
      \<exists>R. kern (fst (AppendUnique (f_ipt f) w t c r)) = on_space (kn_cur (kern w)) (nn_rules_update (\<lambda>_. R)) (kern w)"
    and fw_sets: "dr_Firewall d = Some f \<Longrightarrow> kern (fst (f_sets f w j)) = kern w"
begin

abbreviation "net \<equiv> dr_net d"

lemma set_fst: "kern (fst (netns_Set net w n)) = (kern w)\<lparr> kn_cur := n \<rparr> \<or> kern (fst (netns_Set net w n)) = kern w"
  using set_ok set_err by (cases "netns_Set net w n"; cases "snd (netns_Set net w n)") auto

lemma restore_host: "kern (restoreNs net host w) = (kern w)\<lparr> kn_cur := host \<rparr>"
  using set_host [of w] set_ok [of w host] unfolding restoreNs_def
  by (cases "netns_Set net w host") (auto simp: isOk_iff)

lemma add_fst: "kern (fst (nl_LinkAdd net w l)) = k_LinkAdd l (kern w) \<or> kern (fst (nl_LinkAdd net w l)) = kern w"
  using add_ok add_err by (cases "nl_LinkAdd net w l"; cases "snd (nl_LinkAdd net w l)") auto

lemma del_fst: "kern (fst (nl_LinkDel net w l)) = k_LinkDel (link_name l) (kern w)
    \<or> kern (fst (nl_LinkDel net w l)) = kern w"
  using del_ok del_err by (cases "nl_LinkDel net w l"; cases "snd (nl_LinkDel net w l)") auto

lemma addr_fst: "on_one_link (in_scope s (kern w)) (link_name l) (kern w) (kern (fst (nl_AddrAdd net w s l a)))"
proof (cases "snd (nl_AddrAdd net w s l a)")
  case (Inl e)
  then show ?thesis using addr_err [of w s l a] by (cases "nl_AddrAdd net w s l a") (simp add: on_one_link_def)
next
  case (Inr u)
  then show ?thesis using addr_ok [of w s l a] unfolding on_one_link_def
    by (cases "nl_AddrAdd net w s l a") (auto intro!: exI [of _ "if_addrs_update (\<lambda>as. as @ [a])"])
qed

lemma up_fst: "on_one_link (in_scope s (kern w)) (link_name l) (kern w) (kern (fst (nl_LinkSetUp net w s l)))"
proof (cases "snd (nl_LinkSetUp net w s l)")
  case (Inl e)
  then show ?thesis using up_err [of w s l] by (cases "nl_LinkSetUp net w s l") (simp add: on_one_link_def)
next
  case (Inr u)
  then show ?thesis using up_ok [of w s l] unfolding on_one_link_def
    by (cases "nl_LinkSetUp net w s l") (auto intro!: exI [of _ "if_up_update (\<lambda>_. True)"])
qed

lemma route_fst: "\<exists>g. kern (fst (nl_RouteAdd net w n a)) = on_space n g (kern w) \<or> kern (fst (nl_RouteAdd net w n a)) = kern w"
  using route_ok route_err by (cases "nl_RouteAdd net w n a"; cases "snd (nl_RouteAdd net w n a)") auto

lemma forward_fst: "\<exists>g. kern (fst (EnableNamespaceIPForward net w)) = on_space (kn_cur (kern w)) g (kern w)
    \<or> kern (fst (EnableNamespaceIPForward net w)) = kern w"
  using write_ok write_err unfolding EnableNamespaceIPForward_def writeSysctl_def
  by (cases "os_WriteFile net w ipForwardPath (''1'' @ [CHR 0x0A])";
      cases "snd (os_WriteFile net w ipForwardPath (''1'' @ [CHR 0x0A]))") auto

lemma inNamespace_mid:
  assumes m: "mid host i ks0 host (kern w)"
    and b: "\<And>w. mid host i ks0 n (kern w) \<Longrightarrow> mid host i ks0 n (kern (fst (body w)))"
  shows "mid host i ks0 host (kern (fst (inNamespace net w n body)))"
proof (cases "netns_Get net w")
  case (Inl e)
  then show ?thesis using m by (simp add: inNamespace_def)
next
  case (Inr c)
  with m get_cur have c: "c = host" unfolding mid_def by metis
  obtain w1 r where s: "netns_Set net w n = (w1, r)" by force
  show ?thesis
  proof (cases r)
    case (Inl e)
    with m set_err s have "mid host i ks0 host (kern w1)" by metis
    then show ?thesis using Inr c s Inl mid_cur by (simp add: inNamespace_def restore_host)
  next
    case (Inr u)
    with m set_ok s mid_cur have "mid host i ks0 n (kern w1)" by metis
    from b [OF this] show ?thesis
      using \<open>netns_Get net w = Inr c\<close> c s Inr mid_cur
      by (simp add: inNamespace_def restore_host split: prod.split) (metis fst_conv)
  qed
qed

lemma mid_bindr:
  assumes "mid host i ks0 n (kern (fst x))"
    "\<And>w a. x = (w, Inr a) \<Longrightarrow> mid host i ks0 n (kern w) \<Longrightarrow> mid host i ks0 n (kern (fst (f w a)))"
  shows "mid host i ks0 n (kern (fst (bindr x f)))"
  using assms by (rule bindr_keeps [where I = "\<lambda>w. mid host i ks0 n (kern w)"])

lemma mid_onErr: "mid host i ks0 n (kern (fst x)) \<Longrightarrow> mid host i ks0 n (kern (fst (onErr f x)))"
  by simp

lemma mid_look: "mid host i ks0 n (kern w) \<Longrightarrow> mid host i ks0 n (kern (fst (w, r)))"
  by simp

lemma mid_one_own: "on_one_link n nm ks ks' \<Longrightarrow> own host i n ks0 \<Longrightarrow> mid host i ks0 c ks \<Longrightarrow> mid host i ks0 c ks'"
  unfolding on_one_link_def using mid_own_space by blast

lemma mid_one_host: "on_one_link host (hostVethName i) ks ks' \<Longrightarrow> mid host i ks0 c ks \<Longrightarrow> mid host i ks0 c ks'"
  unfolding on_one_link_def using mid_host_link by blast

lemma mid_scope: "mid host i ks0 n ks \<Longrightarrow> in_scope None ks = n" "in_scope (Some m) ks = m"
  by (simp_all add: mid_def in_scope_def)

lemma mid_addr: "own host i n ks0 \<Longrightarrow> mid host i ks0 n (kern w) \<Longrightarrow>
    mid host i ks0 n (kern (fst (nl_AddrAdd net w None l a)))"
  using addr_fst [of None w l a] mid_one_own mid_scope(1) by metis

lemma mid_up: "own host i n ks0 \<Longrightarrow> mid host i ks0 n (kern w) \<Longrightarrow>
    mid host i ks0 n (kern (fst (nl_LinkSetUp net w None l)))"
  using up_fst [of None w l] mid_one_own mid_scope(1) by metis

lemma mid_addr_at: "own host i n ks0 \<Longrightarrow> mid host i ks0 c (kern w) \<Longrightarrow>
    mid host i ks0 c (kern (fst (nl_AddrAdd net w (Some n) l a)))"
  using addr_fst [of "Some n" w l a] mid_one_own unfolding mid_scope(2) by blast

lemma mid_up_at: "own host i n ks0 \<Longrightarrow> mid host i ks0 c (kern w) \<Longrightarrow>
    mid host i ks0 c (kern (fst (nl_LinkSetUp net w (Some n) l)))"
  using up_fst [of "Some n" w l] mid_one_own unfolding mid_scope(2) by blast

lemma mid_addr_host: "link_name l = hostVethName i \<Longrightarrow> mid host i ks0 host (kern w) \<Longrightarrow>
    mid host i ks0 host (kern (fst (nl_AddrAdd net w None l a)))"
  using addr_fst [of None w l a] mid_one_host mid_scope(1) by metis

lemma mid_up_host: "link_name l = hostVethName i \<Longrightarrow> mid host i ks0 host (kern w) \<Longrightarrow>
    mid host i ks0 host (kern (fst (nl_LinkSetUp net w None l)))"
  using up_fst [of None w l] mid_one_host mid_scope(1) by metis

lemma mid_tap: "own host i n ks0 \<Longrightarrow> mid host i ks0 n (kern w) \<Longrightarrow>
    mid host i ks0 n (kern (fst (nl_LinkAdd net w (Tuntap nm u g))))"
  using add_fst [of w "Tuntap nm u g"] mid_own_space [of host i ks0 n "kern w" n] by (auto simp: mid_def)

lemma mid_veth: "own host i n ks0 \<Longrightarrow> mid host i ks0 host (kern w) \<Longrightarrow>
    mid host i ks0 host (kern (fst (nl_LinkAdd net w (Veth (hostVethName i) p n))))"
  using add_fst [of w "Veth (hostVethName i) p n"] mid_add_veth by metis

lemma mid_route: "own host i n ks0 \<Longrightarrow> mid host i ks0 c (kern w) \<Longrightarrow>
    mid host i ks0 c (kern (fst (nl_RouteAdd net w n a)))"
  using route_fst [of w n a] mid_own_space by metis

lemma mid_forward: "own host i n ks0 \<Longrightarrow> mid host i ks0 n (kern w) \<Longrightarrow>
    mid host i ks0 n (kern (fst (EnableNamespaceIPForward net w)))"
  using forward_fst [of w] mid_own_space by (metis mid_def)

lemma mid_rules:
  assumes f: "dr_Firewall d = Some f" and o: "own host i n ks0" and m: "mid host i ks0 n (kern w)"
  shows "mid host i ks0 n (kern (fst (ConfigureNamespace f w c)))"
proof (rule ConfigureNamespace_keeps [where I = "\<lambda>w. mid host i ks0 n (kern w)"])
  fix w t c r
  assume "mid host i ks0 n (kern w)"
  then show "mid host i ks0 n (kern (fst (AppendUnique (f_ipt f) w t c r)))"
    using fw_append [OF f, of w t c r] mid_own_space [OF _ o] by (metis mid_def)
qed (use m fw_sets [OF f] in simp_all)

lemma setupTAP_mid:
  assumes "own host i n ks0" "mid host i ks0 host (kern w)"
  shows "mid host i ks0 host (kern (fst (setupTAP d w n)))"
  unfolding setupTAP_def Let_def
  by (intro inNamespace_mid [OF assms(2)] mid_bindr mid_onErr mid_tap mid_addr mid_up assms(1))

lemma lookup_name: "nl_LinkByName net w s nm = Inr l \<Longrightarrow> l = Device nm"
  using lookup_ok by blast

lemma setupVethPair_mid:
  assumes "own host i n ks0" "mid host i ks0 host (kern w)"
  shows "mid host i ks0 host (kern (fst (setupVethPair net w n (buildHandle i))))"
  unfolding setupVethPair_def Let_def handle_names
  using assms
  by (intro mid_bindr mid_onErr mid_veth) (auto intro!: mid_bindr mid_addr_host mid_up_host mid_addr_at mid_up_at
      simp: onErr_ok dest!: handle_at lookup_name)

lemma installDefaultRoute_mid:
  assumes "own host i n ks0" "mid host i ks0 host (kern w)"
  shows "mid host i ks0 host (kern (fst (installDefaultRoute net w n g)))"
  unfolding installDefaultRoute_def
  using assms by (auto intro!: mid_bindr mid_route simp: onErr_ok dest!: handle_at)

lemma configureEgress_mid:
  assumes "dr_Firewall d = Some f" "own host i n ks0" "mid host i ks0 host (kern w)"
  shows "mid host i ks0 host (kern (fst (configureEgress net w n f meta eg ip)))"
  unfolding configureEgress_def
  by (intro inNamespace_mid [OF assms(3)] mid_bindr mid_onErr mid_forward mid_rules assms(1,2))

lemma deprovision_named:
  assumes m: "mid host i ks0 host (kern w)" and r: "deprovisionLocked net w i = (w', r)"
  shows "\<exists>ks. mid host i ks0 host ks \<and> (kern w' = ks \<or> kern w' = ks\<lparr> kn_named := (kn_named ks)(namespaceName i := None) \<rparr>)
    \<and> (isOk r \<longrightarrow> kn_named (kern w') (namespaceName i) = None
         \<and> nn_links (kn_space (kern w') host) (hostVethName i) = None)"
proof -
  define x where "x = (case nl_LinkByName net w None (hostVethName i) of
        Inr link \<Rightarrow> onErr (wrapf ''delete host veth'') (nl_LinkDel net w link)
      | Inl err \<Rightarrow> if isLinkNotFound net err then (w, Inr ())
                   else (w, Inl (wrapf ''lookup host veth'' err)))"
  have xm: "mid host i ks0 host (kern (fst x))"
    using m del_fst [of w] mid_del_veth [OF m] unfolding x_def
    by (auto split: sum.splits dest!: lookup_name) (metis link_name.simps(3))
  have c: "kn_cur (kern w) = host" using m by (simp add: mid_def)
  have gone: "nn_links (kn_space (kern (fst x)) host) (hostVethName i) = None" if "isOk (snd x)"
  proof (cases "nl_LinkByName net w None (hostVethName i)")
    case (Inl e)
    then show ?thesis using that lookup_err [OF Inl] c
      by (auto simp: x_def in_scope_def split: if_splits)
  next
    case (Inr l)
    obtain w1 r1 where d: "nl_LinkDel net w l = (w1, r1)" by force
    with that Inr have "r1 = Inr ()" by (cases r1) (auto simp: x_def)
    with del_ok [of w l w1] d lookup_name [OF Inr] have "kern w1 = k_LinkDel (hostVethName i) (kern w)" by auto
    then show ?thesis using Inr d \<open>r1 = Inr ()\<close> k_LinkDel_gone [OF c] by (simp add: x_def)
  qed
  have dp: "deprovisionLocked net w i = bindr x (\<lambda>w _. case netns_DeleteNamed net w (namespaceName i) of
      (w', Inl err) \<Rightarrow> if \<not> errors_Is err ENOENT then (w', Inl (wrapf ''delete netns'' err)) else (w', Inr ())
    | (w', Inr _) \<Rightarrow> (w', Inr ()))"
    by (simp add: deprovisionLocked_def x_def)
  obtain w1 r1 where x: "x = (w1, r1)" by force
  show ?thesis
  proof (cases r1)
    case (Inl e)
    then show ?thesis using r xm unfolding dp x by auto
  next
    case (Inr u)
    obtain w2 r2 where d: "netns_DeleteNamed net w1 (namespaceName i) = (w2, r2)" by force
    show ?thesis
    proof (cases r2)
      case (Inl e)
      with delete_err [of w1] d have e: "kern w2 = kern w1"
        "errors_Is e ENOENT \<Longrightarrow> kn_named (kern w1) (namespaceName i) = None" by blast+
      then show ?thesis
        using r xm gone Inl d \<open>r1 = Inr u\<close> unfolding dp x by (intro exI [of _ "kern w1"]) (auto split: if_splits)
    next
      case (Inr u')
      with delete_ok [of w1] d have "kern w2 = (kern w1)\<lparr> kn_named := (kn_named (kern w1))(namespaceName i := None) \<rparr>"
        by blast
      then show ?thesis
        using r xm gone Inr d \<open>r1 = Inr u\<close> unfolding dp x by (intro exI [of _ "kern w1"]) auto
    qed
  qed
qed

lemma deprovision_ended:
  assumes "mid host i ks0 host (kern w)"
  shows "ended host i ks0 (kern (fst (deprovisionLocked net w i)))"
proof -
  obtain w' r where r: "deprovisionLocked net w i = (w', r)" by force
  from deprovision_named [OF assms r] show ?thesis
    using mid_ended mid_unname r by auto
qed

text \<open>A failed \<open>NewNamed\<close> touches nothing but the name and the namespace of the thread.\<close>

lemma newNamed_err_ended:
  assumes inv: "net_inv host (kern w)" and n: "netns_NewNamed net w (namespaceName i) = (w1, Inl e)"
  shows "ended host i (kern w) ((kern w1)\<lparr> kn_cur := host \<rparr>)"
proof -
  from new_err [OF n] obtain c' v where
    k: "kern w1 = (kern w)\<lparr> kn_cur := c', kn_named := (kn_named (kern w))(namespaceName i := v) \<rparr>"
    and v: "v = kn_named (kern w) (namespaceName i) \<or> kn_named (kern w) (namespaceName i) = None \<and> v \<notin> Some ` ran (kn_named (kern w))
       \<and> v \<noteq> Some host \<and> (\<forall>nm l n p. nn_links (kn_space (kern w) host) nm = Some l \<longrightarrow> if_peer l = Some (n, p) \<longrightarrow> v \<noteq> Some n)"
    by blast
  let ?ks = "(kern w)\<lparr> kn_named := (kn_named (kern w))(namespaceName i := v) \<rparr>"
  have "net_inv host ?ks"
  proof (cases "v = kn_named (kern w) (namespaceName i)")
    case True
    then have "?ks = kern w" by simp
    with inv show ?thesis by simp
  next
    case False
    with v show ?thesis by (intro net_inv_rename [OF inv]) (cases v; fastforce)
  qed
  then have "mid host i ?ks (kn_cur ?ks) ?ks" by (simp add: mid_def)
  from mid_ended [OF mid_cur [OF this, of host]] only_index_rename [of host i "kern w" v]
  have "ended host i (kern w) (?ks\<lparr> kn_cur := host \<rparr>)" unfolding ended_def using only_index_trans by blast
  then show ?thesis by (simp add: k)
qed

lemma newNamed_ok_mid:
  assumes inv: "net_inv host (kern w)" and c: "kn_cur (kern w) = host"
    and n: "netns_NewNamed net w (namespaceName i) = (w1, Inr nf)"
  shows "own host i nf (named_ns i nf (kern w))"
    and "mid host i (named_ns i nf (kern w)) nf (kern w1)"
    and "kn_space (kern w1) = (kn_space (kern w))(nf := new_space)"
    and "ended host i (named_ns i nf (kern w)) ks \<Longrightarrow> ended host i (kern w) ks"
proof -
  let ?ks = "named_ns i nf (kern w)"
  from new_ok [OF n] have
    fr: "nf \<notin> ran (kn_named (kern w))" "nf \<noteq> host"
       "\<forall>nm l p. nn_links (kn_space (kern w) host) nm = Some l \<longrightarrow> if_peer l \<noteq> Some (nf, p)"
    and k: "kern w1 = (on_space nf (\<lambda>_. new_space) ?ks)\<lparr> kn_cur := nf \<rparr>" by (auto simp: on_space_def named_ns_def)
  have "net_inv host ?ks" using fr unfolding named_ns_def by (intro net_inv_rename [OF inv]) blast
  then have m: "mid host i ?ks host ?ks" using c by (simp add: mid_def named_ns_def)
  show o: "own host i nf ?ks" using fr(1,2) by (auto simp: own_def ran_def named_ns_def split: if_splits)
  show "mid host i ?ks nf (kern w1)" unfolding k by (rule mid_cur [OF mid_own_space [OF m o]])
  show "kn_space (kern w1) = (kn_space (kern w))(nf := new_space)" by (simp add: k named_ns_def)
  show "ended host i ?ks ks \<Longrightarrow> ended host i (kern w) ks"
    using only_index_rename [of host i "kern w" "Some nf"] only_index_trans unfolding ended_def named_ns_def by blast
qed

lemma delete_fst:
  assumes "mid host i ks0 c (kern w)"
  shows "ended host i ks0 ((kern (fst (netns_DeleteNamed net w (namespaceName i))))\<lparr> kn_cur := host \<rparr>)"
proof -
  let ?w = "fst (netns_DeleteNamed net w (namespaceName i))"
  have "kern ?w = kern w \<or> kern ?w = (kern w)\<lparr> kn_named := (kn_named (kern w))(namespaceName i := None) \<rparr>"
    using delete_ok [of w] delete_err [of w]
    by (cases "netns_DeleteNamed net w (namespaceName i)";
        cases "snd (netns_DeleteNamed net w (namespaceName i))") auto
  then show ?thesis
  proof
    assume "kern ?w = kern w"
    with mid_ended [OF mid_cur [OF assms, of host]] show ?thesis by simp
  next
    assume "kern ?w = (kern w)\<lparr> kn_named := (kn_named (kern w))(namespaceName i := None) \<rparr>"
    with mid_unname [OF mid_cur [OF assms, of host]] show ?thesis by (simp add: cur_named_swap)
  qed
qed

lemma createNamespace_ended:
  assumes inv: "net_inv host (kern w)" and c: "kn_cur (kern w) = host"
    and r: "createNamespace net w (namespaceName i) = (w', r)"
  shows "ended host i (kern w) (kern w')"
    and "r = Inr n \<Longrightarrow> own host i n (kern w') \<and> kn_named (kern w') (namespaceName i) = Some n
     \<and> kn_space (kern w') = (kn_space (kern w))(n := on_link ''lo'' (if_up_update (\<lambda>_. True)) new_space)"
proof -
  have "ended host i (kern w) (kern w') \<and> (\<forall>n. r = Inr n \<longrightarrow> own host i n (kern w') \<and> kn_named (kern w') (namespaceName i) = Some n
     \<and> kn_space (kern w') = (kn_space (kern w))(n := on_link ''lo'' (if_up_update (\<lambda>_. True)) new_space))"
  proof (cases "netns_Get net w")
    case (Inl e)
    then show ?thesis using r inv c by (auto simp: createNamespace_def ended_def)
  next
    case (Inr oc)
    with c get_cur have oc: "oc = host" by blast
    obtain w1 r1 where n: "netns_NewNamed net w (namespaceName i) = (w1, r1)" by force
    show ?thesis
    proof (cases r1)
      case (Inl e)
      then show ?thesis using r n Inr oc newNamed_err_ended [OF inv, of i w1 e]
        by (auto simp: createNamespace_def restore_host)
    next
      case r1: (Inr nf)
      note fresh = newNamed_ok_mid [OF inv c n [unfolded r1]]
      define y where "y = (case nl_LinkByName net w1 None ''lo'' of
               Inl err \<Rightarrow> (w1, Inl err) | Inr lo \<Rightarrow> nl_LinkSetUp net w1 None lo)"
      obtain w2 r2 where y: "y = (w2, r2)" by force
      have "mid host i (named_ns i nf (kern w)) nf (kern (fst y))"
        unfolding y_def using fresh(2) mid_up [OF fresh(1,2)] by (simp split: sum.split)
      then have m2: "mid host i (named_ns i nf (kern w)) nf (kern w2)" by (simp add: y)
      have cr: "createNamespace net w (namespaceName i) = (case y of
          (w2, Inl err) \<Rightarrow>
            (restoreNs net host (fst (netns_DeleteNamed net w2 (namespaceName i))), Inl (wrapf ''bring lo up'' err))
        | (w2, Inr _) \<Rightarrow> (restoreNs net host w2, Inr nf))"
        using n Inr oc r1 by (simp add: createNamespace_def y_def)
      show ?thesis
      proof (cases r2)
        case (Inl err)
        then show ?thesis using r fresh(4) [OF delete_fst [OF m2]] unfolding cr y by (auto simp: restore_host)
      next
        case (Inr u)
        with y obtain lo where lo: "nl_LinkByName net w1 None ''lo'' = Inr lo" "nl_LinkSetUp net w1 None lo = (w2, Inr u)"
          by (auto simp: y_def split: sum.splits)
        from up_ok [OF lo(2)] lookup_name [OF lo(1)] mid_scope(1) [OF fresh(2)]
        have k2: "kern w2 = on_space nf (on_link ''lo'' (if_up_update (\<lambda>_. True))) (kern w1)" by simp
        have w': "kern w' = (kern w2)\<lparr> kn_cur := host \<rparr>" "r = Inr nf"
          using r unfolding cr y Inr by (auto simp: restore_host)
        have nm: "kn_named (kern w') = kn_named (named_ns i nf (kern w))" using m2 by (simp add: mid_def w')
        have "kn_space (kern w') = (kn_space (kern w))(nf := on_link ''lo'' (if_up_update (\<lambda>_. True)) new_space)"
          by (simp add: w' k2 fresh(3))
        moreover have "kn_named (kern w') (namespaceName i) = Some nf" unfolding nm by (simp add: named_ns_def)
        moreover have "ended host i (kern w) (kern w')"
          unfolding w' by (rule fresh(4) [OF mid_ended [OF mid_cur [OF m2]]])
        ultimately show ?thesis using own_named [OF fresh(1) nm] w'(2) by simp
      qed
    qed
  qed
  then show "ended host i (kern w) (kern w')"
    and "r = Inr n \<Longrightarrow> own host i n (kern w') \<and> kn_named (kern w') (namespaceName i) = Some n
     \<and> kn_space (kern w') = (kn_space (kern w))(n := on_link ''lo'' (if_up_update (\<lambda>_. True)) new_space)" by blast+
qed

lemma rollback_ended:
  assumes o: "own host i n ks0" and m: "mid host i ks0 host (kern (fst x))"
  shows "ended host i ks0 (kern (fst (rollback net i what x)))"
    and "isOk (snd (rollback net i what x)) \<Longrightarrow> fst (rollback net i what x) = fst x"
  using deprovision_ended [of i ks0 "fst x"] m mid_ended [OF m]
  by (cases x; cases "snd x"; simp add: rollback_def)+

lemma stage:
  assumes o: "own host i n ks0" and m: "mid host i ks0 host (kern (fst x))"
    and f: "\<And>w. mid host i ks0 host (kern w) \<Longrightarrow> ended host i ks0 (kern (fst (f w)))"
  shows "ended host i ks0 (kern (fst (bindr (rollback net i what x) (\<lambda>w _. f w))))"
proof (cases "snd x")
  case (Inl e)
  then show ?thesis using rollback_ended(1) [OF o m, of what] by (cases x) (simp add: rollback_def)
next
  case (Inr u)
  then show ?thesis using f [OF m] by (cases x) (simp add: rollback_def)
qed

lemma ended_bindr:
  assumes "ended host i ks0 (kern (fst x))"
    "\<And>w a. x = (w, Inr a) \<Longrightarrow> ended host i ks0 (kern w) \<Longrightarrow> ended host i ks0 (kern (fst (f w a)))"
  shows "ended host i ks0 (kern (fst (bindr x f)))"
  using assms by (rule bindr_keeps [where I = "\<lambda>w. ended host i ks0 (kern w)"])

text \<open>Whatever \<open>Provision\<close> returns, it keeps the invariant, touches its own index only, and leaves the
  thread in the namespace it came from.\<close>

lemma setupTopology_ended:
  assumes o: "own host i n ks0" and m: "mid host i ks0 host (kern w)"
  shows "ended host i ks0 (kern (fst (setupTopology d w i n eg)))"
  unfolding setupTopology_def Let_def
  by (intro stage [OF o] setupTAP_mid [OF o] m setupVethPair_mid [OF o] installDefaultRoute_mid [OF o])
     (auto simp: mid_ended split: option.split intro!: stage [OF o] configureEgress_mid [OF _ o])

lemma Provision_ended:
  assumes inv: "net_inv host (kern w)" and c: "kn_cur (kern w) = host"
  shows "ended host i (kern w) (kern (fst (Provision d w i eg)))"
proof (cases "validateIndex i")
  case (Inl e)
  then show ?thesis using inv c by (simp add: Provision_def ended_def)
next
  case (Inr u)
  have m: "mid host i (kern w) host (kern w)" using inv c by (simp add: mid_def)
  show ?thesis
    unfolding Provision_def Inr sum.case Let_def handle_names
  proof (rule ended_bindr)
    show "ended host i (kern w) (kern (fst (if hasStaleState net w (buildHandle i)
        then onErr (wrapf (''clean stale network state for index '' @ fmt_d i)) (deprovisionLocked net w i)
        else (w, Inr ()))))"
      using deprovision_ended [OF m] mid_ended [OF m] by simp
  next
    fix w1 :: 'w and u :: unit
    assume e1: "ended host i (kern w) (kern w1)"
    then have i1: "net_inv host (kern w1)" "kn_cur (kern w1) = host" by (simp_all add: ended_def)
    obtain w2 r2 where cr: "createNamespace net w1 (namespaceName i) = (w2, r2)" by force
    note e2 = createNamespace_ended(1) [OF i1 cr]
    have m2: "mid host i (kern w2) host (kern w2)" using e2 by (simp add: mid_def ended_def)
    show "ended host i (kern w) (kern (fst (bindr (onErr (wrapf ''create namespace'')
        (createNamespace net w1 (namespaceName i))) (\<lambda>w n. setupTopology d w i n eg))))"
    proof (cases r2)
      case (Inl e)
      then show ?thesis using ended_trans [OF e1 e2] cr by simp
    next
      case (Inr n)
      with createNamespace_ended(2) [OF i1 cr Inr] have "own host i n (kern w2)" by blast
      from ended_trans [OF ended_trans [OF e1 e2] setupTopology_ended [OF this m2]] show ?thesis
        using cr Inr by simp
    qed
  qed
qed

lemma inNamespace_success:
  assumes "inNamespace net w n body = (w', Inr u)" "kn_cur (kern w) = host"
  obtains w1 w2 where "kern w1 = (kern w)\<lparr> kn_cur := n \<rparr>" "body w1 = (w2, Inr u)"
    "kern w' = (kern w2)\<lparr> kn_cur := host \<rparr>"
proof -
  from assms(1) obtain oc where oc: "netns_Get net w = Inr oc" by (auto simp: inNamespace_def split: sum.splits)
  with assms(2) get_cur have oc: "netns_Get net w = Inr host" by blast
  obtain w1 r1 where s: "netns_Set net w n = (w1, r1)" by force
  obtain w2 r2 where b: "body w1 = (w2, r2)" by force
  from assms(1) oc s b have "\<exists>u. r1 = Inr u" "r2 = Inr u" "w' = restoreNs net host w2"
    by (auto simp: inNamespace_def split: sum.splits)
  with that set_ok s b restore_host show ?thesis by blast
qed

lemma setupTAP_success:
  assumes "setupTAP d w n = (w', Inr u)" "kn_cur (kern w) = host"
  shows "kern w' = on_space n (add_link tapDeviceName (tap_if d)) (kern w)"
proof -
  let ?tap = "Tuntap tapDeviceName (dr_TAPOwner d) (dr_TAPGroup d)"
  from assms(1) [unfolded setupTAP_def Let_def] assms(2) obtain w1 w2 w3 w4 where
    k: "kern w1 = (kern w)\<lparr> kn_cur := n \<rparr>" "kern w' = (kern w4)\<lparr> kn_cur := host \<rparr>"
    and s: "nl_LinkAdd net w1 ?tap = (w2, Inr ())" "nl_AddrAdd net w2 None ?tap (tapIP, tapPrefixBits) = (w3, Inr ())"
      "nl_LinkSetUp net w3 None ?tap = (w4, Inr u)"
    by (rule inNamespace_success) (auto simp: bindr_ok onErr_ok)
  show ?thesis
    using add_ok [OF s(1)] addr_ok [OF s(2)] up_ok [OF s(3)] assms(2)
    by (simp add: k in_scope_def on_space_twice on_space_cur on_link_add o_assoc [symmetric] tap_if_def down_def cur_same)
qed

lemma setupVethPair_success:
  assumes v: "setupVethPair net w n (buildHandle i) = (w', Inr u)" and c: "kn_cur (kern w) = host" and n: "n \<noteq> host"
  shows "kern w' = on_space n (add_link namespaceVethName (veth_if (fst (snd (vethSubnetFor i))) host (hostVethName i)))
     (on_space host (add_link (hostVethName i) (veth_if (fst (vethSubnetFor i)) n namespaceVethName)) (kern w))"
proof -
  from v obtain w1 w2 w3 w4 where
    s: "nl_LinkAdd net w (Veth (hostVethName i) namespaceVethName n) = (w1, Inr ())"
      "nl_AddrAdd net w1 None (Device (hostVethName i)) (fst (vethSubnetFor i), vethSubnetBits) = (w2, Inr ())"
      "nl_LinkSetUp net w2 None (Device (hostVethName i)) = (w3, Inr ())"
      "nl_AddrAdd net w3 (Some n) (Device namespaceVethName) (fst (snd (vethSubnetFor i)), vethSubnetBits) = (w4, Inr ())"
      "nl_LinkSetUp net w4 (Some n) (Device namespaceVethName) = (w', Inr u)"
    unfolding setupVethPair_def Let_def handle_names
    by (auto simp: bindr_ok onErr_ok dest!: handle_at lookup_name)
  show ?thesis
    using add_ok [OF s(1)] addr_ok [OF s(2)] up_ok [OF s(3)] addr_ok [OF s(4)] up_ok [OF s(5)] c
    by (simp add: in_scope_def on_space_twice on_space_swap [of host n] on_link_add o_assoc [symmetric] n [symmetric]
        veth_if_def down_def)
qed

lemma installDefaultRoute_success:
  assumes "installDefaultRoute net w n g = (w', Inr u)"
  shows "kern w' = on_space n (nn_gateway_update (\<lambda>_. Some g)) (kern w)"
  using assms unfolding installDefaultRoute_def by (auto simp: bindr_ok onErr_ok dest!: handle_at route_ok)

lemma rules_only:
  assumes f: "dr_Firewall d = Some f" and k: "kn_cur (kern w) = n"
  shows "\<exists>R. kern (fst (ConfigureNamespace f w c)) = on_space n (nn_rules_update (\<lambda>_. R)) (kern w)"
proof -
  have sr: "on_space n (nn_rules_update (\<lambda>_. R')) (on_space n (nn_rules_update (\<lambda>_. R)) ks)
      = on_space n (nn_rules_update (\<lambda>_. R')) ks" for R R' ks by (simp add: on_space_def)
  have "\<exists>R. kern w = on_space n (nn_rules_update (\<lambda>_. R)) (kern w)"
    by (intro exI [of _ "nn_rules (kn_space (kern w) n)"]) (simp add: on_space_def)
  then show ?thesis
  proof (rule ConfigureNamespace_keeps [where I = "\<lambda>w'. \<exists>R. kern w' = on_space n (nn_rules_update (\<lambda>_. R)) (kern w)", rotated 2])
    fix w' t c r
    assume "\<exists>R. kern w' = on_space n (nn_rules_update (\<lambda>_. R)) (kern w)"
    then obtain R where R: "kern w' = on_space n (nn_rules_update (\<lambda>_. R)) (kern w)" by blast
    obtain R' where "kern (fst (AppendUnique (f_ipt f) w' t c r)) = on_space (kn_cur (kern w')) (nn_rules_update (\<lambda>_. R')) (kern w')"
      using fw_append [OF f, of w' t c r] by blast
    then have "kern (fst (AppendUnique (f_ipt f) w' t c r)) = on_space n (nn_rules_update (\<lambda>_. R')) (kern w)"
      by (simp only: R sr kn_sel k)
    then show "\<exists>R. kern (fst (AppendUnique (f_ipt f) w' t c r)) = on_space n (nn_rules_update (\<lambda>_. R)) (kern w)"
      by blast
  qed (simp add: fw_sets [OF f])
qed

lemma configureEgress_success:
  assumes f: "dr_Firewall d = Some f" and e: "configureEgress net w n f (buildHandle i) eg (dr_ResolverIP d) = (w', Inr u)"
    and c: "kn_cur (kern w) = host"
  obtains w1 w2 R where "ConfigureNamespace f w1 (ns_config d i eg) = (w2, Inr u)" "kn_cur (kern w1) = n"
    "kn_cur (kern w2) = n" "nn_rules (kn_space (kern w1) n) = nn_rules (kn_space (kern w) n)"
    "nn_rules (kn_space (kern w2) n) = R"
    "kern w' = on_space n (nn_rules_update (\<lambda>_. R) \<circ> nn_forward_update (\<lambda>_. True)) (kern w)"
proof -
  from e [unfolded configureEgress_def handle_names ns_config_def [symmetric]] c obtain w0 w1 w2 where
    k: "kern w0 = (kern w)\<lparr> kn_cur := n \<rparr>" "kern w' = (kern w2)\<lparr> kn_cur := host \<rparr>"
    and s: "os_WriteFile net w0 ipForwardPath (''1'' @ [CHR 0x0A]) = (w1, Inr ())"
      "ConfigureNamespace f w1 (ns_config d i eg) = (w2, Inr u)"
    by (rule inNamespace_success)
      (auto simp: bindr_ok onErr_ok EnableNamespaceIPForward_def writeSysctl_def)
  have k1: "kern w1 = (on_space n (nn_forward_update (\<lambda>_. True)) (kern w))\<lparr> kn_cur := n \<rparr>"
    using write_ok [OF s(1)] k by (simp add: on_space_cur)
  obtain R where k2: "kern w2 = on_space n (nn_rules_update (\<lambda>_. R)) (kern w1)"
    using rules_only [OF f, of w1 n "ns_config d i eg"] s(2) k1 by auto
  show ?thesis
    by (rule that [OF s(2), of R]) (use c in \<open>simp_all add: k k1 k2 on_space_cur on_space_twice cur_same\<close>)
qed

lemma setupTopology_success:
  assumes t: "setupTopology d w i n eg = (w', Inr meta)" and c: "kn_cur (kern w) = host" and n: "n \<noteq> host"
    and nm: "kn_named (kern w) (namespaceName i) = Some n"
    and sp: "kn_space (kern w) n = on_link ''lo'' (if_up_update (\<lambda>_. True)) new_space"
  shows "meta = buildHandle i \<and> topology d host i n (kern w') \<and> (\<forall>f. dr_Firewall d = Some f \<longrightarrow>
     nn_forward (kn_space (kern w') n) \<and> (\<exists>w1 w2. ConfigureNamespace f w1 (ns_config d i eg) = (w2, Inr ())
       \<and> kn_cur (kern w1) = n \<and> kn_cur (kern w2) = n \<and> nn_rules (kn_space (kern w1) n) = (\<lambda>t c. [])
       \<and> nn_rules (kn_space (kern w2) n) = nn_rules (kn_space (kern w') n)))"
proof -
  have rb: "rollback net i what x = (wa, Inr b) \<longleftrightarrow> x = (wa, Inr b)" for what x wa b
    by (auto simp: rollback_def split: prod.splits sum.splits)
  define last where "last w = (case dr_Firewall d of None \<Rightarrow> (w, Inr ()) | Some fw \<Rightarrow> rollback net i ''configure egress''
      (configureEgress net w n fw (buildHandle i) eg (dr_ResolverIP d)))" for w
  from t [unfolded setupTopology_def Let_def last_def [symmetric]]
  obtain w1 w2 w3 where s: "setupTAP d w n = (w1, Inr ())"
    "setupVethPair net w1 n (buildHandle i) = (w2, Inr ())"
    "installDefaultRoute net w2 n (fst (vethSubnetFor i)) = (w3, Inr ())" and m: "meta = buildHandle i"
    and l: "last w3 = (w', Inr ())"
    by (auto simp: bindr_ok rb)
  note k1 = setupTAP_success [OF s(1) c]
  have c1: "kn_cur (kern w1) = host" using c by (simp add: k1)
  note k2 = setupVethPair_success [OF s(2) c1 n] and k3 = installDefaultRoute_success [OF s(3)]
  have c3: "kn_cur (kern w3) = host" using c1 by (simp add: k2 k3)
  have "nn_links (kn_space (kern w3) n) = [''lo'' \<mapsto> down\<lparr> if_up := True \<rparr>, tapDeviceName \<mapsto> tap_if d,
         namespaceVethName \<mapsto> veth_if (fst (snd (vethSubnetFor i))) host (hostVethName i)]"
    using n by (simp add: k3 k2 k1 sp new_space_def)
  then have top3: "topology d host i n (kern w3)"
    using nm n by (simp add: topology_def k3 k2 k1)
  have r3: "nn_rules (kn_space (kern w3) n) = (\<lambda>t c. [])"
    using sp n by (simp add: k1 k2 k3 new_space_def)
  show ?thesis
  proof (cases "dr_Firewall d")
    case None
    then show ?thesis using m top3 l by (simp add: last_def)
  next
    case (Some f)
    then have e: "configureEgress net w3 n f (buildHandle i) eg (dr_ResolverIP d) = (w', Inr ())"
      using l by (simp add: last_def rb)
    from configureEgress_success [OF Some e c3] obtain wa wb R where
      g: "ConfigureNamespace f wa (ns_config d i eg) = (wb, Inr ())" "kn_cur (kern wa) = n" "kn_cur (kern wb) = n"
        "nn_rules (kn_space (kern wa) n) = nn_rules (kn_space (kern w3) n)" "nn_rules (kn_space (kern wb) n) = R"
        "kern w' = on_space n (nn_rules_update (\<lambda>_. R) \<circ> nn_forward_update (\<lambda>_. True)) (kern w3)" by blast
    have "topology d host i n (kern w')" using top3 n by (simp add: topology_def g(6))
    moreover have "nn_forward (kn_space (kern w') n)" "nn_rules (kn_space (kern w') n) = R" by (simp_all add: g(6))
    ultimately show ?thesis using Some m g(1-5) r3 by (metis option.inject)
  qed
qed

lemma Provision_steps:
  assumes p: "Provision d w i eg = (w', r)" and inv: "net_inv host (kern w)" and c: "kn_cur (kern w) = host"
    and v: "isOk (validateIndex i)"
  obtains (stale) e where "r = Inl e" "\<not> isOk (snd (deprovisionLocked net w i))"
  | (create) e where "r = Inl (wrapf ''create namespace'' e)"
  | (topology) w2 n where "setupTopology d w2 i n eg = (w', r)" "own host i n (kern w2)"
      "mid host i (kern w2) host (kern w2)" "kn_named (kern w2) (namespaceName i) = Some n"
      "kn_space (kern w2) n = on_link ''lo'' (if_up_update (\<lambda>_. True)) new_space"
proof -
  have m: "mid host i (kern w) host (kern w)" using inv c by (simp add: mid_def)
  define x where "x = (if hasStaleState net w (buildHandle i)
      then onErr (wrapf (''clean stale network state for index '' @ fmt_d i)) (deprovisionLocked net w i)
      else (w, Inr ()))"
  have px: "(w', r) = bindr x (\<lambda>w _. bindr (onErr (wrapf ''create namespace'') (createNamespace net w (namespaceName i)))
      (\<lambda>w n. setupTopology d w i n eg))"
    using p v by (simp add: Provision_def x_def Let_def isOk_iff)
  obtain w1 r1 where x: "x = (w1, r1)" by force
  show thesis
  proof (cases r1)
    case (Inl e)
    have "\<not> isOk (snd x)" using x Inl by simp
    then have "\<not> isOk (snd (deprovisionLocked net w i))" unfolding x_def by (auto split: if_splits)
    moreover have "r = Inl e" using px unfolding x Inl by simp
    ultimately show ?thesis by (intro stale)
  next
    case (Inr u)
    have "ended host i (kern w) (kern (fst x))" using deprovision_ended [OF m] mid_ended [OF m] by (simp add: x_def)
    then have i1: "net_inv host (kern w1)" "kn_cur (kern w1) = host" by (simp_all add: ended_def x)
    obtain w2 r2 where cr: "createNamespace net w1 (namespaceName i) = (w2, r2)" by force
    show ?thesis
    proof (cases r2)
      case (Inl e)
      then show ?thesis using px cr create unfolding x Inr by simp
    next
      case r2: (Inr n)
      then have "setupTopology d w2 i n eg = (w', r)" using px cr unfolding x Inr by simp
      moreover have "mid host i (kern w2) host (kern w2)"
        using createNamespace_ended(1) [OF i1 cr] by (simp add: mid_def ended_def)
      ultimately show ?thesis using topology createNamespace_ended(2) [OF i1 cr r2] by simp
    qed
  qed
qed

lemma Provision_builds:
  assumes inv: "net_inv host (kern w)" "kn_cur (kern w) = host" and p: "Provision d w i eg = (w', Inr meta)"
  shows "\<exists>n. topology d host i n (kern w') \<and> (\<forall>f. dr_Firewall d = Some f \<longrightarrow>
     nn_forward (kn_space (kern w') n) \<and> (\<exists>w1 w2. ConfigureNamespace f w1 (ns_config d i eg) = (w2, Inr ())
       \<and> kn_cur (kern w1) = n \<and> kn_cur (kern w2) = n \<and> nn_rules (kn_space (kern w1) n) = (\<lambda>t c. [])
       \<and> nn_rules (kn_space (kern w2) n) = nn_rules (kn_space (kern w') n)))"
proof -
  have v: "isOk (validateIndex i)" using p by (auto simp: Provision_def isOk_iff split: sum.splits)
  from p inv v show ?thesis
  proof (cases rule: Provision_steps)
    case (topology w2 n)
    then have "kn_cur (kern w2) = host" "n \<noteq> host" by (simp_all add: mid_def own_def)
    from setupTopology_success [OF topology(1) this topology(4,5)] show ?thesis by blast
  qed simp_all
qed

end

text \<open>A kernel in which looking up and deleting do not fail.\<close>

locale clean_driver = net_driver d kern host
  for d :: "'w linuxDriver"
    and kern :: "'w \<Rightarrow> kern"
    and host :: nsid +
  assumes lookup_total: "nl_LinkByName (dr_net d) w s nm = Inl e \<Longrightarrow> isLinkNotFound (dr_net d) e"
    and del_total: "isOk (snd (nl_LinkDel (dr_net d) w (Device nm)))"
    and delete_total: "netns_DeleteNamed (dr_net d) w nm = (w', Inl e) \<Longrightarrow> errors_Is e ENOENT"
begin

lemma deprovision_total: "isOk (snd (deprovisionLocked net w i))"
proof -
  have "isOk (snd (case nl_LinkByName net w None (hostVethName i) of
        Inr link \<Rightarrow> onErr (wrapf ''delete host veth'') (nl_LinkDel net w link)
      | Inl err \<Rightarrow> if isLinkNotFound net err then (w, Inr ()) else (w, Inl (wrapf ''lookup host veth'' err))))"
    using lookup_total del_total by (auto split: sum.split dest!: lookup_name)
  moreover have "isOk (snd (case netns_DeleteNamed net w1 (namespaceName i) of
      (w', Inl err) \<Rightarrow> if \<not> errors_Is err ENOENT then (w', Inl (wrapf ''delete netns'' err)) else (w', Inr ())
    | (w', Inr _) \<Rightarrow> (w', Inr ())))" for w1
    using delete_total [of w1] by (auto split: prod.split sum.split)
  ultimately show ?thesis by (simp add: deprovisionLocked_def)
qed

lemma deprovision_absent:
  assumes "mid host i ks0 host (kern w)"
  shows "absent host i (kern (fst (deprovisionLocked net w i)))"
  using deprovision_named [OF assms, of "fst (deprovisionLocked net w i)" "snd (deprovisionLocked net w i)"]
    deprovision_total [of w i] by (auto simp: absent_def)

lemma stage_fails:
  assumes m: "mid host i ks0 host (kern (fst x))"
    and b: "bindr (rollback net i what x) (\<lambda>w _. f w) = (w', Inl e)"
    and f: "\<And>w. mid host i ks0 host (kern w) \<Longrightarrow> f w = (w', Inl e) \<Longrightarrow> absent host i (kern w')"
  shows "absent host i (kern w')"
proof (cases "snd x")
  case (Inl e')
  then show ?thesis using b deprovision_absent [OF m] by (cases x) (auto simp: rollback_def)
next
  case (Inr u)
  then show ?thesis using b f [OF m] by (cases x) (auto simp: rollback_def)
qed

lemma setupTopology_fails:
  assumes o: "own host i n ks0" and m: "mid host i ks0 host (kern w)"
    and t: "setupTopology d w i n eg = (w', Inl e)"
  shows "absent host i (kern w')"
proof -
  let ?meta = "buildHandle i"
  define f3 where "f3 w = bindr (case dr_Firewall d of None \<Rightarrow> (w, Inr ()) | Some fw \<Rightarrow>
      rollback net i ''configure egress'' (configureEgress net w n fw ?meta eg (dr_ResolverIP d))) (\<lambda>w _. (w, Inr ?meta))" for w
  define f2 where "f2 w = bindr (rollback net i ''install default route''
      (installDefaultRoute net w n (nsh_HostVethIP ?meta))) (\<lambda>w _. f3 w)" for w
  define f1 where "f1 w = bindr (rollback net i ''setup veth pair'' (setupVethPair net w n ?meta)) (\<lambda>w _. f2 w)" for w
  have 3: "absent host i (kern w')" if m: "mid host i ks0 host (kern w)" and e: "f3 w = (w', Inl e)" for w
  proof (cases "dr_Firewall d")
    case None
    with e show ?thesis by (simp add: f3_def)
  next
    case (Some f)
    from e show ?thesis unfolding f3_def Some option.case
      by (rule stage_fails [OF configureEgress_mid [OF Some o m]]) simp
  qed
  have 2: "absent host i (kern w')" if m: "mid host i ks0 host (kern w)" and e: "f2 w = (w', Inl e)" for w
    using e unfolding f2_def by (rule stage_fails [OF installDefaultRoute_mid [OF o m]]) (rule 3)
  have 1: "absent host i (kern w')" if m: "mid host i ks0 host (kern w)" and e: "f1 w = (w', Inl e)" for w
    using e unfolding f1_def by (rule stage_fails [OF setupVethPair_mid [OF o m]]) (rule 2)
  from t have "bindr (rollback net i ''setup tap'' (setupTAP d w n)) (\<lambda>w _. f1 w) = (w', Inl e)"
    by (simp add: setupTopology_def f1_def f2_def f3_def Let_def)
  then show ?thesis by (rule stage_fails [OF setupTAP_mid [OF o m]]) (rule 1)
qed

lemma Provision_fails:
  assumes inv: "net_inv host (kern w)" "kn_cur (kern w) = host"
    and v: "isOk (validateIndex i)" and p: "Provision d w i eg = (w', Inl e)"
    and c: "\<And>e'. e \<noteq> wrapf ''create namespace'' e'"
  shows "absent host i (kern w')"
  using p inv v
proof (cases rule: Provision_steps)
  case (stale e)
  then show ?thesis using deprovision_total by blast
next
  case (create e')
  then show ?thesis using c by blast
next
  case (topology w2 n)
  then show ?thesis using setupTopology_fails by blast
qed

end

lemma gateway_reached:
  assumes "isOk (validateIndex i)"
  shows "PrefixContains (PrefixFrom (fst (snd (vethSubnetFor i))) (int vethSubnetBits)) (fst (vethSubnetFor i))"
proof -
  have i: "0 \<le> i" "i < 16384" using assms by (simp_all add: validateIndex_ok)
  have "drop_bit 2 (netword i + 1) = drop_bit 2 (netword i + 2)"
    unfolding drop_bit_eq_uint netword_host [OF i] netword_ns [OF i] by simp
  then show ?thesis using PrefixContains4 [of "netword i + 2" 30 "netword i + 1"]
    by (simp add: vethSubnetFor_eq vethSubnetBits_def)
qed

text \<open>A policy the firewall can install.\<close>

definition installable :: "'w linuxDriver \<Rightarrow> EgressPolicy option \<Rightarrow> bool" where
  "installable d egress = (case egress of None \<Rightarrow> True
     | Some p \<Rightarrow> ep_Mode p = EgressDeny \<or> ep_Mode p = EgressAllow \<and> (ep_Domains p = [] \<or> IsValid (dr_ResolverIP d)))"

text \<open>A kernel that does what it can do: a call fails only for a reason in the state. A route needs a link
  that is up and reaches the gateway.\<close>

locale healthy_driver = clean_driver d kern host
  for d :: "'w linuxDriver"
    and kern :: "'w \<Rightarrow> kern"
    and host :: nsid +
  assumes get_total: "isOk (netns_Get (dr_net d) w)"
    and set_total: "isOk (snd (netns_Set (dr_net d) w n))"
    and new_total: "kn_named (kern w) nm = None \<Longrightarrow> isOk (snd (netns_NewNamed (dr_net d) w nm))"
    and stat_sees: "kn_named (kern w) nm \<noteq> None \<Longrightarrow> isOk (os_Stat (dr_net d) w (netnsMountDir @ ''/'' @ nm))"
    and handle_total: "isOk (nl_NewHandleAt (dr_net d) w n)"
    and lookup_found: "nn_links (kn_space (kern w) (in_scope s (kern w))) nm \<noteq> None \<Longrightarrow>
      isOk (nl_LinkByName (dr_net d) w s nm)"
    and tap_total: "nn_links (kn_space (kern w) (kn_cur (kern w))) nm = None \<Longrightarrow>
      isOk (snd (nl_LinkAdd (dr_net d) w (Tuntap nm u g)))"
    and veth_total: "kn_cur (kern w) = host \<Longrightarrow> n \<in> ran (kn_named (kern w)) \<Longrightarrow>
      nn_links (kn_space (kern w) host) nm = None \<Longrightarrow> nn_links (kn_space (kern w) n) p = None \<Longrightarrow>
      isOk (snd (nl_LinkAdd (dr_net d) w (Veth nm p n)))"
    and addr_total: "nn_links (kn_space (kern w) (in_scope s (kern w))) (link_name l) = Some i \<Longrightarrow>
      a \<notin> set (if_addrs i) \<Longrightarrow> isOk (snd (nl_AddrAdd (dr_net d) w s l a))"
    and up_total: "nn_links (kn_space (kern w) (in_scope s (kern w))) (link_name l) \<noteq> None \<Longrightarrow>
      isOk (snd (nl_LinkSetUp (dr_net d) w s l))"
    and route_total: "nn_gateway (kn_space (kern w) n) = None \<Longrightarrow> nn_links (kn_space (kern w) n) nm = Some i \<Longrightarrow> if_up i \<Longrightarrow>
      (ip, b) \<in> set (if_addrs i) \<Longrightarrow> PrefixContains (PrefixFrom ip (int b)) gw \<Longrightarrow> isOk (snd (nl_RouteAdd (dr_net d) w n gw))"
    and write_total: "isOk (snd (os_WriteFile (dr_net d) w ipForwardPath (''1'' @ [CHR 0x0A])))"
    and fw_total: "dr_Firewall d = Some f \<Longrightarrow> never_fails f"
begin

lemma inNamespace_total:
  assumes "kn_cur (kern w) = host" "\<And>w1. kern w1 = (kern w)\<lparr> kn_cur := n \<rparr> \<Longrightarrow> isOk (snd (body w1))"
  shows "isOk (snd (inNamespace net w n body))"
proof -
  obtain oc where oc: "netns_Get net w = Inr oc" using get_total [of w] by (auto simp: isOk_iff)
  obtain w1 u where s: "netns_Set net w n = (w1, Inr u)" using set_total [of w n] by (rule okE)
  from assms(2) [OF set_ok [OF s]] show ?thesis
    by (simp add: inNamespace_def oc s split_beta)
qed

lemma setupTAP_total:
  assumes c: "kn_cur (kern w) = host" and l: "nn_links (kn_space (kern w) n) tapDeviceName = None"
  shows "isOk (snd (setupTAP d w n))"
  unfolding setupTAP_def Let_def
proof (rule inNamespace_total [OF c])
  let ?tap = "Tuntap tapDeviceName (dr_TAPOwner d) (dr_TAPGroup d)"
  fix w1
  assume k1: "kern w1 = (kern w)\<lparr> kn_cur := n \<rparr>"
  obtain w2 u where s2: "nl_LinkAdd net w1 ?tap = (w2, Inr u)"
    by (rule okE [OF tap_total]) (auto simp: k1 l)
  note k2 = conjunct1 [OF add_ok [OF s2]]
  obtain w3 u' where s3: "nl_AddrAdd net w2 None ?tap (tapIP, tapPrefixBits) = (w3, Inr u')"
    by (rule okE [OF addr_total]) (auto simp: k2 k1 in_scope_def down_def)
  have "isOk (snd (nl_LinkSetUp net w3 None ?tap))"
    by (rule up_total) (simp add: addr_ok [OF s3] k2 k1 in_scope_def)
  then show "isOk (snd (bindr (onErr (wrapf (''create tap '' @ quote tapDeviceName @ '' (is the tun kernel module loaded?)''))
         (nl_LinkAdd net w1 ?tap)) (\<lambda>w _.
       bindr (onErr (wrapf ''assign tap ip'') (nl_AddrAdd net w None ?tap (tapIP, tapPrefixBits))) (\<lambda>w _.
       onErr (wrapf ''bring tap up'') (nl_LinkSetUp net w None ?tap)))))"
    by (simp add: s2 s3)
qed

lemma setupVethPair_total:
  assumes c: "kn_cur (kern w) = host" and n: "n \<noteq> host" "n \<in> ran (kn_named (kern w))"
    and l: "nn_links (kn_space (kern w) host) (hostVethName i) = None" "nn_links (kn_space (kern w) n) namespaceVethName = None"
  shows "isOk (snd (setupVethPair net w n (buildHandle i)))"
proof -
  let ?h = "Device (hostVethName i)" and ?v = "Device namespaceVethName"
  obtain w1 u where s1: "nl_LinkAdd net w (Veth (hostVethName i) namespaceVethName n) = (w1, Inr u)"
    by (rule okE [OF veth_total [OF c n(2) l]])
  note k1 = conjunct1 [OF add_ok [OF s1]]
  have "isOk (nl_LinkByName net w1 None (hostVethName i))"
    by (rule lookup_found) (use c n in \<open>simp add: k1 in_scope_def\<close>)
  then have f1: "nl_LinkByName net w1 None (hostVethName i) = Inr ?h" using lookup_name by (auto simp: isOk_iff)
  obtain w2 u2 where s2: "nl_AddrAdd net w1 None ?h (fst (vethSubnetFor i), vethSubnetBits) = (w2, Inr u2)"
    by (rule okE [OF addr_total]) (use c n in \<open>auto simp: k1 in_scope_def down_def\<close>)
  note k2 = addr_ok [OF s2]
  obtain w3 u3 where s3: "nl_LinkSetUp net w2 None ?h = (w3, Inr u3)"
    by (rule okE [OF up_total [of w2 None ?h]]) (use c n in \<open>simp add: k2 k1 in_scope_def\<close>)
  note k3 = up_ok [OF s3]
  have h3: "nl_NewHandleAt net w3 n = Inr n" using handle_total [of w3 n] handle_at by (auto simp: isOk_iff)
  have "isOk (nl_LinkByName net w3 (Some n) namespaceVethName)"
    by (rule lookup_found) (use c n in \<open>simp add: k3 k2 k1 in_scope_def\<close>)
  then have f3: "nl_LinkByName net w3 (Some n) namespaceVethName = Inr ?v" using lookup_name by (auto simp: isOk_iff)
  obtain w4 u4 where s4: "nl_AddrAdd net w3 (Some n) ?v (fst (snd (vethSubnetFor i)), vethSubnetBits) = (w4, Inr u4)"
    by (rule okE [OF addr_total]) (use c n in \<open>auto simp: k3 k2 k1 in_scope_def down_def\<close>)
  have "isOk (snd (nl_LinkSetUp net w4 (Some n) ?v))"
    by (rule up_total) (use c n in \<open>simp add: addr_ok [OF s4] k3 k2 k1 in_scope_def\<close>)
  then show ?thesis
    by (simp add: setupVethPair_def s1 f1 s2 s3 h3 f3 s4)
qed

lemma configureEgress_total:
  assumes f: "dr_Firewall d = Some f" and c: "kn_cur (kern w) = host" and p: "installable d eg"
  shows "isOk (snd (configureEgress net w n f (buildHandle i) eg (dr_ResolverIP d)))"
  unfolding configureEgress_def
proof (rule inNamespace_total [OF c])
  fix w1
  obtain w2 u where s: "os_WriteFile net w1 ipForwardPath (''1'' @ [CHR 0x0A]) = (w2, Inr u)"
    by (rule okE [OF write_total])
  have "PrefixIsValid GuestSubnet" by (simp add: GuestSubnet_def PrefixIsValid_def IsValid_def AddrFrom4_def tapPrefixBits_def)
  then have "isOk (snd (ConfigureNamespace f w2 (ns_config d i eg)))"
    using p unfolding ConfigureNamespace_isOk [OF fw_total [OF f]]
    by (auto simp: ns_config_def installable_def namespaceVethName_def split: option.splits)
  then show "isOk (snd (bindr (onErr (wrapf ''enable ip_forward in netns'') (EnableNamespaceIPForward net w1)) (\<lambda>w _.
      onErr (wrapf ''install firewall rules in netns'') (ConfigureNamespace f w
        \<lparr> nc_NamespaceVethName = namespaceVethName, nc_GuestSubnet = GuestSubnet, nc_Egress = eg,
          nc_SandboxIndex = nsh_Index (buildHandle i), nc_ResolverIP = dr_ResolverIP d \<rparr>))))"
    using s by (simp add: EnableNamespaceIPForward_def writeSysctl_def ns_config_def)
qed

lemma rollback_ok: "x = (w, Inr u) \<Longrightarrow> rollback net i what x = (w, Inr u)"
  by (simp add: rollback_def)

lemma setupTopology_total:
  assumes c: "kn_cur (kern w) = host" and n: "n \<noteq> host" and nm: "kn_named (kern w) (namespaceName i) = Some n"
    and sp: "kn_space (kern w) n = on_link ''lo'' (if_up_update (\<lambda>_. True)) new_space"
    and l: "nn_links (kn_space (kern w) host) (hostVethName i) = None"
    and p: "installable d eg" and v: "isOk (validateIndex i)"
  shows "isOk (snd (setupTopology d w i n eg))"
proof -
  have ne: "nn_links (kn_space (kern w) n) tapDeviceName = None" "nn_links (kn_space (kern w) n) namespaceVethName = None"
    "tapDeviceName \<noteq> namespaceVethName" "nn_gateway (kn_space (kern w) n) = None"
    by (simp_all add: sp new_space_def tapDeviceName_def namespaceVethName_def)
  obtain w1 u1 where s1: "setupTAP d w n = (w1, Inr u1)" by (rule okE [OF setupTAP_total [OF c ne(1)]])
  note k1 = setupTAP_success [OF s1 c]
  have c1: "kn_cur (kern w1) = host" using c by (simp add: k1)
  obtain w2 u2 where s2: "setupVethPair net w1 n (buildHandle i) = (w2, Inr u2)"
    by (rule okE [OF setupVethPair_total [OF c1 n]]) (use ne l n nm in \<open>auto simp: k1 ran_def\<close>)
  note k2 = setupVethPair_success [OF s2 c1 n]
  have h: "nl_NewHandleAt net w2 n = Inr n" using handle_total [of w2 n] handle_at by (auto simp: isOk_iff)
  have "isOk (snd (nl_RouteAdd net w2 n (fst (vethSubnetFor i))))"
    by (rule route_total [OF _ _ _ _ gateway_reached [OF v], where nm = namespaceVethName
          and i = "veth_if (fst (snd (vethSubnetFor i))) host (hostVethName i)"])
       (use ne n in \<open>simp_all add: k2 k1 veth_if_def\<close>)
  then obtain w3 u3 where s3: "installDefaultRoute net w2 n (fst (vethSubnetFor i)) = (w3, Inr u3)"
    by (rule okE) (simp add: installDefaultRoute_def h)
  have c3: "kn_cur (kern w3) = host" using c1 by (simp add: installDefaultRoute_success [OF s3] k2)
  have "isOk (snd (configureEgress net w3 n f (buildHandle i) eg (dr_ResolverIP d)))" if "dr_Firewall d = Some f" for f
    by (rule configureEgress_total [OF that c3 p])
  then show ?thesis
    by (auto simp: setupTopology_def Let_def rollback_ok [OF s1] rollback_ok [OF s2] rollback_ok [OF s3]
        split: option.split elim!: okE) (simp add: rollback_def)
qed

lemma createNamespace_total:
  assumes inv: "net_inv host (kern w)" and c: "kn_cur (kern w) = host" and nm: "kn_named (kern w) (namespaceName i) = None"
  shows "isOk (snd (createNamespace net w (namespaceName i)))"
proof -
  obtain oc where oc: "netns_Get net w = Inr oc" using get_total [of w] by (auto simp: isOk_iff)
  obtain w1 n where s: "netns_NewNamed net w (namespaceName i) = (w1, Inr n)" by (rule okE [OF new_total [OF nm]])
  note fresh = newNamed_ok_mid [OF inv c s]
  have lo: "nn_links (kn_space (kern w1) (in_scope None (kern w1))) ''lo'' \<noteq> None"
    using mid_scope(1) [OF fresh(2)] by (simp add: fresh(3) new_space_def)
  then have f: "nl_LinkByName net w1 None ''lo'' = Inr (Device ''lo'')"
    using lookup_found [OF lo] lookup_name by (auto simp: isOk_iff)
  have "isOk (snd (nl_LinkSetUp net w1 None (Device ''lo'')))" by (rule up_total) (use lo in simp)
  then show ?thesis by (elim okE) (simp add: createNamespace_def oc s f)
qed

lemma not_stale:
  assumes "\<not> hasStaleState net w (buildHandle i)" "kn_cur (kern w) = host"
  shows "kn_named (kern w) (namespaceName i) = None" "nn_links (kn_space (kern w) host) (hostVethName i) = None"
proof -
  have "\<not> isOk (os_Stat net w (netnsMountDir @ ''/'' @ namespaceName i))" "\<not> isOk (nl_LinkByName net w None (hostVethName i))"
    using assms(1) by (simp_all add: hasStaleState_def)
  then show "kn_named (kern w) (namespaceName i) = None" "nn_links (kn_space (kern w) host) (hostVethName i) = None"
    using stat_sees lookup_found assms(2) by (blast, metis in_scope_def option.case(1))
qed

text \<open>The sweep and the creation of the namespace succeed, and the topology is set up in a fresh
  namespace.\<close>

lemma Provision_reaches:
  assumes inv: "net_inv host (kern w)" "kn_cur (kern w) = host" and v: "isOk (validateIndex i)"
  obtains w2 n where "Provision d w i eg = setupTopology d w2 i n eg" "n \<noteq> host" "kn_cur (kern w2) = host"
    "kn_named (kern w2) (namespaceName i) = Some n"
    "kn_space (kern w2) n = on_link ''lo'' (if_up_update (\<lambda>_. True)) new_space"
    "nn_links (kn_space (kern w2) host) (hostVethName i) = None"
proof -
  have m: "mid host i (kern w) host (kern w)" using inv by (simp add: mid_def)
  define x where "x = (if hasStaleState net w (buildHandle i)
      then onErr (wrapf (''clean stale network state for index '' @ fmt_d i)) (deprovisionLocked net w i) else (w, Inr ()))"
  have "isOk (snd x)" using deprovision_total by (simp add: x_def)
  then obtain w1 u where x: "x = (w1, Inr u)" by (rule okE)
  have "ended host i (kern w) (kern (fst x))" using deprovision_ended [OF m] mid_ended [OF m] by (simp add: x_def)
  then have i1: "net_inv host (kern w1)" "kn_cur (kern w1) = host" by (simp_all add: ended_def x)
  have "absent host i (kern (fst x))"
    using deprovision_absent [OF m] not_stale [OF _ inv(2)] by (simp add: x_def absent_def)
  then have a: "kn_named (kern w1) (namespaceName i) = None" "nn_links (kn_space (kern w1) host) (hostVethName i) = None"
    by (simp_all add: absent_def x)
  obtain w2 n where cr: "createNamespace net w1 (namespaceName i) = (w2, Inr n)"
    by (rule okE [OF createNamespace_total [OF i1 a(1)]])
  have k2: "own host i n (kern w2)" "kn_named (kern w2) (namespaceName i) = Some n"
    "kn_space (kern w2) = (kn_space (kern w1))(n := on_link ''lo'' (if_up_update (\<lambda>_. True)) new_space)"
    "kn_cur (kern w2) = host"
    using createNamespace_ended [OF i1 cr] by (auto simp: ended_def)
  then have n: "n \<noteq> host" by (simp add: own_def)
  have "Provision d w i eg = setupTopology d w2 i n eg"
    using v x by (auto simp: Provision_def Let_def cr isOk_iff x_def)
  then show thesis by (rule that [OF _ n k2(4,2)]) (use k2(3) n a in simp_all)
qed

lemma Provision_total:
  assumes inv: "net_inv host (kern w)" "kn_cur (kern w) = host" and v: "isOk (validateIndex i)" and p: "installable d eg"
  shows "isOk (snd (Provision d w i eg))"
proof (rule Provision_reaches [OF inv v, of eg])
  fix w2 n
  assume s: "Provision d w i eg = setupTopology d w2 i n eg" "n \<noteq> host" "kn_cur (kern w2) = host"
    "kn_named (kern w2) (namespaceName i) = Some n"
    "kn_space (kern w2) n = on_link ''lo'' (if_up_update (\<lambda>_. True)) new_space"
    "nn_links (kn_space (kern w2) host) (hostVethName i) = None"
  show ?thesis unfolding s(1) by (rule setupTopology_total [OF s(3,2,4,5,6) p v])
qed

lemma stage_error:
  assumes "bindr (rollback net i what x) (\<lambda>w _. f w) = (w', Inl e)"
  shows "(\<exists>e'. e = wrapf what e') \<or> (\<exists>w. f w = (w', Inl e))"
  using assms by (cases x; cases "snd x") (auto simp: rollback_def)

lemma Provision_error:
  assumes inv: "net_inv host (kern w)" "kn_cur (kern w) = host" and v: "isOk (validateIndex i)"
    and p: "Provision d w i eg = (w', Inl e)"
  shows "\<exists>what e'. e = wrapf what e' \<and> what \<noteq> ''create namespace''"
proof (rule Provision_reaches [OF inv v, of eg])
  let ?meta = "buildHandle i"
  fix w2 n
  assume "Provision d w i eg = setupTopology d w2 i n eg"
  then have t: "setupTopology d w2 i n eg = (w', Inl e)" using p by simp
  have thesisI: ?thesis if "e = wrapf what e'" "what \<noteq> ''create namespace''" for what e' using that by blast
  define f3 where "f3 w = bindr (case dr_Firewall d of None \<Rightarrow> (w, Inr ()) | Some fw \<Rightarrow>
      rollback net i ''configure egress'' (configureEgress net w n fw ?meta eg (dr_ResolverIP d))) (\<lambda>w _. (w, Inr ?meta))" for w
  define f2 where "f2 w = bindr (rollback net i ''install default route''
      (installDefaultRoute net w n (nsh_HostVethIP ?meta))) (\<lambda>w _. f3 w)" for w
  define f1 where "f1 w = bindr (rollback net i ''setup veth pair'' (setupVethPair net w n ?meta)) (\<lambda>w _. f2 w)" for w
  have 3: ?thesis if "f3 w = (w', Inl e)" for w
  proof (cases "dr_Firewall d")
    case None
    with that show ?thesis by (simp add: f3_def)
  next
    case (Some f)
    from stage_error [OF that [unfolded f3_def Some option.case]] show ?thesis
      by (auto intro!: thesisI [of "''configure egress''"])
  qed
  have 2: ?thesis if "f2 w = (w', Inl e)" for w
    using stage_error [OF that [unfolded f2_def]] 3 by (elim disjE exE) (auto intro!: thesisI [of "''install default route''"])
  have 1: ?thesis if "f1 w = (w', Inl e)" for w
    using stage_error [OF that [unfolded f1_def]] 2 by (elim disjE exE) (auto intro!: thesisI [of "''setup veth pair''"])
  from t have "bindr (rollback net i ''setup tap'' (setupTAP d w2 n)) (\<lambda>w _. f1 w) = (w', Inl e)"
    by (simp add: setupTopology_def f1_def f2_def f3_def Let_def)
  from stage_error [OF this] 1 show ?thesis by (elim disjE exE) (auto intro!: thesisI [of "''setup tap''"])
qed

end

section \<open>A kernel in memory\<close>

text \<open>Namespaces are numbered in the order they are created, the host's is 0. The state a world stands
  for drops references to numbers that were not handed out yet.\<close>

record mem_net =
  mn_kern :: kern
  mn_last :: nat

definition mask_if :: "nat \<Rightarrow> netif \<Rightarrow> netif" where
  "mask_if m l = (case if_peer l of Some (n, p) \<Rightarrow> if n \<le> m then l else l\<lparr> if_peer := None \<rparr> | None \<Rightarrow> l)"

definition mask :: "nat \<Rightarrow> kern \<Rightarrow> kern" where
  "mask m ks = ks\<lparr> kn_named := (\<lambda>x. case kn_named ks x of Some n \<Rightarrow> if n \<le> m then Some n else None | None \<Rightarrow> None),
     kn_space := (kn_space ks)(0 := (kn_space ks 0)\<lparr> nn_links := (\<lambda>nm. map_option (mask_if m) (nn_links (kn_space ks 0) nm)) \<rparr>) \<rparr>"

definition kof :: "mem_net \<Rightarrow> kern" where
  "kof w = mask (mn_last w) (mn_kern w)"

definition masked :: "nat \<Rightarrow> kern \<Rightarrow> bool" where
  "masked m ks \<longleftrightarrow> (\<forall>x n. kn_named ks x = Some n \<longrightarrow> n \<le> m)
     \<and> (\<forall>nm l n p. nn_links (kn_space ks 0) nm = Some l \<longrightarrow> if_peer l = Some (n, p) \<longrightarrow> n \<le> m)"

lemma mask_if_peer: "if_peer (mask_if m l) = Some (n, p) \<Longrightarrow> n \<le> m"
  by (cases "if_peer l") (auto simp: mask_if_def split: if_splits)

lemma masked_mask: "masked m (mask m ks)"
  by (auto simp: masked_def mask_def dest: mask_if_peer split: option.splits if_splits)

lemma mask_masked:
  assumes "masked m ks"
  shows "mask m ks = ks"
proof -
  have "(\<lambda>x. case kn_named ks x of Some n \<Rightarrow> if n \<le> m then Some n else None | None \<Rightarrow> None) = kn_named ks"
    using assms by (auto simp: masked_def fun_eq_iff split: option.split)
  moreover have "map_option (mask_if m) (nn_links (kn_space ks 0) nm) = nn_links (kn_space ks 0) nm" for nm
    using assms by (auto simp: masked_def mask_if_def split: option.split intro!: option.map_ident_strong)
  ultimately show ?thesis by (simp add: mask_def)
qed

definition to :: "mem_net \<Rightarrow> kern \<Rightarrow> mem_net" where
  "to w ks = w\<lparr> mn_kern := ks \<rparr>"

lemma kof_to: "masked (mn_last w) ks \<Longrightarrow> kof (to w ks) = ks"
  by (simp add: kof_def to_def mask_masked)

lemma kof_masked: "masked (mn_last w) (kof w)"
  by (simp add: kof_def masked_mask)

definition mem_exists :: goerr where
  "mem_exists = New ''file exists''"

definition mem_has :: "mem_net \<Rightarrow> nsid \<Rightarrow> string \<Rightarrow> bool" where
  "mem_has w n nm = (nn_links (kn_space (kof w) n) nm \<noteq> None)"

definition mem_net_ops :: "mem_net netlink" where
  "mem_net_ops = \<lparr>
     netns_Get = (\<lambda>w. Inr (kn_cur (kof w))),
     netns_Set = (\<lambda>w n. (to w ((kof w)\<lparr> kn_cur := n \<rparr>), Inr ())),
     netns_NewNamed = (\<lambda>w nm. if kn_named (kof w) nm \<noteq> None then (w, Inl mem_exists)
       else let n = Suc (mn_last w) in
         (\<lparr> mn_kern = (kof w)\<lparr> kn_named := (kn_named (kof w))(nm \<mapsto> n),
              kn_space := (kn_space (kof w))(n := new_space), kn_cur := n \<rparr>, mn_last = n \<rparr>, Inr n)),
     netns_DeleteNamed = (\<lambda>w nm. if kn_named (kof w) nm = None then (w, Inl ENOENT)
       else (to w ((kof w)\<lparr> kn_named := (kn_named (kof w))(nm := None) \<rparr>), Inr ())),
     nl_NewHandleAt = (\<lambda>w n. Inr n),
     nl_LinkByName = (\<lambda>w s nm. if mem_has w (in_scope s (kof w)) nm then Inr (Device nm) else Inl ENODEV),
     nl_LinkAdd = (\<lambda>w l. if mem_has w (kn_cur (kof w)) (link_name l) then (w, Inl mem_exists)
       else case l of Veth nm p n \<Rightarrow> if mn_last w < n \<or> mn_last w < kn_cur (kof w) then (w, Inl ENODEV) else (to w (k_LinkAdd l (kof w)), Inr ())
         | _ \<Rightarrow> (to w (k_LinkAdd l (kof w)), Inr ())),
     nl_LinkDel = (\<lambda>w l. (to w (k_LinkDel (link_name l) (kof w)), Inr ())),
     nl_AddrAdd = (\<lambda>w s l a. (to w (on_space (in_scope s (kof w)) (on_link (link_name l) (if_addrs_update (\<lambda>as. as @ [a]))) (kof w)), Inr ())),
     nl_LinkSetUp = (\<lambda>w s l. (to w (on_space (in_scope s (kof w)) (on_link (link_name l) (if_up_update (\<lambda>_. True))) (kof w)), Inr ())),
     nl_RouteAdd = (\<lambda>w n g. (to w (on_space n (nn_gateway_update (\<lambda>_. Some g)) (kof w)), Inr ())),
     nl_isLinkNotFoundError = (\<lambda>e. False),
     os_Stat = (\<lambda>w path. if kn_named (kof w) (drop (length netnsMountDir + 1) path) = None then Inl ENOENT else Inr ()),
     os_WriteFile = (\<lambda>w path c. (to w (on_space (kn_cur (kof w)) (nn_forward_update (\<lambda>_. True)) (kof w)), Inr ())) \<rparr>"

lemma masked_space:
  assumes "masked m ks" "\<And>s nm l n p. nn_links (f s) nm = Some l \<Longrightarrow> if_peer l = Some (n, p) \<Longrightarrow>
      (\<exists>l0. nn_links s nm = Some l0 \<and> if_peer l0 = Some (n, p)) \<or> n \<le> m"
  shows "masked m (on_space k f ks)"
  using assms unfolding masked_def kn_sel by (metis fun_upd_apply)

lemma masked_links:
  "masked m ks \<Longrightarrow> (\<And>l. if_peer (g l) = if_peer l) \<Longrightarrow> masked m (on_space k (on_link nm g) ks)"
  "masked m ks \<Longrightarrow> masked m (on_space k (del_link nm) ks)"
  "masked m ks \<Longrightarrow> (case if_peer l of Some (n, p) \<Rightarrow> n \<le> m | None \<Rightarrow> True) \<Longrightarrow> masked m (on_space k (add_link nm l) ks)"
  "masked m ks \<Longrightarrow> (\<And>s. nn_links (h s) = nn_links s) \<Longrightarrow> masked m (on_space k h ks)"
  by (rule masked_space; force split: if_splits)+

lemma masked_k_LinkDel: "masked m ks \<Longrightarrow> masked m (k_LinkDel nm ks)"
  by (auto simp: k_LinkDel_def Let_def intro: masked_links split: option.split)

lemma masked_k_LinkAdd:
  "masked m ks \<Longrightarrow> (case l of Veth nm p n \<Rightarrow> n \<le> m \<and> kn_cur ks \<le> m | _ \<Rightarrow> True) \<Longrightarrow> masked m (k_LinkAdd l ks)"
  by (cases l) (auto intro!: masked_links(3) simp: down_def)

lemma mem_net_kernel: "net_kernel mem_net_ops kof 0"
proof
  note kt = kof_to [OF masked_links(1)] kof_to [OF masked_links(4)] kof_to [OF masked_k_LinkDel]
  note sel = mem_net_ops_def Let_def
  fix w w' :: mem_net and n h :: nsid and nm path :: string and e :: goerr and u :: unit and s :: "nsid option"
    and l :: Link and a :: "Addr \<times> nat" and g :: Addr
  show "netns_Get mem_net_ops w = Inr n \<Longrightarrow> n = kn_cur (kof w)" by (simp add: sel)
  have "masked (mn_last w) ((kof w)\<lparr> kn_cur := n \<rparr>)" for n using kof_masked [of w] by (simp add: masked_def)
  then show "netns_Set mem_net_ops w n = (w', Inr u) \<Longrightarrow> kof w' = (kof w)\<lparr> kn_cur := n \<rparr>"
    by (auto simp: sel kof_to)
  show "netns_Set mem_net_ops w n = (w', Inl e) \<Longrightarrow> kof w' = kof w" by (simp add: sel)
  show "isOk (snd (netns_Set mem_net_ops w 0))" by (simp add: sel)
  show "netns_NewNamed mem_net_ops w nm = (w', Inr n) \<Longrightarrow> kn_named (kof w) nm = None \<and> n \<notin> ran (kn_named (kof w)) \<and> n \<noteq> 0
      \<and> (\<forall>nm l p. nn_links (kn_space (kof w) 0) nm = Some l \<longrightarrow> if_peer l \<noteq> Some (n, p))
      \<and> kof w' = (kof w)\<lparr> kn_named := (kn_named (kof w))(nm \<mapsto> n),
          kn_space := (kn_space (kof w))(n := new_space), kn_cur := n \<rparr>"
  proof -
    assume "netns_NewNamed mem_net_ops w nm = (w', Inr n)"
    then have w': "kn_named (kof w) nm = None" "n = Suc (mn_last w)" "w' = \<lparr> mn_kern = (kof w)\<lparr> kn_named := (kn_named (kof w))(nm \<mapsto> n),
              kn_space := (kn_space (kof w))(n := new_space), kn_cur := n \<rparr>, mn_last = n \<rparr>"
      by (auto simp: sel split: if_splits)
    have "masked n (mn_kern w')" using kof_masked [of w] unfolding w'(3,2) masked_def by (auto simp: le_SucI)
    then have "kof w' = mn_kern w'" by (simp add: kof_def w'(3) mask_masked)
    moreover have "n \<notin> ran (kn_named (kof w))" "\<forall>nm l p. nn_links (kn_space (kof w) 0) nm = Some l \<longrightarrow> if_peer l \<noteq> Some (n, p)"
      using kof_masked [of w] not_less_eq_eq unfolding masked_def w'(2) ran_def by fastforce+
    ultimately show ?thesis using w' by simp
  qed
  show "netns_NewNamed mem_net_ops w nm = (w', Inl e) \<Longrightarrow>
      (\<exists>c v. kof w' = (kof w)\<lparr> kn_cur := c, kn_named := (kn_named (kof w))(nm := v) \<rparr>
        \<and> (v = kn_named (kof w) nm \<or> kn_named (kof w) nm = None \<and> v \<notin> Some ` ran (kn_named (kof w)) \<and> v \<noteq> Some 0
             \<and> (\<forall>nm l n p. nn_links (kn_space (kof w) 0) nm = Some l \<longrightarrow> if_peer l = Some (n, p) \<longrightarrow> v \<noteq> Some n)))"
    by (intro exI [of _ "kn_cur (kof w)"] exI [of _ "kn_named (kof w) nm"]) (auto simp: sel split: if_splits)
  have "masked (mn_last w) ((kof w)\<lparr> kn_named := (kn_named (kof w))(nm := None) \<rparr>)"
    using kof_masked [of w] by (simp add: masked_def)
  then show "netns_DeleteNamed mem_net_ops w nm = (w', Inr u) \<Longrightarrow>
      kof w' = (kof w)\<lparr> kn_named := (kn_named (kof w))(nm := None) \<rparr>"
    by (auto simp: sel kof_to split: if_splits)
  show "netns_DeleteNamed mem_net_ops w nm = (w', Inl e) \<Longrightarrow>
      kof w' = kof w \<and> (errors_Is e ENOENT \<longrightarrow> kn_named (kof w) nm = None)" by (auto simp: sel split: if_splits)
  show "nl_NewHandleAt mem_net_ops w n = Inr h \<Longrightarrow> h = n" by (simp add: sel)
  show "nl_LinkByName mem_net_ops w s nm = Inr l \<Longrightarrow>
      l = Device nm \<and> nn_links (kn_space (kof w) (in_scope s (kof w))) nm \<noteq> None"
    by (auto simp: sel mem_has_def split: if_splits)
  show "nl_LinkByName mem_net_ops w s nm = Inl e \<Longrightarrow> isLinkNotFound mem_net_ops e \<Longrightarrow>
      nn_links (kn_space (kof w) (in_scope s (kof w))) nm = None" by (auto simp: sel mem_has_def split: if_splits)
  show "nl_LinkAdd mem_net_ops w l = (w', Inr u) \<Longrightarrow> kof w' = k_LinkAdd l (kof w)
      \<and> nn_links (kn_space (kof w) (kn_cur (kof w))) (link_name l) = None"
    using masked_k_LinkAdd [OF kof_masked [of w], of l]
    by (cases l) (auto simp: sel kof_to mem_has_def split: if_splits)
  show "nl_LinkAdd mem_net_ops w l = (w', Inl e) \<Longrightarrow> kof w' = kof w" by (auto simp: sel split: if_splits Link.splits)
  show "nl_LinkDel mem_net_ops w l = (w', Inr u) \<Longrightarrow> kof w' = k_LinkDel (link_name l) (kof w)"
    by (auto simp: sel kt kof_masked)
  show "nl_LinkDel mem_net_ops w l = (w', Inl e) \<Longrightarrow> kof w' = kof w" by (simp add: sel)
  show "nl_AddrAdd mem_net_ops w s l a = (w', Inr u) \<Longrightarrow>
      kof w' = on_space (in_scope s (kof w)) (on_link (link_name l) (if_addrs_update (\<lambda>as. as @ [a]))) (kof w)"
    by (auto simp: sel kt kof_masked)
  show "nl_AddrAdd mem_net_ops w s l a = (w', Inl e) \<Longrightarrow> kof w' = kof w" by (simp add: sel)
  show "nl_LinkSetUp mem_net_ops w s l = (w', Inr u) \<Longrightarrow>
      kof w' = on_space (in_scope s (kof w)) (on_link (link_name l) (if_up_update (\<lambda>_. True))) (kof w)"
    by (auto simp: sel kt kof_masked)
  show "nl_LinkSetUp mem_net_ops w s l = (w', Inl e) \<Longrightarrow> kof w' = kof w" by (simp add: sel)
  show "nl_RouteAdd mem_net_ops w n g = (w', Inr u) \<Longrightarrow> kof w' = on_space n (nn_gateway_update (\<lambda>_. Some g)) (kof w)"
    by (auto simp: sel kt kof_masked)
  show "nl_RouteAdd mem_net_ops w n g = (w', Inl e) \<Longrightarrow> kof w' = kof w" by (simp add: sel)
  show "os_WriteFile mem_net_ops w ipForwardPath (''1'' @ [CHR 0x0A]) = (w', Inr u) \<Longrightarrow>
      kof w' = on_space (kn_cur (kof w)) (nn_forward_update (\<lambda>_. True)) (kof w)"
    by (auto simp: sel kt kof_masked)
  show "os_WriteFile mem_net_ops w ipForwardPath (''1'' @ [CHR 0x0A]) = (w', Inl e) \<Longrightarrow> kof w' = kof w" by (simp add: sel)
qed

text \<open>The rules of the namespace the thread is in, as the iptables client sees them.\<close>

definition cur_rules :: "mem_net \<Rightarrow> string \<Rightarrow> string \<Rightarrow> rulespec list" where
  "cur_rules w = nn_rules (kn_space (kof w) (kn_cur (kof w)))"

definition cur_chains :: "mem_net \<Rightarrow> string \<Rightarrow> string \<Rightarrow> bool" where
  "cur_chains w = nn_chains (kn_space (kof w) (kn_cur (kof w)))"

definition mem_ns_fw :: "mem_net iptablesFirewall" where
  "mem_ns_fw = \<lparr> f_ipt = \<lparr> ChainExists = (\<lambda>w t c. Inr (cur_chains w t c)),
     NewChain = (\<lambda>w t c. (to w (on_space (kn_cur (kof w)) (\<lambda>s. s\<lparr> nn_rules := (nn_rules s)(t := (nn_rules s t)(c := [])),
        nn_chains := (nn_chains s)(t := (nn_chains s t)(c := True)) \<rparr>) (kof w)), Inr ())),
     AppendUnique = (\<lambda>w t c r. (to w (on_space (kn_cur (kof w)) (nn_rules_update (\<lambda>R. R(t := (R t)(c := addU (R t c) r)))) (kof w)), Inr ())) \<rparr>,
     f_sets = (\<lambda>w i. (w, Inr ())) \<rparr>"

definition mem_driver :: "mem_net linuxDriver" where
  "mem_driver = \<lparr> dr_net = mem_net_ops, dr_TAPOwner = 1000, dr_TAPGroup = 1000, dr_Firewall = Some mem_ns_fw,
     dr_ResolverIP = Addr4 0xA9FE0101 \<rparr>"

interpretation mnf: namespace_filter mem_ns_fw cur_rules cur_chains match_spec
proof -
  have "iptables_client mem_ns_fw cur_rules cur_chains"
    by unfold_locales
      (auto simp: mem_ns_fw_def cur_rules_def cur_chains_def kof_to [OF masked_links(4)] kof_masked)
  then show "namespace_filter mem_ns_fw cur_rules cur_chains match_spec"
    by (intro namespace_filter.intro mr.rule_reading_axioms)
qed

lemma nn_rules_upd: "nn_rules_update g s = nn_rules_update (\<lambda>_. g (nn_rules s)) s"
  by (cases s) simp

lemma mem_clean_driver: "clean_driver mem_driver kof 0"
proof -
  have "net_driver mem_driver kof 0"
  proof (intro net_driver.intro net_driver_axioms.intro)
    show "net_kernel (dr_net mem_driver) kof 0" by (simp add: mem_driver_def mem_net_kernel)
    fix f w t c r j
    assume f: "dr_Firewall mem_driver = Some f"
    let ?n = "kn_cur (kof w)"
    have "kof (fst (AppendUnique (f_ipt mem_ns_fw) w t c r))
        = on_space ?n (nn_rules_update (\<lambda>R. R(t := (R t)(c := addU (R t c) r)))) (kof w)"
      by (simp add: mem_ns_fw_def kof_to [OF masked_links(4)] kof_masked)
    also have "\<dots> = on_space ?n (nn_rules_update (\<lambda>_. (nn_rules (kn_space (kof w) ?n))
        (t := (nn_rules (kn_space (kof w) ?n) t)(c := addU (nn_rules (kn_space (kof w) ?n) t c) r)))) (kof w)"
      unfolding on_space_def by (subst nn_rules_upd) simp
    finally show "\<exists>R. kof (fst (AppendUnique (f_ipt f) w t c r)) = on_space ?n (nn_rules_update (\<lambda>_. R)) (kof w)"
      using f by (auto simp: mem_driver_def)
    show "kof (fst (f_sets f w j)) = kof w" using f by (auto simp: mem_driver_def mem_ns_fw_def)
  qed
  then show "clean_driver mem_driver kof 0"
    by (intro clean_driver.intro clean_driver_axioms.intro)
      (auto simp: mem_driver_def mem_net_ops_def isLinkNotFound_def split: if_splits)
qed

interpretation mnd: healthy_driver mem_driver kof 0
proof (intro healthy_driver.intro mem_clean_driver healthy_driver_axioms.intro)
  fix w n nm s u g p l i a ip b f and gw :: Addr
  have mn: "kn_named (kof w) x = Some k \<Longrightarrow> k \<le> mn_last w" for x k
    using kof_masked [of w] unfolding masked_def by blast
  note sel = mem_driver_def mem_net_ops_def mem_has_def
  show "isOk (netns_Get (dr_net mem_driver) w)" by (simp add: sel)
  show "isOk (snd (netns_Set (dr_net mem_driver) w n))" by (simp add: sel)
  show "kn_named (kof w) nm = None \<Longrightarrow> isOk (snd (netns_NewNamed (dr_net mem_driver) w nm))" by (simp add: sel Let_def)
  show "kn_named (kof w) nm \<noteq> None \<Longrightarrow> isOk (os_Stat (dr_net mem_driver) w (netnsMountDir @ ''/'' @ nm))"
    by (auto simp: sel)
  show "isOk (nl_NewHandleAt (dr_net mem_driver) w n)" by (simp add: sel)
  show "nn_links (kn_space (kof w) (in_scope s (kof w))) nm \<noteq> None \<Longrightarrow> isOk (nl_LinkByName (dr_net mem_driver) w s nm)"
    by (auto simp: sel)
  show "nn_links (kn_space (kof w) (kn_cur (kof w))) nm = None \<Longrightarrow> isOk (snd (nl_LinkAdd (dr_net mem_driver) w (Tuntap nm u g)))"
    by (simp add: sel)
  show "kn_cur (kof w) = 0 \<Longrightarrow> n \<in> ran (kn_named (kof w)) \<Longrightarrow> nn_links (kn_space (kof w) 0) nm = None \<Longrightarrow>
      nn_links (kn_space (kof w) n) p = None \<Longrightarrow> isOk (snd (nl_LinkAdd (dr_net mem_driver) w (Veth nm p n)))"
    using mn by (fastforce simp: sel ran_def not_less)
  show "isOk (snd (nl_AddrAdd (dr_net mem_driver) w s l a))" by (simp add: sel)
  show "isOk (snd (nl_LinkSetUp (dr_net mem_driver) w s l))" by (simp add: sel)
  show "isOk (snd (nl_RouteAdd (dr_net mem_driver) w n gw))" by (simp add: sel)
  show "isOk (snd (os_WriteFile (dr_net mem_driver) w ipForwardPath (''1'' @ [CHR 0x0A])))" by (simp add: sel)
  show "dr_Firewall mem_driver = Some f \<Longrightarrow> never_fails f"
    by (auto simp: mem_driver_def mem_ns_fw_def never_fails_def)
qed

text \<open>A host with the leftovers of index 3 and a running index 5.\<close>

definition wit_net :: mem_net where
  "wit_net = \<lparr> mn_kern = \<lparr> kn_named = [namespaceName 3 \<mapsto> 1, namespaceName 5 \<mapsto> 2],
      kn_space = (\<lambda>n. new_space)(0 := add_link (hostVethName 3) (down\<lparr> if_peer := Some (1, namespaceVethName) \<rparr>) new_space),
      kn_cur = 0 \<rparr>, mn_last = 2 \<rparr>"

lemma wit_kof: "kof wit_net = mn_kern wit_net"
  by (simp add: kof_def wit_net_def mask_masked masked_def add_link_def new_space_def down_def)

lemma wit_inv: "net_inv 0 (kof wit_net)" "kn_cur (kof wit_net) = 0"
  unfolding wit_kof by (auto simp: net_inv_def wit_net_def ran_def new_space_def down_def split: if_splits)

lemma wit_named: "kn_named (kof wit_net) (namespaceName 3) = Some 1" "kn_named (kof wit_net) (namespaceName 5) = Some 2"
  "kn_space (kof wit_net) 2 = new_space" "namespaceName 5 \<noteq> namespaceName 3"
  unfolding wit_kof by (simp_all add: wit_net_def)

lemma wit_installable: "installable mem_driver (Some wit_policy)" "isOk (validateIndex 3)"
  by (simp_all add: installable_def wit_policy_def mem_driver_def IsValid_def validateIndex_ok)

lemma mem_filter: "namespace_filter mem_ns_fw (\<lambda>w. nn_rules (kn_space (kof w) (kn_cur (kof w)))) cur_chains match_spec"
  using mnf.namespace_filter_axioms unfolding cur_rules_def [abs_def] .

lemma wit_guest:
  "v4_config (ns_config mem_driver 3 (Some wit_policy))"
  "from_guest (ns_config mem_driver 3 (Some wit_policy)) (wit_packet 0x01020304)"
  using wit_config_ok
  by (simp_all add: v4_config_def from_guest_def wit_config_def ns_config_def mem_driver_def v4_addr_def
      GuestSubnet_def namespaceVethName_def AddrFrom4_def Uint32_def tapPrefixBits_def)

section \<open>Properties\<close>

text \<open>C35: network provisioning is isolated. Whatever \<open>Provision\<close> or \<open>Deprovision\<close> returns, the wiring
  invariant holds again, no named namespace other than the one of the index has changed, nor has
  anything in the host's namespace but the veth of the index, and the calling thread is back in
  the host's namespace.\<close>

theorem Provision_isolated:
  assumes d: "net_driver d kern host" and inv: "net_inv host (kern w)" "kn_cur (kern w) = host"
    and r: "w' \<in> {fst (Provision d w i eg), fst (Deprovision d w i)}"
  shows "net_inv host (kern w') \<and> only_index host i (kern w) (kern w') \<and> kn_cur (kern w') = host"
proof -
  have "mid host i (kern w) host (kern w)" using inv by (simp add: mid_def)
  from net_driver.deprovision_ended [OF d this] have "ended host i (kern w) (kern (fst (Deprovision d w i)))"
    using inv by (auto simp: Deprovision_def ended_def split: sum.split)
  with net_driver.Provision_ended [OF d inv, of i eg] r show ?thesis by (auto simp: ended_def)
qed

theorem Provision_isolated_witness:
  "let w' = fst (Provision mem_driver wit_net 3 (Some wit_policy)) in
   net_inv 0 (kof w') \<and> kn_named (kof w') (namespaceName 5) = Some 2 \<and> kn_space (kof w') 2 = new_space"
proof -
  let ?w = "fst (Provision mem_driver wit_net 3 (Some wit_policy))"
  from Provision_isolated [OF mnd.net_driver_axioms wit_inv, of ?w 3 "Some wit_policy"]
  have "net_inv 0 (kof ?w)" "only_index 0 3 (kof wit_net) (kof ?w)" by simp_all
  then show ?thesis using wit_named unfolding only_index_def Let_def by metis
qed

text \<open>A failed \<open>Provision\<close> leaves nothing behind. When lookups and deletions work, an error in any
  step after the namespace was made, and an error in the sweep, leave neither the namespace of the
  index nor its host veth.\<close>

theorem Provision_fails_clean:
  assumes d: "clean_driver d kern host" and inv: "net_inv host (kern w)" "kn_cur (kern w) = host"
    and v: "isOk (validateIndex i)" and p: "Provision d w i eg = (w', Inl e)"
    and c: "\<And>e'. e \<noteq> wrapf ''create namespace'' e'"
  shows "absent host i (kern w')"
  using assms by (rule clean_driver.Provision_fails)

theorem Provision_fails_clean_witness:
  "\<exists>w' e. Provision mem_driver wit_net 3 (Some (wit_policy\<lparr> ep_Mode := 9 \<rparr>)) = (w', Inl e) \<and> absent 0 3 (kof w')"
proof -
  let ?p = "Some (wit_policy\<lparr> ep_Mode := 9 \<rparr>)"
  obtain w' r where p: "Provision mem_driver wit_net 3 ?p = (w', r)" by force
  have "\<not> isOk (snd (ConfigureNamespace mem_ns_fw w (ns_config mem_driver 3 ?p)))" for w
    using ConfigureNamespace_isOk [of mem_ns_fw w "ns_config mem_driver 3 ?p"] mnd.fw_total [of mem_ns_fw]
    by (simp add: mem_driver_def ns_config_def EgressAllow_def EgressDeny_def)
  moreover have "dr_Firewall mem_driver = Some mem_ns_fw" by (simp add: mem_driver_def)
  ultimately have "r \<noteq> Inr meta" for meta
    using mnd.Provision_builds [OF wit_inv, of 3 ?p w' meta] p isOk_simps(1) by (metis snd_conv)
  then obtain e where p: "Provision mem_driver wit_net 3 ?p = (w', Inl e)" using p by (cases r) auto
  have "e \<noteq> wrapf ''create namespace'' e'" for e'
    using mnd.Provision_error [OF wit_inv wit_installable(2) p] by (auto simp: wrapf_def)
  from Provision_fails_clean [OF mnd.clean_driver_axioms wit_inv wit_installable(2) p this] p show ?thesis by blast
qed

lemma Provision_filtered:
  assumes d: "net_driver d kern host" and inv: "net_inv host (kern w)" "kn_cur (kern w) = host"
    and f: "dr_Firewall d = Some f"
    and nf: "namespace_filter f (\<lambda>w. nn_rules (kn_space (kern w) (kn_cur (kern w)))) has_chain matches"
    and p: "Provision d w i eg = (w', Inr meta)"
    and c: "v4_config (ns_config d i eg)" "from_guest (ns_config d i eg) pk"
  shows "\<exists>n. topology d host i n (kern w') \<and> nn_forward (kn_space (kern w') n)
    \<and> verdict (\<lambda>r. matches S r pk) (nn_rules (kn_space (kern w') n) ''filter'' ''FORWARD'')
        = Some (egress_verdict S (ns_config d i eg) pk)"
proof -
  from net_driver.Provision_builds [OF d inv p] f obtain n w1 w3 where
    t: "topology d host i n (kern w')" "nn_forward (kn_space (kern w') n)"
    and s: "ConfigureNamespace f w1 (ns_config d i eg) = (w3, Inr ())" "kn_cur (kern w1) = n" "kn_cur (kern w3) = n"
      "nn_rules (kn_space (kern w1) n) = (\<lambda>t c. [])" "nn_rules (kn_space (kern w3) n) = nn_rules (kn_space (kern w') n)"
    by blast
  from namespace_filter.enforced [OF nf c _ s(1), of S] s(2-5) t show ?thesis by auto
qed

text \<open>C12: a provisioned sandbox is wired and filtered. After \<open>Provision\<close> succeeds with a firewall, the
  namespace of the index exists with its TAP device, its veth end and the default route to the
  host's end, all addressed and up; it forwards; and a packet the guest sends through the veth gets
  the verdict of the egress policy.\<close>

theorem Provision_enforces_egress:
  assumes d: "net_driver d kern host" and inv: "net_inv host (kern w)" "kn_cur (kern w) = host"
    and f: "dr_Firewall d = Some f"
    and nf: "namespace_filter f (\<lambda>w. nn_rules (kn_space (kern w) (kn_cur (kern w)))) has_chain matches"
    and p: "Provision d w i eg = (w', Inr meta)"
    and c: "v4_config (ns_config d i eg)" "from_guest (ns_config d i eg) pk"
  shows "\<exists>n. topology d host i n (kern w') \<and> nn_forward (kn_space (kern w') n)
    \<and> verdict (\<lambda>r. matches S r pk) (nn_rules (kn_space (kern w') n) ''filter'' ''FORWARD'')
        = Some (egress_verdict S (ns_config d i eg) pk)"
  using assms by (rule Provision_filtered)

theorem Provision_enforces_egress_witness:
  "\<exists>w' n. Provision mem_driver wit_net 3 (Some wit_policy) = (w', Inr (buildHandle 3))
     \<and> topology mem_driver 0 3 n (kof w')
     \<and> verdict (\<lambda>r. match_spec (\<lambda>_ _. False) r (wit_packet 0x01020304)) (nn_rules (kn_space (kof w') n) ''filter'' ''FORWARD'')
         = Some ''REJECT''"
proof -
  obtain w' meta where p: "Provision mem_driver wit_net 3 (Some wit_policy) = (w', Inr meta)"
    by (rule okE [OF mnd.Provision_total [OF wit_inv wit_installable(2,1)]])
  then have "meta = buildHandle 3"
    by (auto simp: Provision_def setupTopology_def Let_def bindr_ok split: sum.splits)
  with Provision_enforces_egress [OF mnd.net_driver_axioms wit_inv _ mem_filter p wit_guest, of "\<lambda>_ _. False"] p show ?thesis
    by (auto simp: mem_driver_def egress_verdict_def ns_config_def wit_policy_def wit_packet_def listed_def
        via_domains_def PrefixContains_def)
qed

text \<open>C36: \<open>Provision\<close> recovers from an unclean shutdown. On a kernel whose calls fail only for a reason in
  its state, it succeeds for every valid index and every installable policy, whatever namespace or
  veth of that index an earlier run has left.\<close>

theorem Provision_succeeds:
  assumes "healthy_driver d kern host" "net_inv host (kern w)" "kn_cur (kern w) = host"
    and "isOk (validateIndex i)" "installable d eg"
  shows "isOk (snd (Provision d w i eg))"
  using assms by (rule healthy_driver.Provision_total)

theorem Provision_succeeds_witness:
  "kn_named (kof wit_net) (namespaceName 3) \<noteq> None \<and> isOk (snd (Provision mem_driver wit_net 3 (Some wit_policy)))"
  using Provision_succeeds [OF mnd.healthy_driver_axioms wit_inv wit_installable(2,1)] wit_named(1) by simp

end
