(* ===== verification/Reconciler.thy ===== *)
theory Reconciler
  imports DNS Linux_Network Protos Microvm_Provider
begin

text \<open>
  The reconciler, \<open>daemon/pkg/reconciler/reconciler.go\<close>: it brings the microVM of a sandbox to the phase
  its intent asks for. It composes the microVM provider (theory \<open>Firecracker\<close>), the network driver
  (\<open>Linux_Driver\<close>), the policy table of the DNS responder (\<open>DNS\<close>) and the snapshot store
  (\<open>Snapshot_Store\<close>) over one world; the client of the snapshot service and the clock are parameters. A
  sandbox is passed in and returned updated, as the code updates the message it was given; on an error the
  code leaves it as it was.
\<close>

section \<open>Configuration\<close>

text \<open>The sections of the daemon's configuration the reconciler reads.\<close>

record MicroVM =
  mv_KernelFile :: string
  mv_RootfsFile :: string
  mv_KernelJailPath :: string
  mv_RootfsJailPath :: string
  mv_LogJailPath :: string
  mv_VsockUDSJailPath :: string
  mv_AgentInitPath :: string
  mv_AgentVsockPort :: nat
  mv_GuestCID :: int64
  mv_GuestMAC :: string
  mv_DefaultRootfsDiskMiB :: int64

text \<open>The resolvers of the guests, and the listen address of the DNS section when there is one.\<close>

record Network =
  nw_GuestDNS :: "string list"
  nw_DNS_ListenIP :: "string option"

record Bundle =
  bu_AssetsDir :: string
  bu_ChrootBaseDir :: string
  bu_MicroVM :: MicroVM
  bu_Network :: "Network option"

section \<open>State\<close>

text \<open>A nil policy store, snapshot store or snapshot client is \<open>False\<close> or \<open>None\<close>.\<close>

record 'w Reconciler =
  re_config :: Bundle
  re_provider :: "'w firecracker"
  re_driver :: "'w linuxDriver"
  re_dnsPolicies :: bool
  re_snapshotStore :: "('w, fcontent) durable option"
  re_snapshotClient :: "('w \<Rightarrow> Snapshot \<Rightarrow> 'w \<times> unit result) option"
  re_now :: "'w \<Rightarrow> 'w \<times> Timestamp"

record 'w rcs =
  rc_vms :: vms
  rc_dns :: PolicyStore
  rc_w :: 'w

text \<open>An operation of the provider, and one of the world alone, within the state.\<close>

definition onProvider :: "'w rcs \<Rightarrow> (vms \<times> 'w) \<times> 'a result \<Rightarrow> 'w rcs \<times> 'a result" where
  "onProvider s x = (case x of ((vms, w), r) \<Rightarrow> (s\<lparr>rc_vms := vms, rc_w := w\<rparr>, r))"

definition onWorld :: "'w rcs \<Rightarrow> 'w \<times> 'a result \<Rightarrow> 'w rcs \<times> 'a result" where
  "onWorld s x = (case x of (w, r) \<Rightarrow> (s\<lparr>rc_w := w\<rparr>, r))"

section \<open>Inputs\<close>

definition hasDomainPolicy :: "Sandbox \<Rightarrow> bool" where
  "hasDomainPolicy sandbox =
    (case sb_EgressPolicy sandbox of None \<Rightarrow> False | Some p \<Rightarrow>
       if (case GetAllow (Some p) of Some a \<Rightarrow> et_DomainNames a \<noteq> [] | None \<Rightarrow> False) then True
       else if (case GetDeny (Some p) of Some d \<Rightarrow> et_DomainNames d \<noteq> [] | None \<Rightarrow> False) then True
       else False)"

definition buildBootArgs :: "MicroVM \<Rightarrow> Sandbox \<Rightarrow> NamespaceHandle \<Rightarrow> Network option \<Rightarrow> string" where
  "buildBootArgs tmpl sandbox nsh netCfg =
    (let base = ''console=ttyS0 reboot=k panic=1 pci=off ip='' @ AddrString (nsh_GuestIP nsh) @ ''::''
                @ AddrString (nsh_TapIP nsh) @ '':255.255.255.252::eth0:off init='' @ mv_AgentInitPath tmpl
                @ '' agent.port='' @ dec_nat (mv_AgentVsockPort tmpl)
     in case netCfg of None \<Rightarrow> base | Some n \<Rightarrow>
       (case nw_DNS_ListenIP n of
          Some ip \<Rightarrow> if hasDomainPolicy sandbox \<and> ip \<noteq> [] then base @ '' agent.dns='' @ ip
                     else if nw_GuestDNS n \<noteq> [] then base @ '' agent.dns='' @ Join (nw_GuestDNS n) '',''
                     else base
        | None \<Rightarrow> if nw_GuestDNS n \<noteq> [] then base @ '' agent.dns='' @ Join (nw_GuestDNS n) '','' else base))"

text \<open>The getters of the resources message, zero on nil.\<close>

definition GetVcpuCount :: "Sandbox \<Rightarrow> nat" where
  "GetVcpuCount sandbox = (case sb_Resources sandbox of None \<Rightarrow> 0 | Some r \<Rightarrow> rs_VcpuCount r)"

definition GetMemoryMib :: "Sandbox \<Rightarrow> nat" where
  "GetMemoryMib sandbox = (case sb_Resources sandbox of None \<Rightarrow> 0 | Some r \<Rightarrow> rs_MemoryMib r)"

definition GetDiskMib :: "Sandbox \<Rightarrow> nat" where
  "GetDiskMib sandbox = (case sb_Resources sandbox of None \<Rightarrow> 0 | Some r \<Rightarrow> rs_DiskMib r)"

definition resolveRootfsDiskMiB :: "Sandbox \<Rightarrow> MicroVM \<Rightarrow> int64" where
  "resolveRootfsDiskMiB sandbox tmpl =
    (if 0 < GetDiskMib sandbox then int (GetDiskMib sandbox) else mv_DefaultRootfsDiskMiB tmpl)"

definition templateAssets :: "Bundle \<Rightarrow> Asset list" where
  "templateAssets c =
    (let tmpl = bu_MicroVM c in
     [\<lparr> as_SourcePath = filepath_Join [bu_AssetsDir c, mv_KernelFile tmpl], as_JailPath = mv_KernelJailPath tmpl,
        as_Writable = False \<rparr>,
      \<lparr> as_SourcePath = filepath_Join [bu_AssetsDir c, mv_RootfsFile tmpl], as_JailPath = mv_RootfsJailPath tmpl,
        as_Writable = True \<rparr>])"

definition buildCreateInput :: "Bundle \<Rightarrow> Sandbox \<Rightarrow> NamespaceHandle \<Rightarrow> CreateMicroVMInput" where
  "buildCreateInput c sandbox nsh =
    (let tmpl = bu_MicroVM c;
         fcConfig =
          \<lparr> cf_BootSource = Some \<lparr> bs_KernelImagePath = mv_KernelJailPath tmpl,
                                   bs_BootArgs = buildBootArgs tmpl sandbox nsh (bu_Network c) \<rparr>,
            cf_Drives = [Some \<lparr> dv_DriveID = ''rootfs'', dv_PathOnHost = mv_RootfsJailPath tmpl,
                                dv_IsRootDevice = Some True, dv_IsReadOnly = False \<rparr>],
            cf_MachineConfig = Some \<lparr> mc_VcpuCount = Some (int (GetVcpuCount sandbox)),
                                      mc_MemSizeMib = Some (int (GetMemoryMib sandbox)) \<rparr>,
            cf_NetworkInterfaces = [\<lparr> ni_IfaceID = ''eth0'', ni_HostDevName = nsh_TapDeviceName nsh,
                                      ni_GuestMac = mv_GuestMAC tmpl \<rparr>],
            cf_Vsock = Some \<lparr> vs_GuestCid = mv_GuestCID tmpl, vs_UdsPath = Some (mv_VsockUDSJailPath tmpl) \<rparr>,
            cf_Logger = Some \<lparr> lg_LogPath = mv_LogJailPath tmpl, lg_Level = ''Info'' \<rparr> \<rparr>
     in \<lparr> ci_ID = GetId sandbox, ci_Network = nsh, ci_Config = Some fcConfig, ci_Assets = templateAssets c,
          ci_AgentVsockPort = mv_AgentVsockPort tmpl, ci_RootfsDiskMiB = resolveRootfsDiskMiB sandbox tmpl \<rparr>)"

definition buildLoadSnapshotInput :: "Bundle \<Rightarrow> Sandbox \<Rightarrow> NamespaceHandle \<Rightarrow> LocalReference \<Rightarrow> LoadSnapshotInput" where
  "buildLoadSnapshotInput c sandbox nsh ref =
    (let tmpl = bu_MicroVM c in
     \<lparr> li_ID = GetId sandbox, li_Network = nsh, li_Assets = templateAssets c,
       li_AgentVsockPort = mv_AgentVsockPort tmpl, li_LocalReference = Some ref,
       li_VsockUDSPath = mv_VsockUDSJailPath tmpl \<rparr>)"

section \<open>Egress\<close>

text \<open>An entry that does not parse is logged and skipped.\<close>

definition translateEgressPolicy :: "Sandbox \<Rightarrow> EgressPolicy option" where
  "translateEgressPolicy sandbox =
    (case sb_EgressPolicy sandbox of None \<Rightarrow> None | Some p \<Rightarrow>
    (case (case GetAllow (Some p) of Some t \<Rightarrow> Some (EgressAllow, t)
           | None \<Rightarrow> (case GetDeny (Some p) of Some t \<Rightarrow> Some (EgressDeny, t) | None \<Rightarrow> None)) of
       None \<Rightarrow> None
     | Some (mode, targets) \<Rightarrow> Some
        \<lparr> ep_Mode = mode,
          ep_IPs = List.map_filter ParseAddr (et_IpAddresses targets),
          ep_CIDRs = List.map_filter ParsePrefix (et_CidrBlocks targets),
          ep_Domains = et_DomainNames targets \<rparr>))"

definition registerDNSPolicy :: "'w Reconciler \<Rightarrow> Sandbox \<Rightarrow> NamespaceHandle \<Rightarrow> 'w rcs \<Rightarrow> 'w rcs" where
  "registerDNSPolicy r sandbox nsh s =
    (if \<not> re_dnsPolicies r then s
     else case sb_EgressPolicy sandbox of None \<Rightarrow> s | Some p \<Rightarrow>
    (case (case GetAllow (Some p) of Some t \<Rightarrow> Some (ModeAllow, t)
           | None \<Rightarrow> (case GetDeny (Some p) of Some t \<Rightarrow> Some (ModeDeny, t) | None \<Rightarrow> None)) of
       None \<Rightarrow> s
     | Some (mode, targets) \<Rightarrow>
       if et_DomainNames targets = [] then s
       else case CompileMatchers (et_DomainNames targets) of
         Inl _ \<Rightarrow> s
       | Inr matchers \<Rightarrow> s\<lparr>rc_dns := Upsert (rc_dns s) (nsh_NamespaceVethIP nsh)
           \<lparr> dp_Index = nsh_Index nsh, dp_NamespaceName = nsh_NamespaceName nsh, dp_Mode = mode,
             dp_Matchers = matchers \<rparr>\<rparr>))"

definition removeDNSPolicy :: "'w Reconciler \<Rightarrow> Addr \<Rightarrow> 'w rcs \<Rightarrow> 'w rcs" where
  "removeDNSPolicy r srcIP s =
    (if \<not> re_dnsPolicies r \<or> \<not> IsValid srcIP then s else s\<lparr>rc_dns := Remove (rc_dns s) srcIP\<rparr>)"

definition checkDNSPrereq :: "'w Reconciler \<Rightarrow> Sandbox \<Rightarrow> unit result" where
  "checkDNSPrereq r sandbox =
    (if \<not> hasDomainPolicy sandbox then Inr ()
     else if \<not> re_dnsPolicies r
     then Inl (New (''sandbox '' @ quote (GetId sandbox) @ '' egress policy references domain_names but this ''
            @ ''daemon was started without the DNS responder enabled''))
     else Inr ())"

section \<open>Actions\<close>

definition r_lookup :: "'w rcs \<Rightarrow> string \<Rightarrow> string \<Rightarrow> firecrackerVM result" where
  "r_lookup s i op =
    (case GetMicroVM (rc_vms s) i of
       None \<Rightarrow> Inl (New (op @ '': microvm '' @ quote i @ '' not found''))
     | Some vm \<Rightarrow> Inr vm)"

text \<open>What both ways to boot share: provision the network at the next index, publish the DNS policy, start
  the VM, and undo the two on a failure.\<close>

definition bootOn ::
  "'w Reconciler \<Rightarrow> Sandbox \<Rightarrow> 'w rcs \<Rightarrow> (NamespaceHandle \<Rightarrow> vms \<times> 'w \<Rightarrow> (vms \<times> 'w) \<times> firecrackerVM result)
    \<Rightarrow> string \<Rightarrow> 'w rcs \<times> unit result" where
  "bootOn r sandbox s start what =
    (let index = NextNetNSIndex (rc_vms s) in
     case Provision (re_driver r) (rc_w s) index (translateEgressPolicy sandbox) of
       (w1, Inl err) \<Rightarrow> (s\<lparr>rc_w := w1\<rparr>, Inl (wrapf ''provision network'' err))
     | (w1, Inr nsh) \<Rightarrow>
    (let s2 = registerDNSPolicy r sandbox nsh (s\<lparr>rc_w := w1\<rparr>) in
     case onProvider s2 (start nsh (rc_vms s2, rc_w s2)) of
       (s3, Inl err) \<Rightarrow>
         (let s4 = removeDNSPolicy r (nsh_NamespaceVethIP nsh) s3
          in (s4\<lparr>rc_w := fst (Deprovision (re_driver r) (rc_w s4) index)\<rparr>, Inl (wrapf what err)))
     | (s3, Inr _) \<Rightarrow> (s3, Inr ())))"

definition bootFresh :: "'w Reconciler \<Rightarrow> Sandbox \<Rightarrow> 'w rcs \<Rightarrow> 'w rcs \<times> unit result" where
  "bootFresh r sandbox s =
    (case GetMicroVM (rc_vms s) (GetId sandbox) of
       Some _ \<Rightarrow> (s, Inr ())
     | None \<Rightarrow>
    (case checkDNSPrereq r sandbox of
       Inl err \<Rightarrow> (s, Inl err)
     | Inr _ \<Rightarrow>
       bootOn r sandbox s (\<lambda>nsh st. CreateMicroVM (re_provider r) st (buildCreateInput (re_config r) sandbox nsh))
         ''create microvm''))"

definition snapshotCacheDirName :: string where
  "snapshotCacheDirName = ''snapshot-cache''"

definition bootFromSnapshot :: "'w Reconciler \<Rightarrow> Sandbox \<Rightarrow> string \<Rightarrow> 'w rcs \<Rightarrow> 'w rcs \<times> unit result" where
  "bootFromSnapshot r sandbox snapshotID s =
    (case GetMicroVM (rc_vms s) (GetId sandbox) of
       Some _ \<Rightarrow> (s, Inr ())
     | None \<Rightarrow>
    (case re_snapshotStore r of
       None \<Rightarrow> (s, Inl (New (''sandbox '' @ quote (GetId sandbox) @ '' references snapshot '' @ quote snapshotID
                 @ '' but this daemon was started without snapshot storage configured'')))
     | Some store \<Rightarrow>
    (case checkDNSPrereq r sandbox of
       Inl err \<Rightarrow> (s, Inl err)
     | Inr _ \<Rightarrow>
    bindr (onErr (wrapf (''load snapshot '' @ quote snapshotID @ '' from durable storage''))
        (onWorld s (Store_Load (f_host (re_provider r)) store (rc_w s)
          (filepath_Join [bu_ChrootBaseDir (re_config r), snapshotCacheDirName]) snapshotID))) (\<lambda>s localRef.
    bootOn r sandbox s
      (\<lambda>nsh st. LoadSnapshot (re_provider r) st (Some (buildLoadSnapshotInput (re_config r) sandbox nsh localRef)))
      (''restore microvm from snapshot '' @ quote snapshotID)))))"

definition r_boot :: "'w Reconciler \<Rightarrow> Sandbox \<Rightarrow> 'w rcs \<Rightarrow> 'w rcs \<times> unit result" where
  "r_boot r sandbox s =
    (case sm_Source (sb_Metadata sandbox) of
       Some (Source_SnapshotId snapshotID) \<Rightarrow>
         if snapshotID \<noteq> [] then bootFromSnapshot r sandbox snapshotID s else bootFresh r sandbox s
     | _ \<Rightarrow> bootFresh r sandbox s)"

definition r_pause :: "'w Reconciler \<Rightarrow> Sandbox \<Rightarrow> 'w rcs \<Rightarrow> 'w rcs \<times> unit result" where
  "r_pause r sandbox s =
    (case r_lookup s (GetId sandbox) ''pause'' of
       Inl err \<Rightarrow> (s, Inl err)
     | Inr vm \<Rightarrow> onErr (wrapf ''pause microvm'') (onWorld s (Pause (f_api (re_provider r)) (rc_w s) vm)))"

definition r_resume :: "'w Reconciler \<Rightarrow> Sandbox \<Rightarrow> 'w rcs \<Rightarrow> 'w rcs \<times> unit result" where
  "r_resume r sandbox s =
    (case r_lookup s (GetId sandbox) ''resume'' of
       Inl err \<Rightarrow> (s, Inl err)
     | Inr vm \<Rightarrow> onErr (wrapf ''resume microvm'') (onWorld s (Resume (f_api (re_provider r)) (rc_w s) vm)))"

text \<open>The second half of \<open>delete\<close>: with an index known, drop the DNS policy, then the network.\<close>

definition r_deprovision :: "'w Reconciler \<Rightarrow> int option \<Rightarrow> 'w rcs \<Rightarrow> 'w rcs \<times> unit result" where
  "r_deprovision r networkIndex s =
    (case networkIndex of
       None \<Rightarrow> (s, Inr ())
     | Some index \<Rightarrow>
       (let s1 = (case NamespaceVethIPFor index of Inr srcIP \<Rightarrow> removeDNSPolicy r srcIP s | Inl _ \<Rightarrow> s)
        in onErr (wrapf ''deprovision network'') (onWorld s1 (Deprovision (re_driver r) (rc_w s1) index))))"

definition r_delete :: "'w Reconciler \<Rightarrow> Sandbox \<Rightarrow> 'w rcs \<Rightarrow> 'w rcs \<times> unit result" where
  "r_delete r sandbox s =
    (let i = GetId sandbox;
         networkIndex = map_option NetworkIndex (GetMicroVM (rc_vms s) i)
     in case onProvider s (DeleteMicroVM (re_provider r) (rc_vms s, rc_w s) i) of
       (s1, x) \<Rightarrow>
         (case x of
            Inl err \<Rightarrow> if \<not> errors_Is err ErrVMNotFound then (s1, Inl (wrapf ''delete microvm'' err))
                       else r_deprovision r networkIndex s1
          | Inr _ \<Rightarrow> r_deprovision r networkIndex s1))"

text \<open>The VM keeps the handle \<open>CreateSnapshot\<close> updates; a nil snapshot store is dereferenced
  once the two files are open.\<close>

definition nilDereference :: goerr where
  "nilDereference = New ''invalid memory address or nil pointer dereference''"

definition registerSnapshot ::
  "'w Reconciler \<Rightarrow> Sandbox \<Rightarrow> LocalReference \<Rightarrow> 'w rcs \<Rightarrow> 'w rcs \<times> unit result" where
  "registerSnapshot r sandbox localRef s =
    (case re_snapshotClient r of
       None \<Rightarrow> (s, Inr ())
     | Some create \<Rightarrow>
       onErr (wrapf ''register snapshot in api-server'') (onWorld s (create (rc_w s)
         \<lparr> snap_Metadata = \<lparr> sn_Id = lr_SnapshotID localRef, sn_Namespace = sm_Namespace (sb_Metadata sandbox),
             sn_Description = (case sb_Intent sandbox of None \<Rightarrow> [] | Some i \<Rightarrow>
                (case in_StartSnapshot i of None \<Rightarrow> [] | Some d \<Rightarrow> d)), sn_CreatedAt = None \<rparr>,
           snap_Sandbox = Some (GetId sandbox), snap_Resources = sb_Resources sandbox \<rparr>)))"

definition r_snapshot :: "'w Reconciler \<Rightarrow> Sandbox \<Rightarrow> 'w rcs \<Rightarrow> 'w rcs \<times> Sandbox result" where
  "r_snapshot r sandbox s =
    (case r_lookup s (GetId sandbox) ''create snapshot'' of
       Inl err \<Rightarrow> (s, Inl err)
     | Inr vm \<Rightarrow>
    (case CreateSnapshot (re_provider r) (vm, rc_w s) of
       ((vm', w1), Inl err) \<Rightarrow>
         (s\<lparr>rc_vms := indexInsert vm' (rc_vms s), rc_w := w1\<rparr>, Inl (wrapf ''create snapshot'' err))
     | ((vm', w1), Inr localRef) \<Rightarrow>
      (let s1 = s\<lparr>rc_vms := indexInsert vm' (rc_vms s), rc_w := w1\<rparr> in
       case re_snapshotStore r of
         None \<Rightarrow> (s1, Inl (
           case h_ReadFile (f_host (re_provider r)) w1 (lr_MemFilePath localRef) of
             Inl err \<Rightarrow> wrapf ''persist snapshot'' (wrapf ''open mem file'' err)
           | Inr _ \<Rightarrow>
          (case h_ReadFile (f_host (re_provider r)) w1 (lr_StateFilePath localRef) of
             Inl err \<Rightarrow> wrapf ''persist snapshot'' (wrapf ''open state file'' err)
           | Inr _ \<Rightarrow> nilDereference)))
       | Some store \<Rightarrow>
         bindr (onErr (wrapf ''persist snapshot'')
             (onWorld s1 (Store_Put (f_host (re_provider r)) store (rc_w s1) localRef))) (\<lambda>s _.
         bindr (registerSnapshot r sandbox localRef s) (\<lambda>s _.
           (s\<lparr>rc_w := fst (re_now r (rc_w s))\<rparr>, Inr (sandbox\<lparr>
              sb_Intent := map_option (\<lambda>i. i\<lparr>in_StartSnapshot := None\<rparr>) (sb_Intent sandbox),
              sb_LastSnapshot := Some \<lparr> so_SnapshotId = lr_SnapshotID localRef,
                so_CreatedAt = Some (snd (re_now r (rc_w s))), so_Error = None \<rparr>\<rparr>)))))))"

section \<open>Reconcile\<close>

text \<open>The action of a status phase, with the message of its success.\<close>

definition keeping :: "Sandbox \<Rightarrow> 'w rcs \<times> unit result \<Rightarrow> 'w rcs \<times> Sandbox result" where
  "keeping sandbox x = bindr x (\<lambda>s _. (s, Inr sandbox))"

definition phaseAction ::
  "'w Reconciler \<Rightarrow> Phase \<Rightarrow> ((Sandbox \<Rightarrow> 'w rcs \<Rightarrow> 'w rcs \<times> Sandbox result) \<times> string) option" where
  "phaseAction r phase =
    (case phase of
       PHASE_PENDING \<Rightarrow> Some (\<lambda>sb s. keeping sb (r_boot r sb s), ''Sandbox is running'')
     | PHASE_PAUSING \<Rightarrow> Some (\<lambda>sb s. keeping sb (r_pause r sb s), ''Sandbox has been paused'')
     | PHASE_RESUMING \<Rightarrow> Some (\<lambda>sb s. keeping sb (r_resume r sb s), ''Sandbox is running'')
     | PHASE_DELETING \<Rightarrow> Some (\<lambda>sb s. keeping sb (r_delete r sb s), ''Sandbox has been deleted'')
     | PHASE_SNAPSHOTTING \<Rightarrow> Some (r_snapshot r, ''Snapshot created'')
     | _ \<Rightarrow> None)"

definition setIntentPhase :: "Phase \<Rightarrow> Sandbox \<Rightarrow> Sandbox" where
  "setIntentPhase p sandbox = sandbox\<lparr>sb_Intent := map_option (\<lambda>i. i\<lparr>in_Phase := p\<rparr>) (sb_Intent sandbox)\<rparr>"

definition reconcilePhase :: "'w Reconciler \<Rightarrow> Sandbox \<Rightarrow> 'w rcs \<Rightarrow> 'w rcs \<times> Sandbox result" where
  "reconcilePhase r sandbox s =
    (let target = GetIntentPhase sandbox; phase = GetStatusPhase sandbox in
     if target = PHASE_UNSPECIFIED then (s, Inr sandbox)
     else if target \<noteq> PHASE_RUNNING \<and> target \<noteq> PHASE_PAUSED \<and> target \<noteq> PHASE_DELETED
     then (s, Inl (New (''reconciler: unsupported intent phase '' @ PhaseString target)))
     else case phaseAction r phase of
       Some (action, message) \<Rightarrow>
         bindr (action sandbox s) (\<lambda>s sandbox.
           (s, Inr (setIntentPhase PHASE_UNSPECIFIED
                 (sandbox\<lparr>sb_Status := Some \<lparr> ss_Phase = target, ss_Message = message \<rparr>\<rparr>))))
     | None \<Rightarrow>
         if phase = PHASE_FAILED \<or> phase = PHASE_DELETED then (s, Inr (setIntentPhase PHASE_UNSPECIFIED sandbox))
         else (s, Inl (New (''reconciler: unsupported status phase '' @ PhaseString phase @ '' with intent ''
                    @ PhaseString target))))"

definition Reconcile :: "'w Reconciler \<Rightarrow> Sandbox \<Rightarrow> 'w rcs \<Rightarrow> 'w rcs \<times> Sandbox result" where
  "Reconcile r sandbox s =
    (case sb_Intent sandbox of
       None \<Rightarrow> (s, Inr sandbox)
     | Some _ \<Rightarrow> bindr (reconcilePhase r sandbox s) (\<lambda>s sandbox. (s, Inr (sandbox\<lparr>sb_Intent := None\<rparr>))))"

end
