(* ===== verification/Microvm_Frame.thy ===== *)
theory Microvm_Frame
  imports Firecracker
begin

text \<open>
  What the microVM provider does not touch: a relation between worlds that every primitive of the host and
  of the API keeps is kept by every operation of the provider. The reconciler uses it for the network,
  which the provider has no business with.
\<close>

locale host_frame =
  fixes f :: "'w firecracker" and I :: "'w \<Rightarrow> 'w \<Rightarrow> bool"
  assumes refl [intro]: "I w w"
    and create: "I w v \<Longrightarrow> I w (fst (h_Create (f_host f) v p m))"
    and write_file: "I w v \<Longrightarrow> I w (fst (h_WriteFile (f_host f) v p data))"
    and close: "I w v \<Longrightarrow> I w (fst (h_Close (f_host f) v p))"
    and rename: "I w v \<Longrightarrow> I w (fst (h_Rename (f_host f) v p q))"
    and mkdir: "I w v \<Longrightarrow> I w (fst (h_MkdirAll (f_host f) v p m))"
    and remove: "I w v \<Longrightarrow> I w (fst (h_Remove (f_host f) v p))"
    and removeall: "I w v \<Longrightarrow> I w (fst (h_RemoveAll (f_host f) v p))"
    and link: "I w v \<Longrightarrow> I w (fst (h_Link (f_host f) v p q))"
    and chmod: "I w v \<Longrightarrow> I w (fst (h_Chmod (f_host f) v p m))"
    and exec: "I w v \<Longrightarrow> I w (fst (h_Exec (f_host f) v cmd args))"
    and start: "I w v \<Longrightarrow> I w (fst (h_Start (f_host f) v cmd args))"
    and wait: "I w v \<Longrightarrow> I w (fst (h_Wait (f_host f) v))"
    and kill: "I w v \<Longrightarrow> I w (fst (h_Kill (f_host f) v pid sig))"
    and tick: "I w v \<Longrightarrow> I w (fst (h_Tick (f_host f) v))"
    and load: "I w v \<Longrightarrow> I w (fst (api_LoadSnapshot (f_api f) v c p q b))"
    and dial: "I w v \<Longrightarrow> I w (fst (tr_New (f_api f) v u port))"
    and hangup: "I w v \<Longrightarrow> I w (tr_Close (f_api f) v tr)"
begin

lemmas prims = create write_file close rename mkdir remove removeall link chmod exec start wait kill tick load dial hangup

lemma keep_bindr:
  "\<lbrakk> I w (fst x); \<And>v a. I w v \<Longrightarrow> I w (fst (k v a)) \<rbrakk> \<Longrightarrow> I w (fst (bindr x k))"
  by (cases x; cases "snd x") auto

lemma keep_onErr: "I w (fst x) \<Longrightarrow> I w (fst (onErr g x))"
  by simp

lemma keep_pair: "I w v \<Longrightarrow> I w (fst (v, r))"
  by simp

lemmas keep = keep_bindr keep_onErr keep_pair prims

lemma runTool_keep: "I w v \<Longrightarrow> I w (fst (runTool (f_host f) v cmd args what))"
  using exec [of w v cmd args] by (auto simp: runTool_def split: prod.split option.split)

lemma copyFile_keep: "I w v \<Longrightarrow> I w (fst (copyFile (f_host f) v p q))"
  by (auto simp: copyFile_def intro!: keep split: sum.split)

lemma writeJSON_keep: "I w v \<Longrightarrow> I w (fst (writeJSON (f_host f) v p c))"
  by (auto simp: writeJSON_def intro!: keep)

lemma writeMeta_keep: "I w v \<Longrightarrow> I w (fst (writeMeta f v i m))"
  by (auto simp: writeMeta_def intro!: keep)

lemma resizeRootfs_keep: "I w v \<Longrightarrow> I w (fst (resizeRootfs (f_host f) v p n))"
  by (auto simp: resizeRootfs_def Let_def intro!: keep runTool_keep split: sum.split)

lemma resizeForInput_keep: "I w v \<Longrightarrow> I w (fst (resizeRootfsForInput (f_host f) v jail input))"
  by (auto simp: resizeRootfsForInput_def intro!: resizeRootfs_keep split: option.split)

lemma stageAsset_keep: "I w v \<Longrightarrow> I w (fst (stageAsset (f_host f) v jail a))"
proof -
  assume w: "I w v"
  have l: "I w (fst (case h_Link (f_host f) u p q of (w', Inr _) \<Rightarrow> (w', Inr ())
      | (w', Inl err) \<Rightarrow> if \<not> errors_Is err EXDEV then (w', Inl err) else copyFile (f_host f) w' p q))"
    if "I w u" for u p q
    using link [OF that, of p q] copyFile_keep by (auto split: prod.split sum.split)
  show ?thesis
    using w by (auto simp: stageAsset_def digHoles_def Let_def intro!: keep l copyFile_keep runTool_keep)
qed

lemma stageAssets_keep: "I w v \<Longrightarrow> I w (fst (stageAssets (f_host f) jail as v))"
  by (induction as arbitrary: v) (auto intro!: keep stageAsset_keep)

lemma stagePairs_keep: "I w v \<Longrightarrow> I w (fst (stagePairs (f_host f) jail ps v))"
  by (induction ps arbitrary: v) (auto intro!: keep stageAsset_keep)

lemma stageSnapshot_keep: "I w v \<Longrightarrow> I w (fst (stageSnapshotFiles (f_host f) v jail ref))"
  unfolding stageSnapshotFiles_def Let_def by (intro keep stagePairs_keep)

lemma select_keep: "I w v \<Longrightarrow> I w (fst (select_tick (f_host f) n v))"
  by (simp add: select_tick_def tick)

lemma waitForInstance_keep: "I w v \<Longrightarrow> I w (fst (waitForInstance f c ready n v))"
proof (induction n arbitrary: v)
  case (0 v)
  then show ?case
    by (subst waitForInstance.simps) (auto simp: Let_def select_tick_def)
next
  case (Suc n v)
  obtain u e where t: "h_Tick (f_host f) v = (u, e)" by fastforce
  have u: "I w u" using tick [OF Suc.prems] t by simp
  show ?case
    by (subst waitForInstance.simps, cases e)
      (simp_all add: Let_def select_tick_def t Suc.prems u Suc.IH [OF u])
qed

lemma agentLoop_keep: "I w v \<Longrightarrow> I w (fst (agentLoop f a port n v))"
proof (induction n arbitrary: v)
  case (0 v)
  then show ?case
    using dial [OF 0, of a port]
    by (subst agentLoop.simps) (auto simp: select_tick_def hangup split: prod.split sum.split)
next
  case (Suc n v)
  obtain d x where d: "tr_New (f_api f) v a port = (d, x)" by fastforce
  obtain u e where t: "h_Tick (f_host f) d = (u, e)" by fastforce
  have "I w d" using dial [OF Suc.prems, of a port] d by simp
  moreover from tick [OF this] t have "I w u" by simp
  ultimately show ?case
    by (subst agentLoop.simps, cases x; cases e)
      (simp_all add: select_tick_def d t hangup Suc.IH)
qed

lemma killForked_keep: "I w v \<Longrightarrow> I w (killForkedFirecracker f i v)"
  by (simp add: killForkedFirecracker_def kill split: sum.split)

lemma orKill_keep: "I w (fst x) \<Longrightarrow> I w (fst (orKill f i msg x))"
  by (cases x; cases "snd x") (auto simp: orKill_def killForked_keep)

lemma runJailer_keep: "I w v \<Longrightarrow> I w (fst (runJailer f v cmd dir))"
proof -
  have "I w (fst (case h_Wait (f_host f) u of
        (w1, Inl err) \<Rightarrow> (fst (h_RemoveAll (f_host f) w1 dir), Inl (g err)) | (w1, Inr _) \<Rightarrow> (w1, Inr ())))"
    if "I w u" for u and g :: "goerr \<Rightarrow> goerr"
    using wait [OF that] removeall by (auto split: prod.split sum.split)
  then show "I w v \<Longrightarrow> I w (fst (runJailer f v cmd dir))"
    by (auto simp: runJailer_def intro!: keep)
qed

lemma prepareChroot_keep: "I w v \<Longrightarrow> I w (fst (prepareChroot f v i))"
  unfolding prepareChroot_def by (intro keep)

lemmas steps = prepareChroot_keep writeJSON_keep stageAssets_keep resizeForInput_keep runJailer_keep
  orKill_keep stageSnapshot_keep waitForInstance_keep agentLoop_keep

lemma spawnFresh_keep: "I w v \<Longrightarrow> I w (fst (spawnFresh f input v))"
  unfolding spawnFresh_def waitUntilRunning_def waitUntilAgentReady_def split_def
  by (intro keep steps; (simp split: if_split)?) (auto intro: steps)

lemma spawnRestored_keep: "I w v \<Longrightarrow> I w (fst (spawnRestored f input ref v))"
  unfolding spawnRestored_def waitUntilRunning_def waitUntilAgentReady_def waitUntilAPIReady_def Let_def split_def
  by (intro keep steps; (simp split: if_split)?) (auto intro: steps)

lemma registerVM_keep: "I w v \<Longrightarrow> I w (snd (fst (registerVM f (vms, v) inp c)))"
  using writeMeta_keep [of w v "ri_id inp"]
  by (auto simp: registerVM_def Let_def split: sum.split prod.split)
    (metis fst_conv)+

lemma spawned_keep:
  assumes "I w (fst x)"
  shows "I w (snd (fst (bindr (withIndex vms x) (\<lambda>s (inp, c). registerVM f s inp c))))"
  using assms registerVM_keep by (cases x; cases "snd x") (auto simp: withIndex_def)

lemma CreateMicroVM_keep: "I w v \<Longrightarrow> I w (snd (fst (CreateMicroVM f (vms, v) input)))"
  using spawned_keep [OF spawnFresh_keep] by (auto simp: CreateMicroVM_def split: sum.split)

lemma LoadSnapshot_keep: "I w v \<Longrightarrow> I w (snd (fst (LoadSnapshot f (vms, v) input)))"
  using spawned_keep [OF spawnRestored_keep] by (auto simp: LoadSnapshot_def split: sum.split option.split)

lemma waitProcessExit_keep: "I w v \<Longrightarrow> I w (fst (waitProcessExit (f_host f) pid n v))"
proof (induction n arbitrary: v)
  case (0 v)
  then show ?case
    using kill [OF 0, of pid 0] by (subst waitProcessExit.simps) (auto simp: select_tick_def split: prod.split sum.split)
next
  case (Suc n)
  obtain w1 r1 where k: "h_Kill (f_host f) v pid 0 = (w1, r1)" by fastforce
  obtain w2 b where t: "h_Tick (f_host f) w1 = (w2, b)" by fastforce
  have 1: "I w w1" using kill [OF Suc.prems] k by (metis fst_conv)
  have 2: "I w w2" using tick [OF 1] t by (metis fst_conv)
  show ?case
    using Suc.IH [OF 2] 1 2
    by (subst waitProcessExit.simps, cases r1; cases b) (simp_all add: select_tick_def k t)
qed

lemma stopProcess_keep:
  assumes v: "I w v" shows "I w (fst (stopProcess (f_host f) pid v))"
proof -
  obtain w1 r1 where k: "h_Kill (f_host f) v pid 15 = (w1, r1)" by fastforce
  obtain w2 b where t: "waitProcessExit (f_host f) pid gracefulTicks w1 = (w2, b)" by fastforce
  have 1: "I w w1" using kill [OF v] k by (metis fst_conv)
  have 2: "I w w2" using waitProcessExit_keep [OF 1] t by (metis fst_conv)
  show ?thesis
    using 1 2 waitProcessExit_keep [OF kill [OF 2]] by (cases r1; cases b) (simp_all add: stopProcess_def k t)
qed

lemma DeleteMicroVM_keep: "I w v \<Longrightarrow> I w (snd (fst (DeleteMicroVM f (vms, v) i)))"
proof -
  assume v: "I w v"
  then have "I w (fst (destroy f vm v))" for vm
    unfolding destroy_def Let_def by (intro keep) (auto split: option.split intro: stopProcess_keep hangup)
  with v show ?thesis
    by (auto simp: DeleteMicroVM_def withIndex_def split: option.split prod.split)
      (metis fst_conv)
qed

lemma drop_keep: "I w v \<Longrightarrow> I w (drop_file (f_host f) p v)"
  by (simp add: drop_file_def remove)

lemma load_publish_keep: "I w v \<Longrightarrow> I w (fst (load_publish (f_host f) ref v))"
proof -
  assume v: "I w v"
  obtain w1 r1 where a: "h_Rename (f_host f) v (lr_MemFilePath ref @ partialSuffix) (lr_MemFilePath ref) = (w1, r1)"
    by fastforce
  obtain w2 r2 where b: "h_Rename (f_host f) w1 (lr_StateFilePath ref @ partialSuffix) (lr_StateFilePath ref) = (w2, r2)"
    by fastforce
  have "I w w1" using rename [OF v] a by (metis fst_conv)
  moreover from rename [OF this] b have "I w w2" by (metis fst_conv)
  ultimately show ?thesis
    by (cases r1; cases r2) (simp_all add: load_publish_def Let_def a b drop_keep)
qed

lemma Store_Load_keep:
  assumes "\<And>v i pp. I w v \<Longrightarrow> I w (fst (ds_Get d v i pp))" and "I w v"
  shows "I w (fst (Store_Load (f_host f) d v chroot i))"
proof -
  let ?ref = "localReferenceFor chroot i"
  let ?m = "lr_MemFilePath ?ref @ partialSuffix" and ?s = "lr_StateFilePath ?ref @ partialSuffix"
  have d: "I w (fst (load_download (f_host f) d ?ref u))" if "I w u" for u
    using load_publish_keep drop_keep close assms(1) [OF that, of "lr_SnapshotID ?ref" "(?m, ?s)"]
    by (auto simp: load_download_def Let_def split_def split: sum.split)
  obtain w1 r1 where a: "h_MkdirAll (f_host f) v (filepath_Dir (lr_MemFilePath ?ref)) DirMode = (w1, r1)" by fastforce
  obtain w2 r2 where b: "h_Create (f_host f) w1 ?m 420 = (w2, r2)" by fastforce
  obtain w3 r3 where c: "h_Create (f_host f) w2 ?s 420 = (w3, r3)" by fastforce
  have 1: "I w w1" using mkdir [OF assms(2)] a by (metis fst_conv)
  have 2: "I w w2" using create [OF 1] b by (metis fst_conv)
  have 3: "I w w3" using create [OF 2] c by (metis fst_conv)
  show ?thesis
    using assms(2) 1 2 3 d [OF 3] close drop_keep
    by (cases r1; cases r2; cases r3) (simp_all add: Store_Load_def Let_def a b c)
qed

end

end
