(* ===== verification/Reconciler_Properties.thy ===== *)
theory Reconciler_Properties
  imports Reconciler Microvm_Frame Microvm_Properties
begin

text \<open>
  What reconciliation guarantees: the phase machine it implements, that starting a sandbox leaves the
  network of every live VM alone, that a started sandbox is filtered by its egress policy, and that a
  failed start is undone.
\<close>

section \<open>The phase machine\<close>

text \<open>What to do with a sandbox, from the phase its intent asks for and the phase it is in.\<close>

datatype decision = Done | Refuse | Abandon | Act

definition decide :: "Phase \<Rightarrow> Phase \<Rightarrow> decision" where
  "decide target phase =
    (if target = PHASE_UNSPECIFIED then Done
     else if target \<notin> {PHASE_RUNNING, PHASE_PAUSED, PHASE_DELETED} then Refuse
     else if phase \<in> {PHASE_FAILED, PHASE_DELETED} then Abandon
     else if phase \<in> {PHASE_PENDING, PHASE_PAUSING, PHASE_RESUMING, PHASE_DELETING, PHASE_SNAPSHOTTING} then Act
     else Refuse)"

text \<open>The parts of a sandbox that reconciliation never changes.\<close>

definition spec_of :: "Sandbox \<Rightarrow> SandboxMeta \<times> EgressRules option \<times> Resources option \<times> string option" where
  "spec_of sb = (sb_Metadata sb, sb_EgressPolicy sb, sb_Resources sb, sb_Node sb)"

lemma r_snapshot_spec: "r_snapshot r sb s = (s', Inr sb') \<Longrightarrow> spec_of sb' = spec_of sb"
  by (auto simp: r_snapshot_def Let_def bindr_ok spec_of_def split: sum.splits prod.splits option.splits)

lemma keeping_ok: "keeping sb x = (s', Inr sb') \<longleftrightarrow> sb' = sb \<and> (\<exists>u. x = (s', Inr u))"
  by (auto simp: keeping_def bindr_ok)

lemma phaseAction_spec:
  "\<lbrakk> phaseAction r p = Some (a, m); a sb s = (s', Inr sb') \<rbrakk> \<Longrightarrow> spec_of sb' = spec_of sb"
  by (cases p) (auto simp: phaseAction_def keeping_ok r_snapshot_spec)

lemma phaseAction_decide:
  "phaseAction r p \<noteq> None \<longleftrightarrow> p \<in> {PHASE_PENDING, PHASE_PAUSING, PHASE_RESUMING, PHASE_DELETING, PHASE_SNAPSHOTTING}"
  by (cases p) (simp_all add: phaseAction_def)

lemma reconcilePhase_ok:
  assumes "reconcilePhase r sb s = (s', Inr sb')"
  shows "spec_of sb' = spec_of sb"
    and "decide (GetIntentPhase sb) (GetStatusPhase sb) \<in> {Done, Abandon} \<Longrightarrow> s' = s \<and> sb_Status sb' = sb_Status sb"
    and "decide (GetIntentPhase sb) (GetStatusPhase sb) = Act \<Longrightarrow> GetStatusPhase sb' = GetIntentPhase sb"
    and "decide (GetIntentPhase sb) (GetStatusPhase sb) \<noteq> Refuse"
proof -
  consider "phaseAction r (GetStatusPhase sb) = None"
    | a m where "phaseAction r (GetStatusPhase sb) = Some (a, m)" by (metis option.exhaust prod.exhaust)
  note c = this
  show "spec_of sb' = spec_of sb"
    using c assms
    by cases (auto simp: reconcilePhase_def Let_def bindr_ok setIntentPhase_def spec_of_def
        dest!: phaseAction_spec split: if_splits)
  show "decide (GetIntentPhase sb) (GetStatusPhase sb) \<in> {Done, Abandon} \<Longrightarrow> s' = s \<and> sb_Status sb' = sb_Status sb"
    using c assms phaseAction_decide [of r "GetStatusPhase sb"]
    by cases (auto simp: reconcilePhase_def decide_def Let_def setIntentPhase_def split: if_splits)
  show "decide (GetIntentPhase sb) (GetStatusPhase sb) = Act \<Longrightarrow> GetStatusPhase sb' = GetIntentPhase sb"
    using c assms phaseAction_decide [of r "GetStatusPhase sb"]
    by cases (auto simp: reconcilePhase_def decide_def Let_def bindr_ok setIntentPhase_def GetStatusPhase_def split: if_splits)
  show "decide (GetIntentPhase sb) (GetStatusPhase sb) \<noteq> Refuse"
    using c assms phaseAction_decide [of r "GetStatusPhase sb"]
    by cases (auto simp: reconcilePhase_def decide_def Let_def split: if_splits)
qed

lemma reconcilePhase_refuse:
  "decide (GetIntentPhase sb) (GetStatusPhase sb) = Refuse \<Longrightarrow> \<exists>e. reconcilePhase r sb s = (s, Inl e)"
  using phaseAction_decide [of r "GetStatusPhase sb"]
  by (cases "phaseAction r (GetStatusPhase sb)")
    (auto simp: reconcilePhase_def decide_def Let_def split: if_splits)

section \<open>Starting a sandbox\<close>

lemma Provision_handle: "Provision d w i eg = (w', Inr nsh) \<Longrightarrow> nsh = buildHandle i \<and> isOk (validateIndex i)"
  by (auto simp: Provision_def setupTopology_def Let_def bindr_ok split: sum.splits)

lemma dns_rest [simp]:
  "rc_vms (registerDNSPolicy r sb nsh s) = rc_vms s" "rc_w (registerDNSPolicy r sb nsh s) = rc_w s"
  "rc_vms (removeDNSPolicy r a s) = rc_vms s" "rc_w (removeDNSPolicy r a s) = rc_w s"
  by (auto simp: registerDNSPolicy_def removeDNSPolicy_def split: option.split sum.split)

lemma veth_valid: "IsValid (nsh_NamespaceVethIP (buildHandle i))"
  by (simp add: buildHandle_def vethSubnetFor_def IsValid_def AddrFrom4_def Let_def)

lemma dns_register:
  "rc_dns (registerDNSPolicy r sb nsh s) a = rc_dns s a \<or> re_dnsPolicies r \<and> a = nsh_NamespaceVethIP nsh"
  by (auto simp: registerDNSPolicy_def Upsert_def split: option.split sum.split)

lemma dns_register_cong: "rc_dns s = rc_dns t \<Longrightarrow> rc_dns (registerDNSPolicy r sb nsh s) = rc_dns (registerDNSPolicy r sb nsh t)"
  by (simp add: registerDNSPolicy_def split: option.split sum.split)

lemma dns_undo:
  assumes "rc_dns t = rc_dns (registerDNSPolicy r sb (buildHandle i) s)"
  shows "rc_dns (removeDNSPolicy r (nsh_NamespaceVethIP (buildHandle i)) t)
    = (if re_dnsPolicies r then (rc_dns s)(nsh_NamespaceVethIP (buildHandle i) := None) else rc_dns s)"
  using dns_register [of r sb "buildHandle i" s] veth_valid [of i]
  by (auto simp: removeDNSPolicy_def Remove_def assms fun_eq_iff)

text \<open>A daemon: a network driver on a kernel, a provider and a snapshot store that leave the network
  alone.\<close>

locale daemon =
  fixes r :: "'w Reconciler" and kern :: "'w \<Rightarrow> kern" and host :: nsid
  assumes driver: "net_driver (re_driver r) kern host"
    and provider: "host_frame (re_provider r) (\<lambda>w v. kern v = kern w)"
    and store: "re_snapshotStore r = Some d \<Longrightarrow> kern (fst (ds_Get d w i pp)) = kern w"
begin

lemma Deprovision_ended:
  assumes "net_inv host (kern w)" "kn_cur (kern w) = host"
  shows "ended host i (kern w) (kern (fst (Deprovision (re_driver r) w i)))"
proof -
  have "mid host i (kern w) host (kern w)" using assms by (simp add: mid_def)
  from net_driver.deprovision_ended [OF driver this] show ?thesis
    using assms by (auto simp: Deprovision_def ended_def split: sum.split)
qed

text \<open>What a way to start a VM does: nothing to the network, and to the index only at the id.\<close>

definition starter ::
  "string \<Rightarrow> (NamespaceHandle \<Rightarrow> vms \<times> 'w \<Rightarrow> (vms \<times> 'w) \<times> firecrackerVM result) \<Rightarrow> bool" where
  "starter i start \<longleftrightarrow> (\<forall>nsh vms w. kern (snd (fst (start nsh (vms, w)))) = kern w
     \<and> started (re_provider r) i vms (start nsh (vms, w)))"

lemma create_starter: "starter (GetId sb) (\<lambda>nsh st. CreateMicroVM (re_provider r) st (buildCreateInput c sb nsh))"
proof -
  have "started (re_provider r) (GetId sb) vms (CreateMicroVM (re_provider r) (vms, w) (buildCreateInput c sb nsh))"
    for vms w nsh
    using CreateMicroVM_started [of "re_provider r" "buildCreateInput c sb nsh" vms w]
    by (simp add: buildCreateInput_def Let_def)
  then show ?thesis
    using host_frame.CreateMicroVM_keep [OF provider refl] by (simp add: starter_def)
qed

lemma load_starter:
  "starter (GetId sb) (\<lambda>nsh st. LoadSnapshot (re_provider r) st (Some (buildLoadSnapshotInput c sb nsh ref)))"
proof -
  have "started (re_provider r) (GetId sb) vms (LoadSnapshot (re_provider r) (vms, w) (Some (buildLoadSnapshotInput c sb nsh ref)))"
    for vms w nsh
    using LoadSnapshot_started [of "re_provider r" vms w "Some (buildLoadSnapshotInput c sb nsh ref)"]
    by (auto simp: buildLoadSnapshotInput_def Let_def)
  then show ?thesis
    using host_frame.LoadSnapshot_keep [OF provider refl] by (simp add: starter_def)
qed

text \<open>The three ways \<open>bootOn\<close> ends.\<close>

lemma bootOn_cases:
  assumes st: "starter i start" and b: "bootOn r sb s start what = (s', x)" and n: "n = NextNetNSIndex (rc_vms s)"
  obtains (provision) w1 e where "Provision (re_driver r) (rc_w s) n (translateEgressPolicy sb) = (w1, Inl e)"
      "s' = s\<lparr>rc_w := w1\<rparr>" "x = Inl (wrapf ''provision network'' e)"
  | (failed) w1 w2 e where "Provision (re_driver r) (rc_w s) n (translateEgressPolicy sb) = (w1, Inr (buildHandle n))"
      "kern w2 = kern w1" "rc_vms s' = rc_vms s" "rc_w s' = fst (Deprovision (re_driver r) w2 n)"
      "rc_dns s' = (if re_dnsPolicies r then (rc_dns s)(nsh_NamespaceVethIP (buildHandle n) := None) else rc_dns s)"
      "x = Inl (wrapf what e)"
  | (ok) w1 vm where "Provision (re_driver r) (rc_w s) n (translateEgressPolicy sb) = (w1, Inr (buildHandle n))"
      "kern (rc_w s') = kern w1" "vm_ok (re_provider r) i vm" "rc_vms s' = indexInsert vm (rc_vms s)"
      "rc_dns s' = rc_dns (registerDNSPolicy r sb (buildHandle n) s)" "x = Inr ()"
proof -
  obtain w1 p where p: "Provision (re_driver r) (rc_w s) n (translateEgressPolicy sb) = (w1, p)" by fastforce
  show ?thesis
  proof (cases p)
    case (Inl e)
    with b p show ?thesis by (intro provision) (auto simp: bootOn_def n [symmetric])
  next
    case (Inr nsh)
    then have nsh: "nsh = buildHandle n"
      using Provision_handle [of "re_driver r" "rc_w s" n _ w1 nsh] p by simp
    let ?s = "registerDNSPolicy r sb (buildHandle n) (s\<lparr>rc_w := w1\<rparr>)"
    obtain vms w2 v where v: "start (buildHandle n) (rc_vms s, w1) = ((vms, w2), v)" by (metis surj_pair)
    have f: "kern w2 = kern w1" "started (re_provider r) i (rc_vms s) ((vms, w2), v)"
      using st v unfolding starter_def by (metis fst_conv snd_conv)+
    have c: "rc_dns ?s = rc_dns (registerDNSPolicy r sb (buildHandle n) s)"
      by (rule dns_register_cong) simp
    show ?thesis
    proof (cases v)
      case (Inl e)
      have "rc_dns (?s\<lparr>rc_vms := vms, rc_w := w2\<rparr>) = rc_dns (registerDNSPolicy r sb (buildHandle n) s)"
        using c by simp
      note u = dns_undo [OF this]
      show ?thesis
        using b p Inr Inl f u
        by (intro failed [of w1 w2 e])
          (auto simp: bootOn_def n [symmetric] nsh Let_def v onProvider_def started_def)
    next
      case o: (Inr vm)
      show ?thesis
        using b p Inr o f c
        by (intro ok [of w1 vm]) (auto simp: bootOn_def n [symmetric] nsh Let_def v onProvider_def started_def)
    qed
  qed
qed

text \<open>A boot either stops before the network is touched, or runs \<open>bootOn\<close>.\<close>

definition untouched :: "'w rcs \<Rightarrow> 'w rcs \<Rightarrow> bool" where
  "untouched s s' \<longleftrightarrow> rc_vms s' = rc_vms s \<and> rc_dns s' = rc_dns s \<and> kern (rc_w s') = kern (rc_w s)"

lemma bootFresh_cases:
  assumes "bootFresh r sb s = (s', x)"
  obtains (early) "untouched s s'" "x = Inr () \<longrightarrow> GetMicroVM (rc_vms s) (GetId sb) \<noteq> None"
  | (on) start what where "starter (GetId sb) start" "bootOn r sb s start what = (s', x)" "isOk (checkDNSPrereq r sb)"
proof (cases "GetMicroVM (rc_vms s) (GetId sb) = None \<and> isOk (checkDNSPrereq r sb)")
  case True
  with assms show ?thesis
    by (intro on [OF create_starter [of sb "re_config r"], of "''create microvm''"]) (auto simp: bootFresh_def isOk_iff)
next
  case False
  with assms show ?thesis
    by (intro early) (auto simp: bootFresh_def untouched_def isOk_iff split: option.splits sum.splits)
qed

lemma bootFromSnapshot_cases:
  assumes "bootFromSnapshot r sb i s = (s', x)"
  obtains (early) "untouched s s'" "x = Inr () \<longrightarrow> GetMicroVM (rc_vms s) (GetId sb) \<noteq> None"
  | (on) s0 start what where "untouched s s0" "starter (GetId sb) start" "bootOn r sb s0 start what = (s', x)"
      "isOk (checkDNSPrereq r sb)"
proof (cases "GetMicroVM (rc_vms s) (GetId sb) = None \<and> re_snapshotStore r \<noteq> None \<and> isOk (checkDNSPrereq r sb)")
  case True
  then obtain d where d: "re_snapshotStore r = Some d" by blast
  obtain w1 l where l: "Store_Load (f_host (re_provider r)) d (rc_w s)
      (filepath_Join [bu_ChrootBaseDir (re_config r), snapshotCacheDirName]) i = (w1, l)" by fastforce
  have u: "untouched s (s\<lparr>rc_w := w1\<rparr>)"
    using host_frame.Store_Load_keep [OF provider, of "rc_w s" d "rc_w s"] store [OF d] l
    by (simp add: untouched_def) (metis fst_conv)
  show ?thesis
  proof (cases l)
    case (Inl e)
    with True assms d l u show ?thesis
      by (intro early) (auto simp: bootFromSnapshot_def isOk_iff onWorld_def)
  next
    case (Inr ref)
    with True assms d l show ?thesis
      by (intro on [OF u load_starter [of sb "re_config r" ref], of "''restore microvm from snapshot '' @ quote i"])
        (auto simp: bootFromSnapshot_def isOk_iff onWorld_def)
  qed
next
  case False
  with assms show ?thesis
    by (intro early) (auto simp: bootFromSnapshot_def untouched_def isOk_iff split: option.splits sum.splits)
qed

lemma r_boot_cases:
  assumes "r_boot r sb s = (s', x)"
  obtains (early) "untouched s s'" "x = Inr () \<longrightarrow> GetMicroVM (rc_vms s) (GetId sb) \<noteq> None"
  | (on) s0 start what where "untouched s s0" "starter (GetId sb) start" "bootOn r sb s0 start what = (s', x)"
      "isOk (checkDNSPrereq r sb)"
proof -
  consider "bootFresh r sb s = (s', x)" | i where "bootFromSnapshot r sb i s = (s', x)"
    using assms by (auto simp: r_boot_def split: option.splits SandboxSource.splits if_splits)
  then show ?thesis
  proof cases
    case 1
    then show ?thesis using that by (elim bootFresh_cases) (auto simp: untouched_def)
  next
    case 2
    then show ?thesis using that by (elim bootFromSnapshot_cases)
  qed
qed

lemma bootOn_ended:
  assumes st: "starter i start" and b: "bootOn r sb s start what = (s', x)"
    and inv: "net_inv host (kern (rc_w s))" "kn_cur (kern (rc_w s)) = host"
  shows "ended host (NextNetNSIndex (rc_vms s)) (kern (rc_w s)) (kern (rc_w s'))"
  using st b refl
proof (cases rule: bootOn_cases)
  case (provision w1 e)
  then show ?thesis using net_driver.Provision_ended [OF driver inv] by (metis fst_conv rcs.select_convs(3) rcs.surjective rcs.update_convs(3))
next
  case (failed w1 w2 e)
  have e: "ended host (NextNetNSIndex (rc_vms s)) (kern (rc_w s)) (kern w2)"
    using net_driver.Provision_ended [OF driver inv, of "NextNetNSIndex (rc_vms s)" "translateEgressPolicy sb"] failed(1,2)
    by simp
  then have "net_inv host (kern w2)" "kn_cur (kern w2) = host" by (simp_all add: ended_def)
  from ended_trans [OF e Deprovision_ended [OF this]] show ?thesis by (simp add: failed(4))
next
  case (ok w1 vm)
  then show ?thesis
    using net_driver.Provision_ended [OF driver inv, of "NextNetNSIndex (rc_vms s)" "translateEgressPolicy sb"] by simp
qed

lemma bootOn_state:
  assumes "starter i start" "bootOn r sb s start what = (s', x)"
  shows "j \<noteq> i \<Longrightarrow> GetMicroVM (rc_vms s') j = GetMicroVM (rc_vms s) j"
    and "a \<noteq> nsh_NamespaceVethIP (buildHandle (NextNetNSIndex (rc_vms s))) \<Longrightarrow> rc_dns s' a = rc_dns s a"
    and "x \<noteq> Inr () \<Longrightarrow> rc_vms s' = rc_vms s"
  using assms(1,2) refl
  by (cases rule: bootOn_cases;
      use dns_register [of r sb "buildHandle (NextNetNSIndex (rc_vms s))" s a] in
        \<open>auto simp: GetMicroVM_def indexInsert_map vm_ok_def\<close>)+

lemma bootOn_out_of_range:
  assumes "starter i start" "bootOn r sb s start what = (s', x)" "\<not> isOk (validateIndex (NextNetNSIndex (rc_vms s)))"
  shows "rc_dns s' = rc_dns s"
  using assms(1,2) refl by (cases rule: bootOn_cases; use assms(3) in \<open>auto dest!: Provision_handle\<close>)

lemma r_boot_ended:
  assumes b: "r_boot r sb s = (s', x)" and inv: "net_inv host (kern (rc_w s))" "kn_cur (kern (rc_w s)) = host"
  shows "ended host (NextNetNSIndex (rc_vms s)) (kern (rc_w s)) (kern (rc_w s'))"
  using b
proof (cases rule: r_boot_cases)
  case early
  then show ?thesis using inv by (simp add: untouched_def ended_def)
next
  case (on s0 start what)
  then show ?thesis
    using bootOn_ended [OF on(2,3)] inv by (simp add: untouched_def)
qed

lemma r_boot_state:
  assumes b: "r_boot r sb s = (s', x)"
  shows "j \<noteq> GetId sb \<Longrightarrow> GetMicroVM (rc_vms s') j = GetMicroVM (rc_vms s) j"
    and "a \<noteq> nsh_NamespaceVethIP (buildHandle (NextNetNSIndex (rc_vms s))) \<Longrightarrow> rc_dns s' a = rc_dns s a"
    and "x \<noteq> Inr () \<Longrightarrow> rc_vms s' = rc_vms s"
proof -
  show "j \<noteq> GetId sb \<Longrightarrow> GetMicroVM (rc_vms s') j = GetMicroVM (rc_vms s) j"
    using b by (cases rule: r_boot_cases) (auto simp: untouched_def dest: bootOn_state(1))
  show "a \<noteq> nsh_NamespaceVethIP (buildHandle (NextNetNSIndex (rc_vms s))) \<Longrightarrow> rc_dns s' a = rc_dns s a"
    using b
  proof (cases rule: r_boot_cases)
    case (on s0 start what)
    then show "a \<noteq> nsh_NamespaceVethIP (buildHandle (NextNetNSIndex (rc_vms s))) \<Longrightarrow> rc_dns s' a = rc_dns s a"
      using bootOn_state(2) [OF on(2,3), of a] by (simp add: untouched_def)
  qed (simp add: untouched_def)
  show "x \<noteq> Inr () \<Longrightarrow> rc_vms s' = rc_vms s"
    using b
  proof (cases rule: r_boot_cases)
    case (on s0 start what)
    then show "x \<noteq> Inr () \<Longrightarrow> rc_vms s' = rc_vms s"
      using bootOn_state(3) [OF on(2,3)] by (simp add: untouched_def)
  qed (simp add: untouched_def)
qed

lemma r_boot_out_of_range:
  assumes b: "r_boot r sb s = (s', x)" and v: "\<not> isOk (validateIndex (NextNetNSIndex (rc_vms s)))"
  shows "rc_dns s' = rc_dns s"
  using b
proof (cases rule: r_boot_cases)
  case (on s0 start what)
  then show ?thesis
    using bootOn_out_of_range [OF on(2,3)] v by (simp add: untouched_def)
qed (simp add: untouched_def)

lemma DeleteMicroVM_kern: "kern (snd (fst (DeleteMicroVM (re_provider r) (vms, w) i))) = kern w"
  using host_frame.DeleteMicroVM_keep [OF provider refl] by simp

text \<open>A delete that returns no error has removed the namespace and the veth of the VM.\<close>

lemma Deprovision_absent:
  assumes "net_inv host (kern w)" "kn_cur (kern w) = host" "Deprovision (re_driver r) w i = (w', Inr u)"
  shows "absent host i (kern w')"
proof -
  have m: "mid host i (kern w) host (kern w)" using assms by (simp add: mid_def)
  have "deprovisionLocked (dr_net (re_driver r)) w i = (w', Inr u)"
    using assms(3) by (auto simp: Deprovision_def split: sum.splits)
  from net_driver.deprovision_named [OF driver m this] show ?thesis by (auto simp: absent_def)
qed

lemma r_boot_ok:
  assumes b: "r_boot r sb s = (s', Inr ())" and new: "GetMicroVM (rc_vms s) (GetId sb) = None"
    and n: "n = NextNetNSIndex (rc_vms s)"
  obtains w0 w1 vm where "kern w0 = kern (rc_w s)"
    "Provision (re_driver r) w0 n (translateEgressPolicy sb) = (w1, Inr (buildHandle n))"
    "kern (rc_w s') = kern w1" "GetMicroVM (rc_vms s') (GetId sb) = Some vm"
    "rc_dns s' = rc_dns (registerDNSPolicy r sb (buildHandle n) s)" "isOk (checkDNSPrereq r sb)"
  using b
proof (cases rule: r_boot_cases)
  case (on s0 start what)
  have n0: "n = NextNetNSIndex (rc_vms s0)" "rc_dns s = rc_dns s0" using on(1) n by (simp_all add: untouched_def)
  from on(2,3) n0(1) show ?thesis
  proof (cases rule: bootOn_cases)
    case (ok w1 vm)
    show ?thesis
      by (rule that [of "rc_w s0" w1 vm])
        (use ok on n0 dns_register_cong [OF n0(2)] in
          \<open>auto simp: untouched_def GetMicroVM_def indexInsert_map vm_ok_def\<close>)
  qed simp_all
qed (use new in simp)

lemma boot_failed:
  assumes cd: "clean_driver (re_driver r) kern host"
    and inv: "net_inv host (kern (rc_w s))" "kn_cur (kern (rc_w s)) = host"
    and v: "isOk (validateIndex n)" and n: "n = NextNetNSIndex (rc_vms s)"
    and st: "starter i start" and b: "bootOn r sb s start what = (s', Inl e)"
    and c: "\<And>e'. e \<noteq> wrapf ''provision network'' (wrapf ''create namespace'' e')"
  shows "absent host n (kern (rc_w s'))
    \<and> (rc_dns s' = rc_dns s \<or> rc_dns s' = (rc_dns s)(nsh_NamespaceVethIP (buildHandle n) := None))"
  using st b n
proof (cases rule: bootOn_cases)
  case (provision w1 e1)
  have "e1 \<noteq> wrapf ''create namespace'' e'" for e' using c [of e'] provision(3) by auto
  from clean_driver.Provision_fails [OF cd inv v provision(1) this] provision(2) show ?thesis by simp
next
  case (failed w1 w2 e2)
  have "ended host n (kern (rc_w s)) (kern w2)"
    using net_driver.Provision_ended [OF driver inv, of n "translateEgressPolicy sb"] failed(1,2) by simp
  then have i: "net_inv host (kern w2)" "kn_cur (kern w2) = host" by (simp_all add: ended_def)
  then have "mid host n (kern w2) host (kern w2)" by (simp add: mid_def)
  from clean_driver.deprovision_absent [OF cd this] v failed(4,5) show ?thesis
    by (auto simp: Deprovision_def isOk_iff)
qed simp

lemma r_boot_failed:
  assumes cd: "clean_driver (re_driver r) kern host"
    and inv: "net_inv host (kern (rc_w s))" "kn_cur (kern (rc_w s)) = host"
    and n: "n = NextNetNSIndex (rc_vms s)" and v: "isOk (validateIndex n)"
    and b: "r_boot r sb s = (s', Inl e)"
    and c: "\<And>e'. e \<noteq> wrapf ''provision network'' (wrapf ''create namespace'' e')"
    and dns: "rc_dns s (nsh_NamespaceVethIP (buildHandle n)) = None"
  shows "rc_vms s' = rc_vms s \<and> rc_dns s' = rc_dns s
    \<and> (kern (rc_w s') = kern (rc_w s) \<or> absent host n (kern (rc_w s')))"
proof -
  have vms: "rc_vms s' = rc_vms s" using r_boot_state(3) [OF b] by simp
  from b show ?thesis
  proof (cases rule: r_boot_cases)
    case early
    then show ?thesis by (simp add: untouched_def)
  next
    case (on s0 start what)
    have u: "rc_dns s0 = rc_dns s" "kern (rc_w s0) = kern (rc_w s)" "n = NextNetNSIndex (rc_vms s0)"
      using on(1) n by (auto simp: untouched_def)
    have i: "net_inv host (kern (rc_w s0))" "kn_cur (kern (rc_w s0)) = host" using inv u by simp_all
    have "(rc_dns s)(nsh_NamespaceVethIP (buildHandle n) := None) = rc_dns s" using dns by (intro fun_upd_idem)
    with boot_failed [OF cd i v u(3) on(2,3) c] vms u(1) show ?thesis by auto
  qed
qed

end

section \<open>A daemon in memory\<close>

text \<open>A host on which nothing is stored and every process starts at once, over any world, beside the kernel
  of theory \<open>Linux_Network\<close>.\<close>

definition idle_host :: "('w, fcontent) host" where
  "idle_host = \<lparr>
    h_Stat = \<lambda>w p. Inl os_ErrNotExist, h_ReadFile = \<lambda>w p. Inr (CBytes ''100''), h_ReadDir = \<lambda>w p. Inr [],
    h_WriteFile = \<lambda>w p c. (w, Inr ()), h_Create = \<lambda>w p m. (w, Inr ()), h_Close = \<lambda>w p. (w, Inr ()),
    h_MkdirAll = \<lambda>w p m. (w, Inr ()), h_Remove = \<lambda>w p. (w, Inr ()), h_RemoveAll = \<lambda>w p. (w, Inr ()),
    h_Rename = \<lambda>w p q. (w, Inr ()), h_Link = \<lambda>w p q. (w, Inr ()), h_Chmod = \<lambda>w p m. (w, Inr ()),
    h_Chown = \<lambda>w p u g. (w, Inr ()), h_Exec = \<lambda>w c args. (w, [], None), h_Start = \<lambda>w c args. (w, Inr ()),
    h_Wait = \<lambda>w. (w, Inr ()), h_Kill = \<lambda>w pid sig. (w, Inl (New ''operation not permitted'')),
    h_Tick = \<lambda>w. (w, None) \<rparr>"

definition idle_api :: "'w fcapi" where
  "idle_api = \<lparr>
    api_Describe = \<lambda>w c. Inr (Some ''Running''), api_MachineConfiguration = \<lambda>w c. Inr None,
    api_PatchVM = \<lambda>w c t. (w, Inr ()), api_CreateSnapshot = \<lambda>w c m p. (w, Inr ()),
    api_LoadSnapshot = \<lambda>w c p m b. (w, Inr ()), tr_New = \<lambda>w p port. (w, Inr 7), tr_Close = \<lambda>w tr. w,
    newUUID = \<lambda>w. (w, ''snap'') \<rparr>"

definition idle_fc :: "'w firecracker" where
  "idle_fc = \<lparr> f_options = mem_fc_options, f_host = idle_host, f_api = idle_api \<rparr>"

interpretation idle: host_frame idle_fc "\<lambda>w v. g v = g w" for g :: "'w \<Rightarrow> 'k"
  by unfold_locales (simp_all add: idle_fc_def idle_host_def idle_api_def)

definition wit_bundle :: Bundle where
  "wit_bundle = \<lparr> bu_AssetsDir = ''/assets'', bu_ChrootBaseDir = ''/srv/jailer'',
     bu_MicroVM = \<lparr> mv_KernelFile = ''vmlinux'', mv_RootfsFile = ''rootfs.ext4'', mv_KernelJailPath = ''/vmlinux'',
       mv_RootfsJailPath = ''/rootfs.ext4'', mv_LogJailPath = ''/firecracker.log'', mv_VsockUDSJailPath = ''/v.sock'',
       mv_AgentInitPath = ''/init'', mv_AgentVsockPort = 1024, mv_GuestCID = 3, mv_GuestMAC = ''06:00:AC:10:00:02'',
       mv_DefaultRootfsDiskMiB = 0 \<rparr>, bu_Network = None \<rparr>"

definition mem_daemon :: "mem_net Reconciler" where
  "mem_daemon = \<lparr> re_config = wit_bundle, re_provider = idle_fc, re_driver = mem_driver, re_dnsPolicies = True,
     re_snapshotStore = None, re_snapshotClient = None, re_now = \<lambda>w. (w, 0) \<rparr>"

interpretation mdae: daemon mem_daemon kof 0
proof (rule daemon.intro)
  show "net_driver (re_driver mem_daemon) kof 0"
    using mnd.net_driver_axioms by (simp add: mem_daemon_def)
  show "host_frame (re_provider mem_daemon) (\<lambda>w v. kof v = kof w)"
    using idle.host_frame_axioms by (simp add: mem_daemon_def)
qed (simp add: mem_daemon_def)

text \<open>One VM at index 2, and a sandbox that waits to be started with an allow list.\<close>

definition wit_sb :: Sandbox where
  "wit_sb = \<lparr> sb_Metadata = \<lparr> sm_Id = ''vm1'', sm_Namespace = ''default'', sm_Source = None, sm_Version = 1,
       sm_CreatedAt = None, sm_LastModifiedAt = None, sm_Labels = [] \<rparr>,
     sb_EgressPolicy = Some (Rules_Allow \<lparr> et_IpAddresses = [], et_CidrBlocks = [''8.8.0.0/16''],
       et_DomainNames = [''example.net''] \<rparr>),
     sb_Resources = None, sb_Node = None,
     sb_Intent = Some \<lparr> in_Phase = PHASE_RUNNING, in_StartSnapshot = None \<rparr>,
     sb_LastSnapshot = None, sb_Status = Some \<lparr> ss_Phase = PHASE_PENDING, ss_Message = [] \<rparr> \<rparr>"

definition wit_rcs :: "mem_net rcs" where
  "wit_rcs = \<lparr> rc_vms = [(''vm0'', wit_vm ''vm0'' 2)], rc_dns = (\<lambda>_. None), rc_w = wit_net \<rparr>"

lemma wit_sb_policy: "translateEgressPolicy wit_sb = Some wit_policy"
  by code_simp

lemma wit_sb_creates:
  "isOk (snd (CreateMicroVM idle_fc ([(''vm0'', wit_vm ''vm0'' 2)], w) (buildCreateInput wit_bundle wit_sb (buildHandle 3))))"
  by code_simp

lemma wit_boots: "\<exists>s'. r_boot mem_daemon wit_sb wit_rcs = (s', Inr ())"
proof -
  have n: "NextNetNSIndex [(''vm0'', wit_vm ''vm0'' 2)] = 3" "GetMicroVM (rc_vms wit_rcs) ''vm1'' = None"
    by (simp_all add: NextNetNSIndex_def wit_rcs_def wit_vm_def GetMicroVM_def)
  obtain w1 where p: "Provision mem_driver wit_net 3 (Some wit_policy) = (w1, Inr (buildHandle 3))"
    using Provision_handle by (metis okE [OF mnd.Provision_total [OF wit_inv wit_installable(2,1)]])
  obtain vms w2 vm where v: "CreateMicroVM idle_fc ([(''vm0'', wit_vm ''vm0'' 2)], w1)
      (buildCreateInput wit_bundle wit_sb (buildHandle 3)) = ((vms, w2), Inr vm)"
    by (rule okE [OF wit_sb_creates [of w1]]) (metis surj_pair)
  have b: "r_boot mem_daemon wit_sb wit_rcs = bootFresh mem_daemon wit_sb wit_rcs" "GetId wit_sb = ''vm1''"
    "isOk (checkDNSPrereq mem_daemon wit_sb)"
    by (simp_all add: r_boot_def wit_sb_def GetId_def checkDNSPrereq_def mem_daemon_def)
  show ?thesis
    using p v b(3) unfolding b(1) bootFresh_def b(2) n(2)
    by (auto simp: isOk_iff bootOn_def n(1) Let_def onProvider_def wit_sb_policy mem_daemon_def wit_rcs_def)
qed

section \<open>Properties\<close>

lemma Reconcile_eq:
  "Reconcile r sb s = (if sb_Intent sb = None then (s, Inr sb)
     else bindr (reconcilePhase r sb s) (\<lambda>s sb. (s, Inr (sb\<lparr>sb_Intent := None\<rparr>))))"
  by (simp add: Reconcile_def split: option.split)

lemma spec_intent [simp]: "spec_of (sb\<lparr>sb_Intent := x\<rparr>) = spec_of sb"
  by (simp add: spec_of_def)

lemma GetStatusPhase_intent [simp]: "GetStatusPhase (sb\<lparr>sb_Intent := x\<rparr>) = GetStatusPhase sb"
  by (simp add: GetStatusPhase_def)



lemma NextNetNSIndex_above:
  assumes "GetMicroVM vms j = Some vm"
  shows "NetworkIndex vm < NextNetNSIndex vms"
proof -
  let ?S = "insert 0 ((\<lambda>(_, vm). fv_networkIndex vm + 1) ` set vms)"
  have "fv_networkIndex vm + 1 \<in> ?S" using map_of_SomeD assms unfolding GetMicroVM_def by fastforce
  then have "fv_networkIndex vm + 1 \<le> Max ?S" by (intro Max_ge) auto
  then show ?thesis unfolding NetworkIndex_def NextNetNSIndex_def NextNetNSIndex_max by simp
qed

lemma r_boot_indexed: "GetMicroVM (rc_vms s) (GetId sb) = Some vm \<Longrightarrow> r_boot r sb s = (s, Inr ())"
  by (auto simp: r_boot_def bootFresh_def bootFromSnapshot_def split: option.split SandboxSource.split)

text \<open>C4: starting a sandbox, from an image or from a snapshot and whatever comes of it, leaves every VM that is
  already running alone: it stays in the index, its namespace is the one it was with its links, routes and
  firewall rules, its veth on the host and its DNS policy are unchanged, and the wiring invariant holds
  again with the thread back in the host's namespace.\<close>

theorem boot_isolated:
  assumes d: "daemon r kern host" and inv: "net_inv host (kern (rc_w s))" "kn_cur (kern (rc_w s)) = host"
    and b: "r_boot r sb s = (s', x)" and live: "GetMicroVM (rc_vms s) j = Some vm" "isOk (validateIndex (NetworkIndex vm))"
  shows "net_inv host (kern (rc_w s')) \<and> kn_cur (kern (rc_w s')) = host \<and> GetMicroVM (rc_vms s') j = Some vm
    \<and> (let ks = kern (rc_w s); ks' = kern (rc_w s'); i = NetworkIndex vm in
       kn_named ks' (namespaceName i) = kn_named ks (namespaceName i)
       \<and> (\<forall>n. kn_named ks (namespaceName i) = Some n \<longrightarrow> kn_space ks' n = kn_space ks n)
       \<and> nn_links (kn_space ks' host) (hostVethName i) = nn_links (kn_space ks host) (hostVethName i)
       \<and> rc_dns s' (nsh_NamespaceVethIP (buildHandle i)) = rc_dns s (nsh_NamespaceVethIP (buildHandle i)))"
proof -
  let ?i = "NetworkIndex vm" and ?n = "NextNetNSIndex (rc_vms s)"
  have lt: "?i < ?n" using live(1) by (rule NextNetNSIndex_above)
  have dns: "rc_dns s' (nsh_NamespaceVethIP (buildHandle ?i)) = rc_dns s (nsh_NamespaceVethIP (buildHandle ?i))"
  proof (cases "isOk (validateIndex ?n)")
    case True
    with lt live(2) have "nsh_NamespaceVethIP (buildHandle ?i) \<noteq> nsh_NamespaceVethIP (buildHandle ?n)"
      by (simp add: nsIP_inj validateIndex_ok)
    then show ?thesis by (rule daemon.r_boot_state(2) [OF d b])
  next
    case False
    then show ?thesis by (simp add: daemon.r_boot_out_of_range [OF d b])
  qed
  have "GetMicroVM (rc_vms s') j = Some vm"
    using daemon.r_boot_state(1) [OF d b] r_boot_indexed [of s sb vm r] live(1) b by (cases "j = GetId sb") auto
  moreover note e = daemon.r_boot_ended [OF d b inv]
  moreover have "namespaceName ?i \<noteq> namespaceName ?n" "hostVethName ?i \<noteq> hostVethName ?n" using lt by simp_all
  ultimately show ?thesis
    using dns unfolding ended_def only_index_def Let_def by blast
qed

theorem boot_isolated_witness:
  "kn_named (kof (rc_w (fst (r_boot mem_daemon wit_sb (wit_rcs\<lparr>rc_vms := [(''vm0'', wit_vm ''vm0'' 5)]\<rparr>)))))
     (namespaceName 5) = Some 2"
proof -
  let ?s = "wit_rcs\<lparr>rc_vms := [(''vm0'', wit_vm ''vm0'' 5)]\<rparr>"
  obtain s' x where b: "r_boot mem_daemon wit_sb ?s = (s', x)" by fastforce
  have w: "rc_w ?s = wit_net" "GetMicroVM (rc_vms ?s) ''vm0'' = Some (wit_vm ''vm0'' 5)"
    "NetworkIndex (wit_vm ''vm0'' 5) = 5" "isOk (validateIndex (NetworkIndex (wit_vm ''vm0'' 5)))"
    by (simp_all add: wit_rcs_def GetMicroVM_def NetworkIndex_def wit_vm_def validateIndex_ok)
  from boot_isolated [OF mdae.daemon_axioms _ _ b w(2,4), unfolded w(1), OF wit_inv] wit_named(2) b show ?thesis
    by (simp add: w(3) Let_def)
qed



text \<open>C17: a failed start leaves nothing behind. On a kernel whose deletions work, and for an index in range, a boot
  that fails other than in the creation of the namespace leaves the index of VMs as it was, the DNS
  policies as they were when none had the address of the new namespace, and either has not touched the
  network at all or has left neither the namespace nor the veth of the index.\<close>

theorem boot_fails_clean:
  assumes d: "daemon r kern host" and cd: "clean_driver (re_driver r) kern host"
    and inv: "net_inv host (kern (rc_w s))" "kn_cur (kern (rc_w s)) = host"
    and n: "n = NextNetNSIndex (rc_vms s)" and v: "isOk (validateIndex n)"
    and b: "r_boot r sb s = (s', Inl e)"
    and c: "\<And>e'. e \<noteq> wrapf ''provision network'' (wrapf ''create namespace'' e')"
    and dns: "rc_dns s (nsh_NamespaceVethIP (buildHandle n)) = None"
  shows "rc_vms s' = rc_vms s \<and> rc_dns s' = rc_dns s
    \<and> (kern (rc_w s') = kern (rc_w s) \<or> absent host n (kern (rc_w s')))"
  by (rule daemon.r_boot_failed [OF d cd inv n v b c dns])

theorem boot_fails_clean_witness:
  "\<exists>s' e. r_boot mem_daemon (wit_sb\<lparr>sb_Metadata := (sb_Metadata wit_sb)\<lparr>sm_Id := ''../vm''\<rparr>\<rparr>) wit_rcs = (s', Inl e)
     \<and> rc_vms s' = rc_vms wit_rcs \<and> (kof (rc_w s') = kof wit_net \<or> absent 0 3 (kof (rc_w s')))"
proof -
  let ?sb = "wit_sb\<lparr>sb_Metadata := (sb_Metadata wit_sb)\<lparr>sm_Id := ''../vm''\<rparr>\<rparr>"
  obtain w1 where p: "Provision mem_driver wit_net 3 (Some wit_policy) = (w1, Inr (buildHandle 3))"
    using Provision_handle by (metis okE [OF mnd.Provision_total [OF wit_inv wit_installable(2,1)]])
  have n: "NextNetNSIndex [(''vm0'', wit_vm ''vm0'' 2)] = 3" "rc_w wit_rcs = wit_net" "3 = NextNetNSIndex (rc_vms wit_rcs)"
    "rc_dns wit_rcs (nsh_NamespaceVethIP (buildHandle 3)) = None" "\<not> vmIDPattern ''../vm''"
    by (simp_all add: NextNetNSIndex_def wit_rcs_def wit_vm_def) code_simp
  have t: "translateEgressPolicy ?sb = Some wit_policy" by code_simp
  have "r_boot mem_daemon ?sb wit_rcs = bootFresh mem_daemon ?sb wit_rcs" "GetId ?sb = ''../vm''"
    "isOk (checkDNSPrereq mem_daemon ?sb)" "GetMicroVM (rc_vms wit_rcs) ''../vm'' = None"
    by (simp_all add: r_boot_def wit_sb_def GetId_def checkDNSPrereq_def mem_daemon_def wit_rcs_def GetMicroVM_def)
  then have "\<exists>s'. r_boot mem_daemon ?sb wit_rcs = (s', Inl (wrapf ''create microvm'' (errBadID ''../vm'')))"
    using p n(5)
    by (auto simp: bootFresh_def isOk_iff bootOn_def n(1) Let_def onProvider_def t mem_daemon_def wit_rcs_def
        CreateMicroVM_def buildCreateInput_def)
  then obtain s' where b: "r_boot mem_daemon ?sb wit_rcs = (s', Inl (wrapf ''create microvm'' (errBadID ''../vm'')))" by blast
  have "clean_driver (re_driver mem_daemon) kof 0" using mem_clean_driver by (simp add: mem_daemon_def)
  from boot_fails_clean [OF mdae.daemon_axioms this _ _ n(3) wit_installable(2) b _ n(4), unfolded n(2), OF wit_inv] b
  show ?thesis by (auto simp: wrapf_def)
qed

lemma r_delete_ok:
  assumes d: "daemon r kern host" and inv: "net_inv host (kern (rc_w s))" "kn_cur (kern (rc_w s)) = host"
    and vm: "GetMicroVM (rc_vms s) (GetId sb) = Some vm" and x: "r_delete r sb s = (s', Inr u)"
  obtains w1 w2 where "kern w1 = kern (rc_w s)" "Deprovision (re_driver r) w1 (NetworkIndex vm) = (w2, Inr ())" "rc_w s' = w2"
    "rc_vms s' = AList.delete (GetId sb) (rc_vms s)"
    "rc_dns s' = (if re_dnsPolicies r then (rc_dns s)(nsh_NamespaceVethIP (buildHandle (NetworkIndex vm)) := None) else rc_dns s)"
proof -
  obtain w1 y where y: "destroy (re_provider r) vm (rc_w s) = (w1, y)" by fastforce
  have D: "DeleteMicroVM (re_provider r) (rc_vms s, rc_w s) (GetId sb) = ((AList.delete (GetId sb) (rc_vms s), w1), y)"
    using vm y by (simp add: DeleteMicroVM_def GetMicroVM_def withIndex_def)
  have k: "kern w1 = kern (rc_w s)"
    using daemon.DeleteMicroVM_kern [OF d, of "rc_vms s" "rc_w s" "GetId sb"] D by simp
  let ?s = "s\<lparr>rc_vms := AList.delete (GetId sb) (rc_vms s), rc_w := w1\<rparr>" and ?i = "NetworkIndex vm"
  have r: "r_deprovision r (Some ?i) ?s = (s', Inr u)"
    using x vm D by (auto simp: r_delete_def Let_def onProvider_def split: sum.splits if_splits)
  then have v: "isOk (validateIndex ?i)"
    by (auto simp: r_deprovision_def Let_def Deprovision_def onWorld_def onErr_def split: sum.splits prod.splits)
  then have ip: "NamespaceVethIPFor ?i = Inr (nsh_NamespaceVethIP (buildHandle ?i))"
    by (auto simp: NamespaceVethIPFor_def isOk_iff buildHandle_def vethSubnetFor_eq)
  show ?thesis
    by (rule that [OF k])
      (use r in \<open>auto simp: r_deprovision_def ip Let_def onWorld_def onErr_def removeDNSPolicy_def veth_valid Remove_def
        split: prod.splits sum.splits if_splits\<close>)
qed



lemma r_delete_index:
  assumes "GetMicroVM (rc_vms s) (GetId sb) = Some vm" "r_delete r sb s = (s', x)"
  shows "rc_vms s' = AList.delete (GetId sb) (rc_vms s)"
proof -
  obtain w1 y where "destroy (re_provider r) vm (rc_w s) = (w1, y)" by fastforce
  then have "DeleteMicroVM (re_provider r) (rc_vms s, rc_w s) (GetId sb) = ((AList.delete (GetId sb) (rc_vms s), w1), y)"
    using assms(1) by (simp add: DeleteMicroVM_def GetMicroVM_def withIndex_def)
  with assms show ?thesis
    by (auto simp: r_delete_def onProvider_def r_deprovision_def Let_def onWorld_def onErr_def
        split: sum.splits if_splits prod.splits)
qed

lemma r_delete_absent: "GetMicroVM (rc_vms s) (GetId sb) = None \<Longrightarrow> r_delete r sb s = (s, Inr ())"
  by (simp add: r_delete_def DeleteMicroVM_def GetMicroVM_def onProvider_def r_deprovision_def errors_Is_refl)

lemma NextNetNSIndex_bound:
  assumes "0 \<le> m" "\<And>j v. (j, v) \<in> set vms \<Longrightarrow> NetworkIndex v < m"
  shows "NextNetNSIndex vms \<le> m"
  unfolding NextNetNSIndex_def NextNetNSIndex_max using assms by (auto simp: NetworkIndex_def add1_zle_eq)

text \<open>C22: the retry of a failed delete does not finish it. A delete of a running sandbox that fails, because the
  process could not be stopped, its directory not removed or its network not taken down, has already
  dropped the VM from the index; deleting the sandbox again then succeeds without touching anything,
  and if no other VM has a higher index the next sandbox gets the network index of the VM that was
  not destroyed.\<close>

theorem delete_retry_skips:
  assumes vms: "distinct (map fst (rc_vms s))" and vm: "GetMicroVM (rc_vms s) (GetId sb) = Some vm" "0 \<le> NetworkIndex vm"
    and x: "r_delete r sb s = (s', Inl e)"
  shows "r_delete r sb s' = (s', Inr ()) \<and> rc_vms s' = AList.delete (GetId sb) (rc_vms s)
    \<and> ((\<forall>j v. GetMicroVM (rc_vms s) j = Some v \<and> j \<noteq> GetId sb \<longrightarrow> NetworkIndex v < NetworkIndex vm)
        \<longrightarrow> NextNetNSIndex (rc_vms s') \<le> NetworkIndex vm)"
proof -
  have D: "rc_vms s' = AList.delete (GetId sb) (rc_vms s)" by (rule r_delete_index [OF vm(1) x])
  then have "GetMicroVM (rc_vms s') (GetId sb) = None" by (simp add: GetMicroVM_def delete_conv')
  then have "r_delete r sb s' = (s', Inr ())" by (rule r_delete_absent)
  moreover have "NextNetNSIndex (rc_vms s') \<le> NetworkIndex vm"
    if o: "\<forall>j v. GetMicroVM (rc_vms s) j = Some v \<and> j \<noteq> GetId sb \<longrightarrow> NetworkIndex v < NetworkIndex vm"
  proof (rule NextNetNSIndex_bound [OF vm(2)])
    fix j v
    assume "(j, v) \<in> set (rc_vms s')"
    then have "(j, v) \<in> set (rc_vms s)" "j \<noteq> GetId sb" unfolding D by (auto simp: AList.delete_eq)
    with o vms show "NetworkIndex v < NetworkIndex vm" by (simp add: GetMicroVM_def)
  qed
  ultimately show ?thesis using D by simp
qed

theorem delete_retry_skips_witness:
  "\<exists>s' e. r_delete mem_daemon (wit_sb\<lparr>sb_Metadata := (sb_Metadata wit_sb)\<lparr>sm_Id := ''vm0''\<rparr>\<rparr>) wit_rcs = (s', Inl e)
     \<and> NextNetNSIndex (rc_vms s') \<le> 2
     \<and> r_delete mem_daemon (wit_sb\<lparr>sb_Metadata := (sb_Metadata wit_sb)\<lparr>sm_Id := ''vm0''\<rparr>\<rparr>) s' = (s', Inr ())"
proof -
  let ?sb = "wit_sb\<lparr>sb_Metadata := (sb_Metadata wit_sb)\<lparr>sm_Id := ''vm0''\<rparr>\<rparr>"
  have g: "distinct (map fst (rc_vms wit_rcs))" "GetMicroVM (rc_vms wit_rcs) (GetId ?sb) = Some (wit_vm ''vm0'' 2)"
    "NetworkIndex (wit_vm ''vm0'' 2) = 2" "GetId ?sb = ''vm0''"
    by (simp_all add: wit_rcs_def GetMicroVM_def GetId_def NetworkIndex_def wit_vm_def)
  have "destroy idle_fc (wit_vm ''vm0'' 2) wit_net
      = (wit_net, Inl (wrapf ''signal firecracker'' (New ''operation not permitted'')))"
    by (simp add: destroy_def wit_vm_def stopProcess_def idle_fc_def idle_host_def ESRCH_def)
  then obtain s' e where x: "r_delete mem_daemon ?sb wit_rcs = (s', Inl e)"
    by (auto simp: r_delete_def g DeleteMicroVM_def onProvider_def withIndex_def mem_daemon_def wit_rcs_def
        GetMicroVM_def ErrVMNotFound_def)
  have o: "\<forall>j v. GetMicroVM (rc_vms wit_rcs) j = Some v \<and> j \<noteq> GetId ?sb \<longrightarrow> NetworkIndex v < NetworkIndex (wit_vm ''vm0'' 2)"
    by (simp add: g(4)) (simp add: wit_rcs_def GetMicroVM_def)
  have "r_delete mem_daemon ?sb s' = (s', Inr ()) \<and> NextNetNSIndex (rc_vms s') \<le> 2"
    using delete_retry_skips [OF g(1,2) _ x] o unfolding g(3) by (metis zero_le_numeral)
  with x show ?thesis by blast
qed

end
