(* ===== verification/Controller_Properties.thy ===== *)
theory Controller_Properties
  imports Controller Session_Properties Reconciler_Properties
begin

text \<open>
  What the controller guarantees. Its goroutines are interleaved between their critical sections in the
  relation \<open>cstep\<close>: the invariant that no event is lost is proved over every interleaving, and the
  functions of the source are shown to be the uninterrupted runs. The contract of the work queue is
  the locale \<open>work_queue\<close>, that of a reconciler joins it in the locale \<open>control_loop\<close>.
\<close>

section \<open>The goroutines, interleaved\<close>

text \<open>Where the worker is: asking the queue, holding an id, with a sandbox to reconcile, with an update
  to send, with one to store, or with the outcome to settle.\<close>

datatype worker =
    WIdle
  | WGet string
  | WReconcile string Sandbox
  | WSend string Sandbox
  | WPut string Sandbox
  | WFinish string "unit result"

text \<open>The reader and the resync hold an id between \<open>Put\<close> and \<open>Add\<close>. The last two fields record, for each
  id, the sandbox last handed to the reconciler and the update last sent.\<close>

record ('q, 's) sys = "('q, 's) cst" +
  sy_reader :: "string option"
  sy_resync :: "string option"
  sy_worker :: worker
  sy_handed :: "string \<rightharpoonup> Sandbox"
  sy_sent :: "string \<rightharpoonup> Sandbox"

inductive cstep :: "('q, 's) Controller \<Rightarrow> ('q, 's) sys \<Rightarrow> ('q, 's) sys \<Rightarrow> bool" for c where
  reader_put: "\<lbrakk> sy_reader s = None; indexer_Put (ct_indexer s) sb = (i, ok) \<rbrakk> \<Longrightarrow>
    cstep c s (s\<lparr>ct_indexer := i, sy_reader := if ok then Some (GetId sb) else None\<rparr>)"
| reader_add: "sy_reader s = Some ident \<Longrightarrow>
    cstep c s (s\<lparr>ct_queue := wq_Add (co_queue c) (ct_queue s) ident, sy_reader := None\<rparr>)"
| resync_put: "\<lbrakk> sy_resync s = None; sb_Intent sb \<noteq> None; indexer_Put (ct_indexer s) sb = (i, ok) \<rbrakk> \<Longrightarrow>
    cstep c s (s\<lparr>ct_indexer := i, sy_resync := if ok then Some (GetId sb) else None\<rparr>)"
| resync_add: "sy_resync s = Some ident \<Longrightarrow>
    cstep c s (s\<lparr>ct_queue := wq_Add (co_queue c) (ct_queue s) ident, sy_resync := None\<rparr>)"
| elsewhere: "cstep c s (s\<lparr>ct_stream := stream, ct_s := w\<rparr>)"
| worker_get: "\<lbrakk> sy_worker s = WIdle; wq_Get (co_queue c) (ct_queue s) = Some (ident, q) \<rbrakk> \<Longrightarrow>
    cstep c s (s\<lparr>ct_queue := q, sy_worker := WGet ident\<rparr>)"
| worker_none: "\<lbrakk> sy_worker s = WGet ident; indexer_Get (ct_indexer s) ident = None \<rbrakk> \<Longrightarrow>
    cstep c s (s\<lparr>sy_worker := WFinish ident (Inr ())\<rparr>)"
| worker_read: "\<lbrakk> sy_worker s = WGet ident; indexer_Get (ct_indexer s) ident = Some stored \<rbrakk> \<Longrightarrow>
    cstep c s (s\<lparr>sy_worker := WReconcile ident stored, sy_handed := (sy_handed s)(ident \<mapsto> stored)\<rparr>)"
| worker_reconcile: "\<lbrakk> sy_worker s = WReconcile ident stored; co_Reconcile c stored (ct_s s) = (w, r) \<rbrakk> \<Longrightarrow>
    cstep c s (s\<lparr>ct_s := w, sy_worker := (case r of
        Inl err \<Rightarrow> WFinish ident (Inl (wrapf ''reconcile'' err))
      | Inr updated \<Rightarrow> if stored = updated then WFinish ident (Inr ()) else WSend ident updated)\<rparr>)"
| worker_send: "\<lbrakk> sy_worker s = WSend ident updated; sendUpdate c s updated = (s', Inr ()) \<rbrakk> \<Longrightarrow>
    cstep c s (s'\<lparr>sy_worker := WPut ident updated, sy_sent := (sy_sent s)(ident \<mapsto> updated)\<rparr>)"
| worker_unsent: "\<lbrakk> sy_worker s = WSend ident updated; sendUpdate c s updated = (s', Inl err) \<rbrakk> \<Longrightarrow>
    cstep c s (s'\<lparr>sy_worker := WFinish ident (Inl (wrapf ''send update'' err))\<rparr>)"
| worker_put: "sy_worker s = WPut ident updated \<Longrightarrow>
    cstep c s (s\<lparr>ct_indexer := fst (indexer_Put (ct_indexer s) updated), sy_worker := WFinish ident (Inr ())\<rparr>)"
| worker_finish: "sy_worker s = WFinish ident r \<Longrightarrow>
    cstep c s ((settle c s ident r)\<lparr>sy_worker := WIdle\<rparr>)"

lemma ct_s_same: "\<exists>w. s = s\<lparr>ct_s := w\<rparr>"
  by (intro exI [of _ "ct_s s"]) simp

lemma sendUpdate_sys:
  assumes "sendUpdate c s u = (s', r)"
  shows "\<exists>w. s' = s\<lparr>ct_s := w\<rparr>"
  using assms ct_s_same [of s]
  by (cases "ct_stream s") (auto simp: sendUpdate_def sendOnStream_def split: prod.splits)

text \<open>\<open>markFailed\<close> and \<open>settle\<close> only touch the queue and what is called.\<close>

lemma markFailed_sys: "\<exists>w. markFailed c s ident e = s\<lparr>ct_s := w\<rparr>"
  using ct_s_same [of s] sendUpdate_sys [OF prod.collapse [symmetric]]
  by (cases "ct_indexer s ident") (simp_all add: markFailed_def indexer_Get_def)

section \<open>The contract of the work queue\<close>

text \<open>What client-go documents: an id is pending or not, however often it was added; \<open>Get\<close> hands out a
  pending id no worker has; an id added while a worker has it becomes pending again; requeues are counted
  until forgotten. A queue that was shut down takes nothing in.\<close>

locale work_queue =
  fixes Q :: "'q workqueue" and pending processing :: "'q \<Rightarrow> string set" and requeues :: "'q \<Rightarrow> string \<Rightarrow> nat"
    and shut :: "'q \<Rightarrow> bool"
  assumes add: "\<not> shut q \<Longrightarrow> pending (wq_Add Q q i) = insert i (pending q)"
    and add_rest: "processing (wq_Add Q q i) = processing q" "requeues (wq_Add Q q i) = requeues q" "shut (wq_Add Q q i) = shut q"
    and get: "wq_Get Q q = Some (i, q') \<Longrightarrow> i \<in> pending q \<and> i \<notin> processing q \<and> pending q' = pending q - {i}
        \<and> processing q' = insert i (processing q) \<and> requeues q' = requeues q \<and> shut q' = shut q"
    and finish: "pending (wq_Done Q q i) = pending q" "processing (wq_Done Q q i) = processing q - {i}"
      "requeues (wq_Done Q q i) = requeues q" "shut (wq_Done Q q i) = shut q"
    and again: "\<not> shut q \<Longrightarrow> pending (wq_AddRateLimited Q q i) = insert i (pending q)"
      "\<not> shut q \<Longrightarrow> requeues (wq_AddRateLimited Q q i) = (requeues q)(i := Suc (requeues q i))"
    and again_rest: "processing (wq_AddRateLimited Q q i) = processing q" "shut (wq_AddRateLimited Q q i) = shut q"
    and forget: "pending (wq_Forget Q q i) = pending q" "processing (wq_Forget Q q i) = processing q"
      "requeues (wq_Forget Q q i) = (requeues q)(i := 0)" "shut (wq_Forget Q q i) = shut q"
    and num: "wq_NumRequeues Q q i = int (requeues q i)"
begin

lemmas laws = add add_rest finish again again_rest forget num

end

locale control_loop = work_queue "co_queue c" pending processing requeues shut
  for c :: "('q, 's) Controller" and pending processing :: "'q \<Rightarrow> string set" and requeues shut +
  assumes keeps: "co_Reconcile c sb s = (s', Inr sb') \<Longrightarrow> GetId sb' = GetId sb \<and> GetVersion sb' = GetVersion sb"
begin

lemma settle_sys:
  assumes "\<not> shut (ct_queue s)"
  obtains q w where "settle c s ident r = s\<lparr>ct_queue := q, ct_s := w\<rparr>" "pending (ct_queue s) \<subseteq> pending q" "\<not> shut q"
proof -
  let ?d = "\<lambda>q. wq_Done (co_queue c) q ident"
  let ?f = "?d (wq_Forget (co_queue c) (ct_queue s) ident)"
  show ?thesis
  proof (cases r)
    case (Inl e)
    show ?thesis
    proof (cases "wq_NumRequeues (co_queue c) (ct_queue s) ident < co_MaxRetries c")
      case True
      then have "settle c s ident r = s\<lparr>ct_queue := ?d (wq_AddRateLimited (co_queue c) (ct_queue s) ident), ct_s := ct_s s\<rparr>"
        using Inl by (simp add: settle_def Let_def)
      then show ?thesis by (rule that) (use assms in \<open>auto simp: laws\<close>)
    next
      case False
      obtain w where w: "markFailed c s ident e = s\<lparr>ct_s := w\<rparr>" using markFailed_sys [of c s ident e] by blast
      then have "settle c s ident r = s\<lparr>ct_queue := ?f, ct_s := w\<rparr>"
        using Inl False by (simp add: settle_def Let_def)
      then show ?thesis by (rule that) (use assms in \<open>auto simp: laws\<close>)
    qed
  next
    case (Inr u)
    have "settle c s ident r = s\<lparr>ct_queue := ?f, ct_s := ct_s s\<rparr>" using Inr by (simp add: settle_def Let_def)
    then show ?thesis by (rule that) (use assms in \<open>auto simp: laws\<close>)
  qed
qed

text \<open>An id waits while it is pending, about to be added, or in the hands of the worker that has not read
  it yet. The invariant: an indexed sandbox waits, or is the one last handed to the reconciler for its id, or
  is the update that was sent for that one; with what the worker holds in between.\<close>

definition waiting :: "('q, 's) sys \<Rightarrow> string \<Rightarrow> bool" where
  "waiting s i \<longleftrightarrow> i \<in> pending (ct_queue s) \<or> sy_reader s = Some i \<or> sy_resync s = Some i \<or> sy_worker s = WGet i"

definition held :: "('q, 's) sys \<Rightarrow> string \<Rightarrow> Sandbox \<Rightarrow> bool" where
  "held s i sb \<longleftrightarrow> (case sy_worker s of
     WReconcile j t \<Rightarrow> i = j \<longrightarrow> waiting s i \<or> sy_handed s i = Some sb
   | WSend j u \<Rightarrow> i = j \<longrightarrow> waiting s i \<or> sy_handed s i = Some sb
   | _ \<Rightarrow> True)"

definition worker_ok :: "('q, 's) sys \<Rightarrow> bool" where
  "worker_ok s \<longleftrightarrow> (case sy_worker s of
     WReconcile i t \<Rightarrow> sy_handed s i = Some t \<and> GetId t = i
   | WSend i u \<Rightarrow> sy_handed s i \<noteq> None \<and> GetId u = i
   | WPut i u \<Rightarrow> sy_handed s i \<noteq> None \<and> sy_sent s i = Some u \<and> GetId u = i
   | _ \<Rightarrow> True)"

definition tracked :: "('q, 's) sys \<Rightarrow> string \<Rightarrow> Sandbox \<Rightarrow> bool" where
  "tracked s i sb \<longleftrightarrow> waiting s i \<or> sy_handed s i = Some sb \<or> sy_handed s i \<noteq> None \<and> sy_sent s i = Some sb"

definition loop_inv :: "('q, 's) sys \<Rightarrow> bool" where
  "loop_inv s \<longleftrightarrow> \<not> shut (ct_queue s) \<and> worker_ok s
     \<and> (\<forall>i sb. ct_indexer s i = Some sb \<longrightarrow> GetId sb = i \<and> tracked s i sb \<and> held s i sb)"

lemmas loop_defs = waiting_def held_def worker_ok_def tracked_def loop_inv_def

lemma indexer_Put_cases:
  assumes "indexer_Put i sb = (i', ok)"
  obtains "\<not> ok" "i' = i" | "ok" "i' = i(GetId sb \<mapsto> sb)" "GetId sb \<noteq> []"
      "\<And>old. i (GetId sb) = Some old \<Longrightarrow> GetVersion old \<le> GetVersion sb"
  using assms by (auto simp: indexer_Put_def Let_def split: if_splits option.splits)

text \<open>A step that leaves the indexer alone, and one that stores a sandbox which then waits.\<close>

lemma inv_same:
  assumes "loop_inv s" "ct_indexer s' = ct_indexer s" "\<not> shut (ct_queue s')" "worker_ok s'"
    and "\<And>i sb. \<lbrakk> ct_indexer s i = Some sb; tracked s i sb; held s i sb \<rbrakk> \<Longrightarrow> tracked s' i sb \<and> held s' i sb"
  shows "loop_inv s'"
  using assms unfolding loop_inv_def by metis

lemma inv_put:
  assumes "loop_inv s" "ct_indexer s' = (ct_indexer s)(GetId sb \<mapsto> sb)" "\<not> shut (ct_queue s')" "worker_ok s'"
    and "tracked s' (GetId sb) sb \<and> held s' (GetId sb) sb"
    and "\<And>i t. \<lbrakk> i \<noteq> GetId sb; tracked s i t; held s i t \<rbrakk> \<Longrightarrow> tracked s' i t \<and> held s' i t"
  shows "loop_inv s'"
proof -
  have "GetId t = i \<and> tracked s' i t \<and> held s' i t" if t: "ct_indexer s' i = Some t" for i t
  proof (cases "i = GetId sb")
    case False
    then have "ct_indexer s i = Some t" using t assms(2) by simp
    then show ?thesis using assms(1) assms(6) [OF False] unfolding loop_inv_def by blast
  qed (use t assms(2,5) in simp)
  then show ?thesis using assms(3,4) unfolding loop_inv_def by blast
qed

lemma reader_inv:
  assumes "indexer_Put (ct_indexer s) sb = (i, ok)" "loop_inv s"
  shows "sy_reader s = None \<Longrightarrow> loop_inv (s\<lparr>ct_indexer := i, sy_reader := if ok then Some (GetId sb) else None\<rparr>)"
    and "sy_resync s = None \<Longrightarrow> loop_inv (s\<lparr>ct_indexer := i, sy_resync := if ok then Some (GetId sb) else None\<rparr>)"
proof -
  have w: "\<not> shut (ct_queue s)" "worker_ok s" using assms(2) by (simp_all add: loop_inv_def)
  note c = assms(1)
  show "loop_inv (s\<lparr>ct_indexer := i, sy_reader := if ok then Some (GetId sb) else None\<rparr>)" if "sy_reader s = None"
    using c
  proof (cases rule: indexer_Put_cases)
    case 1
    then show ?thesis
      by (intro inv_same [OF assms(2)]) (use w that in \<open>auto simp: loop_defs split: worker.splits\<close>)
  next
    case 2
    then show ?thesis
      by (intro inv_put [OF assms(2), of _ sb]) (use w that in \<open>auto simp: loop_defs split: worker.splits\<close>)
  qed
  show "loop_inv (s\<lparr>ct_indexer := i, sy_resync := if ok then Some (GetId sb) else None\<rparr>)" if "sy_resync s = None"
    using c
  proof (cases rule: indexer_Put_cases)
    case 1
    then show ?thesis
      by (intro inv_same [OF assms(2)]) (use w that in \<open>auto simp: loop_defs split: worker.splits\<close>)
  next
    case 2
    then show ?thesis
      by (intro inv_put [OF assms(2), of _ sb]) (use w that in \<open>auto simp: loop_defs split: worker.splits\<close>)
  qed
qed

lemma cstep_inv:
  assumes "cstep c s s'" and inv: "loop_inv s"
  shows "loop_inv s'"
proof -
  have w: "\<not> shut (ct_queue s)" "worker_ok s" using inv by (simp_all add: loop_inv_def)
  note same = inv_same [OF inv]
  from assms(1) show ?thesis
  proof (cases rule: cstep.cases)
    case (reader_put sb i ok)
    then show ?thesis using reader_inv(1) [OF reader_put(3) inv] by simp
  next
    case (reader_add ident)
    then show ?thesis by (intro same) (use w in \<open>auto simp: loop_defs laws split: worker.splits\<close>)
  next
    case (resync_put sb i ok)
    then show ?thesis using reader_inv(2) [OF resync_put(4) inv] by simp
  next
    case (resync_add ident)
    then show ?thesis by (intro same) (use w in \<open>auto simp: loop_defs laws split: worker.splits\<close>)
  next
    case (elsewhere stream w)
    then show ?thesis by (intro same) (use \<open>\<not> shut (ct_queue s)\<close> \<open>worker_ok s\<close> in \<open>auto simp: loop_defs split: worker.splits\<close>)
  next
    case (worker_get ident q)
    then show ?thesis
      by (intro same) (use w get [OF worker_get(3)] in \<open>auto simp: loop_defs\<close>)
  next
    case (worker_none ident)
    then show ?thesis by (intro same) (use w in \<open>auto simp: loop_defs indexer_Get_def\<close>)
  next
    case (worker_read ident stored)
    have "GetId stored = ident" using worker_read(3) inv by (simp add: loop_inv_def indexer_Get_def)
    with worker_read show ?thesis by (intro same) (use w in \<open>auto simp: loop_defs indexer_Get_def\<close>)
  next
    case (worker_reconcile ident stored v r)
    show ?thesis
    proof (cases r)
      case (Inl e)
      with worker_reconcile show ?thesis by (intro same) (use w in \<open>auto simp: loop_defs\<close>)
    next
      case (Inr u)
      have "GetId u = GetId stored"
        using keeps [of stored "ct_s s" v u] worker_reconcile(3) unfolding Inr by blast
      define y where "y = (if stored = u then WFinish ident (Inr ()) else WSend ident u)"
      have "s' = s\<lparr>ct_s := v, sy_worker := y\<rparr>" using worker_reconcile(1) unfolding Inr y_def by simp
      then show ?thesis
        by (intro same) (use w \<open>GetId u = GetId stored\<close> worker_reconcile(2) in \<open>auto simp: loop_defs y_def\<close>)
    qed
  next
    case (worker_send ident updated t)
    obtain v where "t = s\<lparr>ct_s := v\<rparr>" using sendUpdate_sys [OF worker_send(3)] by blast
    with worker_send show ?thesis by (intro same) (use w in \<open>auto simp: loop_defs\<close>)
  next
    case (worker_unsent ident updated t e)
    obtain v where "t = s\<lparr>ct_s := v\<rparr>" using sendUpdate_sys [OF worker_unsent(3)] by blast
    with worker_unsent show ?thesis by (intro same) (use w in \<open>auto simp: loop_defs\<close>)
  next
    case (worker_put ident updated)
    obtain i ok where p: "indexer_Put (ct_indexer s) updated = (i, ok)" by fastforce
    then show ?thesis
    proof (cases rule: indexer_Put_cases)
      case 1
      with worker_put p show ?thesis by (intro same) (use w in \<open>auto simp: loop_defs\<close>)
    next
      case 2
      with worker_put p show ?thesis
        by (intro inv_put [OF inv, of _ updated]) (use w in \<open>auto simp: loop_defs\<close>)
    qed
  next
    case (worker_finish ident r)
    from w(1) obtain q v where "settle c s ident r = s\<lparr>ct_queue := q, ct_s := v\<rparr>" "pending (ct_queue s) \<subseteq> pending q" "\<not> shut q"
      by (rule settle_sys)
    with worker_finish show ?thesis by (intro same) (use w in \<open>auto simp: loop_defs\<close>)
  qed
qed

lemma reach_inv: "\<lbrakk> (cstep c)\<^sup>*\<^sup>* s s'; loop_inv s \<rbrakk> \<Longrightarrow> loop_inv s'"
  by (induction rule: rtranclp_induct) (auto intro: cstep_inv)

text \<open>The branches of \<open>settle\<close> on the queue.\<close>

lemma settle_queue:
  assumes "\<not> shut (ct_queue s)"
  shows "let q = ct_queue (settle c s i r); k = requeues (ct_queue s) i in
    processing q = processing (ct_queue s) - {i}
    \<and> pending q = (if \<not> isOk r \<and> int k < co_MaxRetries c then insert i (pending (ct_queue s)) else pending (ct_queue s))
    \<and> requeues q = (requeues (ct_queue s))(i := if \<not> isOk r \<and> int k < co_MaxRetries c then Suc k else 0)"
proof -
  have m: "ct_queue (markFailed c s i e) = ct_queue s" for e using markFailed_sys [of c s i e] by auto
  show ?thesis using assms by (cases r) (auto simp: settle_def Let_def laws m)
qed

end

text \<open>Versions only grow, whatever the interleaving.\<close>

lemma cstep_version:
  assumes "cstep c s s'" "ct_indexer s i = Some sb"
  shows "\<exists>sb'. ct_indexer s' i = Some sb' \<and> GetVersion sb \<le> GetVersion sb'"
proof -
  have put: "\<exists>sb'. fst (indexer_Put (ct_indexer s) t) i = Some sb' \<and> GetVersion sb \<le> GetVersion sb'" for t
    using assms(2) by (auto simp: indexer_Put_def Let_def split: option.split)
  have st: "ct_indexer (settle c s ident r) = ct_indexer s" for ident r
  proof -
    have "ct_indexer (markFailed c s ident e) = ct_indexer s" for e using markFailed_sys [of c s ident e] by auto
    then show ?thesis by (cases r) (simp_all add: settle_def Let_def)
  qed
  from assms(1) show ?thesis
  proof (cases rule: cstep.cases)
    case (worker_send ident u t)
    then show ?thesis using assms(2) sendUpdate_sys [OF worker_send(3)] by auto
  next
    case (worker_unsent ident u t e)
    then show ?thesis using assms(2) sendUpdate_sys [OF worker_unsent(3)] by auto
  next
    case (reader_put t j ok)
    then show ?thesis using put [of t] by simp
  next
    case (resync_put t j ok)
    then show ?thesis using put [of t] by simp
  next
    case (worker_put ident u)
    then show ?thesis using put [of u] by simp
  qed (use assms(2) st in auto)
qed

lemma reach_version:
  "\<lbrakk> (cstep c)\<^sup>*\<^sup>* s s'; ct_indexer s i = Some sb \<rbrakk> \<Longrightarrow> \<exists>sb'. ct_indexer s' i = Some sb' \<and> GetVersion sb \<le> GetVersion sb'"
proof (induction rule: rtranclp_induct)
  case (step t u)
  then obtain t' where "ct_indexer t i = Some t'" "GetVersion sb \<le> GetVersion t'" by blast
  with cstep_version [OF step(2)] show ?case by (meson order_trans)
qed blast

section \<open>A controller in memory\<close>

text \<open>A queue in memory (the pending ids, the ids being processed, the count of requeues), and a controller
  of the daemon in memory whose stream accepts everything and whose listing is empty.\<close>

record mem_queue =
  mq_pending :: "string list"
  mq_processing :: "string list"
  mq_requeues :: "string \<Rightarrow> nat"

definition mem_add :: "mem_queue \<Rightarrow> string \<Rightarrow> mem_queue" where
  "mem_add q i = (if i \<in> set (mq_pending q) then q else q\<lparr>mq_pending := mq_pending q @ [i]\<rparr>)"

definition mem_workqueue :: "mem_queue workqueue" where
  "mem_workqueue = \<lparr>
    wq_Add = mem_add,
    wq_Get = \<lambda>q. map_option (\<lambda>i. (i, q\<lparr>mq_pending := removeAll i (mq_pending q), mq_processing := i # mq_processing q\<rparr>))
      (find (\<lambda>i. i \<notin> set (mq_processing q)) (mq_pending q)),
    wq_Done = \<lambda>q i. q\<lparr>mq_processing := removeAll i (mq_processing q)\<rparr>,
    wq_NumRequeues = \<lambda>q i. int (mq_requeues q i),
    wq_AddRateLimited = \<lambda>q i. (mem_add q i)\<lparr>mq_requeues := (mq_requeues q)(i := Suc (mq_requeues q i))\<rparr>,
    wq_Forget = \<lambda>q i. q\<lparr>mq_requeues := (mq_requeues q)(i := 0)\<rparr>,
    wq_ShutDown = \<lambda>q. q \<rparr>"

definition mem_controller :: "(mem_queue, mem_net rcs) Controller" where
  "mem_controller = \<lparr>
    co_Open = \<lambda>s. (s, Inr 1), co_Send = \<lambda>s st req. (s, Inr ()), co_Recv = \<lambda>s st. (s, Inl (New ''EOF'')),
    co_List = \<lambda>s req. (s, Inr ([], [])), co_Reconcile = Reconcile mem_daemon, co_agent = None,
    co_queue = mem_workqueue, co_Retry = \<lambda>f x. f x, co_host = idle_host, co_temp = \<lambda>s d p. (s, Inr p),
    co_ctxErr = \<lambda>s. True, co_SessionIDFile = ''/var/lib/yaghan/session.id'', co_MaxRetries = 2 \<rparr>"

lemma Reconcile_spec: "Reconcile r sb s = (s', Inr sb') \<Longrightarrow> spec_of sb' = spec_of sb"
  by (auto simp: Reconcile_eq bindr_ok dest: reconcilePhase_ok(1) split: if_splits)

interpretation mcl: control_loop mem_controller "\<lambda>q. set (mq_pending q)" "\<lambda>q. set (mq_processing q)" mq_requeues "\<lambda>_. False"
proof unfold_locales
  fix q q' i
  assume "wq_Get (co_queue mem_controller) q = Some (i, q')"
  then have f: "find (\<lambda>i. i \<notin> set (mq_processing q)) (mq_pending q) = Some i"
    and q': "q' = q\<lparr>mq_pending := removeAll i (mq_pending q), mq_processing := i # mq_processing q\<rparr>"
    by (auto simp: mem_controller_def mem_workqueue_def)
  from f have "i \<in> set (mq_pending q)" "i \<notin> set (mq_processing q)" by (auto simp: find_Some_iff)
  with q' show "i \<in> set (mq_pending q) \<and> i \<notin> set (mq_processing q) \<and> set (mq_pending q') = set (mq_pending q) - {i}
      \<and> set (mq_processing q') = insert i (set (mq_processing q)) \<and> mq_requeues q' = mq_requeues q \<and> False = False"
    by auto
next
  fix sb sb' and s s' :: "mem_net rcs"
  assume "co_Reconcile mem_controller sb s = (s', Inr sb')"
  then show "GetId sb' = GetId sb \<and> GetVersion sb' = GetVersion sb"
    by (auto simp: mem_controller_def GetId_def GetVersion_def spec_of_def dest!: Reconcile_spec)
qed (auto simp: mem_controller_def mem_workqueue_def mem_add_def)

definition wit_sys :: "(mem_queue, mem_net rcs) sys" where
  "wit_sys = \<lparr> ct_indexer = newIndexer, ct_queue = \<lparr> mq_pending = [], mq_processing = [], mq_requeues = \<lambda>_. 0 \<rparr>,
     ct_stream = Some 1, ct_s = wit_rcs, sy_reader = None, sy_resync = None, sy_worker = WIdle,
     sy_handed = Map.empty, sy_sent = Map.empty \<rparr>"

section \<open>Properties of the loop\<close>

definition fresh_loop :: "('q, 's) sys \<Rightarrow> bool" where
  "fresh_loop s \<longleftrightarrow> ct_indexer s = newIndexer \<and> sy_reader s = None \<and> sy_resync s = None \<and> sy_worker s = WIdle"



text \<open>The worker's steps, run without interruption, do what \<open>processItem\<close> and \<open>settle\<close> do. \<open>alike\<close>: the
  same but for the worker and the record of what it has done.\<close>

definition alike :: "('q, 's) sys \<Rightarrow> ('q, 's) sys \<Rightarrow> bool" where
  "alike s t \<longleftrightarrow> ct_indexer t = ct_indexer s \<and> ct_queue t = ct_queue s \<and> ct_stream t = ct_stream s
     \<and> ct_s t = ct_s s \<and> sy_reader t = sy_reader s \<and> sy_resync t = sy_resync s"

lemma sendUpdate_fields:
  "ct_indexer (fst (sendUpdate c s u)) = ct_indexer s" "ct_queue (fst (sendUpdate c s u)) = ct_queue s"
  "ct_stream (fst (sendUpdate c s u)) = ct_stream s" "sy_reader (fst (sendUpdate c t u)) = sy_reader t"
  "sy_resync (fst (sendUpdate c t u)) = sy_resync t"
  by (simp_all add: sendUpdate_def sendOnStream_def split: option.split prod.split)

lemma sendUpdate_alike:
  assumes "alike s t"
  shows "alike (fst (sendUpdate c s u)) (fst (sendUpdate c t u))" "snd (sendUpdate c t u) = snd (sendUpdate c s u)"
  using assms by (auto simp: alike_def sendUpdate_def sendOnStream_def split: option.split prod.split)

lemma settle_alike:
  assumes "alike s t"
  shows "alike (settle c s i r) (settle c t i r)"
proof -
  have "alike (markFailed c s i e) (markFailed c t i e)" for e
    using assms sendUpdate_alike(1) [OF assms]
    by (simp add: markFailed_def indexer_Get_def alike_def split: option.split)
  with assms show ?thesis by (cases r) (auto simp: settle_def Let_def alike_def)
qed

lemma processItem_alike:
  assumes "alike s t"
  shows "alike (fst (processItem c s i)) (fst (processItem c t i))" "snd (processItem c t i) = snd (processItem c s i)"
proof -
  have e: "ct_indexer t = ct_indexer s" "ct_s t = ct_s s" using assms by (simp_all add: alike_def)
  have a: "alike (s\<lparr>ct_s := v\<rparr>) (t\<lparr>ct_s := v\<rparr>)" for v using assms by (simp add: alike_def)
  have p: "alike x y \<Longrightarrow> alike (x\<lparr>ct_indexer := j\<rparr>) (y\<lparr>ct_indexer := j\<rparr>)" "alike x y \<Longrightarrow> ct_indexer y = ct_indexer x"
    for x y j by (simp_all add: alike_def)
  have "alike (fst (processItem c s i)) (fst (processItem c t i)) \<and> snd (processItem c t i) = snd (processItem c s i)"
  proof (cases "ct_indexer s i")
    case None
    then show ?thesis using assms by (simp add: processItem_def indexer_Get_def e)
  next
    case (Some stored)
    obtain v x where x: "co_Reconcile c stored (ct_s s) = (v, x)" by fastforce
    obtain s1 y where s1: "sendUpdate c (s\<lparr>ct_s := v\<rparr>) (projr x) = (s1, y)" by fastforce
    obtain t1 where t1: "sendUpdate c (t\<lparr>ct_s := v\<rparr>) (projr x) = (t1, y)" "alike s1 t1"
      using sendUpdate_alike [OF a, of c v "projr x"] s1 by (metis fst_conv snd_conv prod.collapse)
    show ?thesis
      using Some x a [of v] s1 t1 p(1) [OF t1(2)] p(2) [OF t1(2)]
      by (cases x; cases y) (simp_all add: processItem_def indexer_Get_def e)
  qed
  then show "alike (fst (processItem c s i)) (fst (processItem c t i))" "snd (processItem c t i) = snd (processItem c s i)"
    by simp_all
qed

lemma steps_snoc: "\<lbrakk> (cstep c)\<^sup>*\<^sup>* s t; cstep c t u \<rbrakk> \<Longrightarrow> (cstep c)\<^sup>*\<^sup>* s u"
  by (rule rtranclp.rtrancl_into_rtrancl)

lemma worker_runs:
  assumes w: "sy_worker s = WGet i" and p: "processItem c s i = (s', r)"
  obtains t where "(cstep c)\<^sup>*\<^sup>* s t" "sy_worker t = WFinish i r" "alike s' t"
proof (cases "indexer_Get (ct_indexer s) i")
  case None
  from cstep.worker_none [OF w None] have "(cstep c)\<^sup>*\<^sup>* s (s\<lparr>sy_worker := WFinish i (Inr ())\<rparr>)" by blast
  then show ?thesis by (rule that) (use p None in \<open>auto simp: processItem_def alike_def\<close>)
next
  case (Some stored)
  define s1 where "s1 = s\<lparr>sy_worker := WReconcile i stored, sy_handed := (sy_handed s)(i \<mapsto> stored)\<rparr>"
  have 1: "cstep c s s1" unfolding s1_def using w Some by (rule cstep.worker_read)
  obtain v x where x: "co_Reconcile c stored (ct_s s) = (v, x)" by fastforce
  define s2 where "s2 = s1\<lparr>ct_s := v, sy_worker := (case x of Inl err \<Rightarrow> WFinish i (Inl (wrapf ''reconcile'' err))
      | Inr updated \<Rightarrow> if stored = updated then WFinish i (Inr ()) else WSend i updated)\<rparr>"
  have "cstep c s1 s2" unfolding s2_def by (rule cstep.worker_reconcile) (simp_all add: s1_def x)
  with 1 have 2: "(cstep c)\<^sup>*\<^sup>* s s2" by (meson converse_rtranclp_into_rtranclp rtranclp.rtrancl_refl)
  show ?thesis
  proof (cases "\<exists>u. x = Inr u \<and> stored \<noteq> u")
    case False
    then show ?thesis
      by (intro that [OF 2]) (use p Some x in \<open>auto simp: processItem_def alike_def s2_def s1_def split: sum.splits\<close>)
  next
    case True
    then obtain u where u: "x = Inr u" "stored \<noteq> u" by blast
    have a: "alike (s\<lparr>ct_s := v\<rparr>) s2" "sy_worker s2 = WSend i u" by (simp_all add: alike_def s2_def s1_def u)
    obtain t y where t: "sendUpdate c s2 u = (t, y)" by fastforce
    obtain s3 where s3: "sendUpdate c (s\<lparr>ct_s := v\<rparr>) u = (s3, y)" "alike s3 t"
      using sendUpdate_alike [OF a(1), of c u] t by (metis fst_conv snd_conv prod.collapse)
    show ?thesis
    proof (cases y)
      case (Inl e)
      then have "cstep c s2 (t\<lparr>sy_worker := WFinish i (Inl (wrapf ''send update'' e))\<rparr>)"
        using cstep.worker_unsent [OF a(2), of c t e] t by simp
      from that [OF steps_snoc [OF 2 this]] show ?thesis
        using p Some x u s3 Inl by (auto simp: processItem_def alike_def)
    next
      case (Inr z)
      let ?t = "t\<lparr>sy_worker := WPut i u, sy_sent := (sy_sent s2)(i \<mapsto> u)\<rparr>"
      have t1: "cstep c s2 ?t" using cstep.worker_send [OF a(2), of c t] t Inr by simp
      have "sy_worker ?t = WPut i u" by simp
      note 3 = steps_snoc [OF steps_snoc [OF 2 t1] cstep.worker_put [OF this]]
      show ?thesis
        by (rule that [OF 3]) (use p Some x u s3 Inr in \<open>auto simp: processItem_def alike_def\<close>)
    qed
  qed
qed



lemma processItem_queue: "ct_queue (fst (processItem c s i)) = ct_queue s" "ct_stream (fst (processItem c s i)) = ct_stream s"
  by (auto simp: processItem_def bindr_def onErr_def sendUpdate_def sendOnStream_def
      split: option.split prod.split sum.split)

text \<open>C18: what becomes of a work item. Whatever the outcome of \<open>processItem\<close>, the id is released. When it
  failed with retries left, the id is queued again and its requeues count one more; when it failed for
  the last time, the id is not queued, its count starts over, and the sandbox as indexed is sent to the
  api-server as failed, with the error as its message; when it succeeded the count starts over.\<close>

theorem processNext_outcome:
  assumes L: "control_loop c pending processing requeues shut" and d: "\<not> shut (ct_queue s)"
    and g: "wq_Get (co_queue c) (ct_queue s) = Some (i, q)" and p: "processItem c (s\<lparr>ct_queue := q\<rparr>) i = (s1, r)"
    and k: "again \<longleftrightarrow> \<not> isOk r \<and> int (requeues (ct_queue s) i) < co_MaxRetries c"
  shows "let s' = fst (processNext c s) in
    processing (ct_queue s') = processing (ct_queue s)
    \<and> pending (ct_queue s') = (if again then pending (ct_queue s) else pending (ct_queue s) - {i})
    \<and> requeues (ct_queue s') = (requeues (ct_queue s))(i := if again then Suc (requeues (ct_queue s) i) else 0)
    \<and> (\<forall>e sb h. r = Inl e \<and> \<not> again \<and> ct_indexer s1 i = Some sb \<and> ct_stream s = Some h \<longrightarrow>
        ct_s s' = fst (co_Send c (ct_s s1) h
          (Req_UpdateSandbox (sb\<lparr>sb_Status := Some \<lparr> ss_Phase = PHASE_FAILED, ss_Message = Error e \<rparr>\<rparr>))))"
proof -
  have Q: "work_queue (co_queue c) pending processing requeues shut" using L by (rule control_loop.axioms)
  note get = work_queue.get [OF Q g]
  have s1: "ct_queue s1 = q" "ct_stream s1 = ct_stream s"
    using processItem_queue [of c "s\<lparr>ct_queue := q\<rparr>" i] p by simp_all
  have s': "fst (processNext c s) = settle c s1 i r" using g p by (simp add: processNext_def)
  have "ct_s (settle c s1 i r) = fst (co_Send c (ct_s s1) h
      (Req_UpdateSandbox (sb\<lparr>sb_Status := Some \<lparr> ss_Phase = PHASE_FAILED, ss_Message = Error e \<rparr>\<rparr>)))"
    if "r = Inl e" "\<not> again" "ct_indexer s1 i = Some sb" "ct_stream s = Some h" for e sb h
  proof -
    have "\<not> wq_NumRequeues (co_queue c) (ct_queue s1) i < co_MaxRetries c"
      using that(1,2) k get by (simp add: work_queue.num [OF Q] s1)
    with that s1 show ?thesis
      by (simp add: settle_def Let_def markFailed_def indexer_Get_def sendUpdate_def sendOnStream_def split: prod.split)
  qed
  moreover have "\<not> shut (ct_queue s1)" using get d s1 by simp
  note control_loop.settle_queue [OF L this, of i r]
  ultimately show ?thesis
    using get k unfolding s' s1 Let_def by auto
qed

definition wit_stuck :: Sandbox where
  "wit_stuck = wit_sb\<lparr>sb_Intent := Some \<lparr> in_Phase = PHASE_PENDING, in_StartSnapshot = None \<rparr>\<rparr>"

theorem processNext_outcome_witness:
  "mq_requeues (ct_queue (fst (processNext mem_controller
     (wit_sys\<lparr>ct_indexer := [''vm1'' \<mapsto> wit_stuck], ct_queue := mem_add (ct_queue wit_sys) ''vm1''\<rparr>)))) ''vm1'' = 1"
proof -
  let ?s = "wit_sys\<lparr>ct_indexer := [''vm1'' \<mapsto> wit_stuck], ct_queue := mem_add (ct_queue wit_sys) ''vm1''\<rparr>"
  let ?q = "(ct_queue wit_sys)\<lparr>mq_processing := [''vm1'']\<rparr>"
  have g: "wq_Get (co_queue mem_controller) (ct_queue ?s) = Some (''vm1'', ?q)"
    by (simp add: mem_controller_def mem_workqueue_def mem_add_def wit_sys_def)
  have i: "decide (GetIntentPhase wit_stuck) (GetStatusPhase wit_stuck) = Refuse" "sb_Intent wit_stuck \<noteq> None"
    by (simp_all add: decide_def GetIntentPhase_def wit_stuck_def)
  obtain e where "reconcilePhase mem_daemon wit_stuck wit_rcs = (wit_rcs, Inl e)"
    using reconcilePhase_refuse [OF i(1)] by blast
  then have "Reconcile mem_daemon wit_stuck wit_rcs = (wit_rcs, Inl e)" using i(2) by (simp add: Reconcile_eq)
  then obtain s1 where p: "processItem mem_controller (?s\<lparr>ct_queue := ?q\<rparr>) ''vm1'' = (s1, Inl (wrapf ''reconcile'' e))"
    by (simp add: processItem_def indexer_Get_def mem_controller_def wit_sys_def)
  have k: "True \<longleftrightarrow> \<not> isOk (Inl (wrapf ''reconcile'' e) :: unit result)
      \<and> int (mq_requeues (ct_queue ?s) ''vm1'') < co_MaxRetries mem_controller"
    by (simp add: wit_sys_def mem_add_def mem_controller_def)
  from processNext_outcome [OF mcl.control_loop_axioms _ g p k] show ?thesis
    by (simp add: Let_def wit_sys_def mem_add_def)
qed

section \<open>Resync\<close>

text \<open>A listing that hands out its rows page by page, the last with an empty token.\<close>

fun paged :: "('q, 's) Controller \<Rightarrow> string \<Rightarrow> (Sandbox list \<times> string) list \<Rightarrow> string \<Rightarrow> 's \<Rightarrow> bool" where
  "paged c nodeID [] token s = False"
| "paged c nodeID ((rows, token') # ps) token s =
    (case co_List c s \<lparr> lq_NodeId = nodeID, lq_NewestFirst = True, lq_PageSize = resyncPageSize,
         lq_ContinuationToken = token \<rparr> of
       (s', r) \<Rightarrow> r = Inr (rows, token') \<and> (if ps = [] then token' = [] else token' \<noteq> [] \<and> paged c nodeID ps token' s'))"

lemma resyncRow_s: "resyncRow c sb (st\<lparr>ct_s := w\<rparr>) = (resyncRow c sb st)\<lparr>ct_s := w\<rparr>" "ct_s (resyncRow c sb st) = ct_s st"
  by (auto simp: resyncRow_def split: prod.split bool.split)

lemma resyncRows_s: "fold (resyncRow c) rows (st\<lparr>ct_s := w\<rparr>) = (fold (resyncRow c) rows st)\<lparr>ct_s := w\<rparr>"
  by (induction rows arbitrary: st) (simp_all add: resyncRow_s)

lemma resyncPages_rows:
  "\<lbrakk> paged c nodeID ps token (ct_s st); length ps \<le> n \<rbrakk>
    \<Longrightarrow> \<exists>w. resyncPages c nodeID n token st = (fold (resyncRow c) (concat (map fst ps)) st)\<lparr>ct_s := w\<rparr>"
proof (induction ps arbitrary: token st n)
  case (Cons p ps)
  obtain rows token' where p: "p = (rows, token')" by fastforce
  obtain m where n: "n = Suc m" "length ps \<le> m" using Cons.prems(2) by (cases n) auto
  obtain s' where l: "co_List c (ct_s st) \<lparr> lq_NodeId = nodeID, lq_NewestFirst = True, lq_PageSize = resyncPageSize,
      lq_ContinuationToken = token \<rparr> = (s', Inr (rows, token'))"
    and ps: "if ps = [] then token' = [] else token' \<noteq> [] \<and> paged c nodeID ps token' s'"
    using Cons.prems(1) p by (auto split: prod.splits)
  let ?st = "fold (resyncRow c) rows (st\<lparr>ct_s := s'\<rparr>)"
  have e: "?st = (fold (resyncRow c) rows st)\<lparr>ct_s := s'\<rparr>" by (rule resyncRows_s)
  show ?case
  proof (cases "ps = []")
    case True
    then show ?thesis using ps e by (simp add: n p l) blast
  next
    case False
    then have "paged c nodeID ps token' (ct_s ?st)" using ps e by simp
    from Cons.IH [OF this n(2)] obtain w where
      "resyncPages c nodeID m token' ?st = (fold (resyncRow c) (concat (map fst ps)) ?st)\<lparr>ct_s := w\<rparr>" by blast
    then show ?thesis using False ps by (simp add: n p l e resyncRows_s) blast
  qed
qed simp

context control_loop
begin

lemma resyncRow_grows:
  assumes "\<not> shut (ct_queue st)"
  shows "\<not> shut (ct_queue (resyncRow c sb st)) \<and> pending (ct_queue st) \<subseteq> pending (ct_queue (resyncRow c sb st))
    \<and> (\<forall>i t. ct_indexer st i = Some t \<longrightarrow> (\<exists>t'. ct_indexer (resyncRow c sb st) i = Some t' \<and> GetVersion t \<le> GetVersion t'))"
proof -
  obtain j ok where j: "indexer_Put (ct_indexer st) sb = (j, ok)" by fastforce
  then show ?thesis
    by (cases rule: indexer_Put_cases; cases "sb_Intent sb") (use assms j in \<open>auto simp: resyncRow_def laws\<close>)
qed

lemma resyncRows_grow:
  "\<not> shut (ct_queue st) \<Longrightarrow> \<not> shut (ct_queue (fold (resyncRow c) rows st))
    \<and> pending (ct_queue st) \<subseteq> pending (ct_queue (fold (resyncRow c) rows st))
    \<and> (\<forall>i t. ct_indexer st i = Some t \<longrightarrow>
        (\<exists>t'. ct_indexer (fold (resyncRow c) rows st) i = Some t' \<and> GetVersion t \<le> GetVersion t'))"
proof (induction rows arbitrary: st)
  case (Cons sb rows)
  from resyncRow_grows [OF Cons.prems, of sb] Cons.IH [of "resyncRow c sb st"] show ?case
    by (auto dest: order_trans) (meson order_trans)
qed auto

lemma resyncRow_takes:
  assumes "\<not> shut (ct_queue st)" "sb_Intent sb \<noteq> None" "GetId sb \<noteq> []"
  shows "(\<exists>t. ct_indexer (resyncRow c sb st) (GetId sb) = Some t \<and> GetVersion sb \<le> GetVersion t)
    \<and> (GetId sb \<in> pending (ct_queue (resyncRow c sb st))
       \<or> (\<exists>t. ct_indexer st (GetId sb) = Some t \<and> GetVersion sb < GetVersion t))"
  using assms by (auto simp: resyncRow_def indexer_Put_def Let_def laws split: option.split)

lemma resyncRow_origin:
  assumes "\<not> shut (ct_queue st)" "ct_indexer (resyncRow c sb st) i = Some t"
  shows "i \<in> pending (ct_queue (resyncRow c sb st)) \<or> ct_indexer st i = Some t"
  using assms by (auto simp: resyncRow_def indexer_Put_def Let_def laws split: option.splits if_splits)

lemma resyncRows_origin:
  "\<lbrakk> \<not> shut (ct_queue st); ct_indexer (fold (resyncRow c) rows st) i = Some t \<rbrakk>
    \<Longrightarrow> i \<in> pending (ct_queue (fold (resyncRow c) rows st)) \<or> ct_indexer st i = Some t"
proof (induction rows arbitrary: st)
  case (Cons sb rows)
  let ?st = "resyncRow c sb st"
  have d: "\<not> shut (ct_queue ?st)" using resyncRow_grows [OF Cons.prems(1)] by blast
  have "i \<in> pending (ct_queue (fold (resyncRow c) rows ?st)) \<or> ct_indexer ?st i = Some t"
    using Cons.IH [OF d] Cons.prems(2) by simp
  then show ?case
    using resyncRow_origin [OF Cons.prems(1), of sb i t] resyncRows_grow [OF d, of rows] by auto
qed simp

lemma resyncRows_take:
  assumes d: "\<not> shut (ct_queue st)" and sb: "sb \<in> set rows" "sb_Intent sb \<noteq> None" "GetId sb \<noteq> []"
  shows "(\<exists>t. ct_indexer (fold (resyncRow c) rows st) (GetId sb) = Some t \<and> GetVersion sb \<le> GetVersion t)
    \<and> (GetId sb \<in> pending (ct_queue (fold (resyncRow c) rows st))
       \<or> (\<exists>t. ct_indexer st (GetId sb) = Some t \<and> GetVersion sb < GetVersion t))"
proof -
  from split_list [OF sb(1)] obtain xs ys where rows: "rows = xs @ sb # ys" by blast
  let ?a = "fold (resyncRow c) xs st" let ?b = "resyncRow c sb ?a"
  have a: "\<not> shut (ct_queue ?a)" using resyncRows_grow [OF d] by blast
  have b: "\<not> shut (ct_queue ?b)" using resyncRow_grows [OF a] by blast
  have e: "fold (resyncRow c) rows st = fold (resyncRow c) ys ?b" by (simp add: rows)
  have "GetId sb \<in> pending (ct_queue ?b) \<or> (\<exists>t. ct_indexer st (GetId sb) = Some t \<and> GetVersion sb < GetVersion t)"
    using resyncRow_takes [OF a sb(2,3)] resyncRows_origin [OF d, of xs "GetId sb"] resyncRow_grows [OF a, of sb] by blast
  then show ?thesis
    using resyncRow_takes [OF a sb(2,3)] resyncRows_grow [OF b, of ys] unfolding e by (meson order_trans subsetD)
qed

end

text \<open>C19: the resync recovers missed events. When the listing hands out the sandboxes of the node in at most
  a hundred pages, then after a pass every listed sandbox with an intent is indexed at its version or a later
  one, and its id is queued, unless a later version was indexed before; and the pass takes nothing out
  of the indexer or the queue.\<close>

theorem resync_recovers:
  assumes L: "control_loop c pending processing requeues shut" and d: "\<not> shut (ct_queue st)"
    and ps: "paged c nodeID ps [] (ct_s st)" "length ps \<le> 100"
    and sb: "sb \<in> set (concat (map fst ps))" "sb_Intent sb \<noteq> None" "GetId sb \<noteq> []"
  shows "let st' = resync c nodeID st in
    (\<exists>t. ct_indexer st' (GetId sb) = Some t \<and> GetVersion sb \<le> GetVersion t)
    \<and> (GetId sb \<in> pending (ct_queue st') \<or> (\<exists>t. ct_indexer st (GetId sb) = Some t \<and> GetVersion sb < GetVersion t))
    \<and> pending (ct_queue st) \<subseteq> pending (ct_queue st') \<and> dom (ct_indexer st) \<subseteq> dom (ct_indexer st')"
proof -
  have "length ps \<le> resyncMaxPages" using ps(2) by (simp add: resyncMaxPages_def)
  from resyncPages_rows [OF ps(1) this] obtain w where
    w: "resync c nodeID st = (fold (resyncRow c) (concat (map fst ps)) st)\<lparr>ct_s := w\<rparr>" by (auto simp: resync_def)
  from control_loop.resyncRows_take [OF L d sb] control_loop.resyncRows_grow [OF L d, of "concat (map fst ps)"]
  show ?thesis unfolding w Let_def dom_def subset_iff by simp blast
qed

theorem resync_recovers_witness:
  "''vm1'' \<in> set (mq_pending (ct_queue (resync (mem_controller\<lparr>co_List := \<lambda>s req.
     (s, Inr (if lq_ContinuationToken req = [] then ([], ''p2'') else ([wit_sb], [])))\<rparr>) ''node-1'' wit_sys)))"
proof -
  let ?c = "mem_controller\<lparr>co_List := \<lambda>s req. (s, Inr (if lq_ContinuationToken req = [] then ([], ''p2'') else ([wit_sb], [])))\<rparr>"
  have L: "control_loop ?c (\<lambda>q. set (mq_pending q)) (\<lambda>q. set (mq_processing q)) mq_requeues (\<lambda>_. False)"
    using mcl.control_loop_axioms by (simp add: control_loop_def control_loop_axioms_def)
  have sb: "sb_Intent wit_sb \<noteq> None" "GetId wit_sb = ''vm1''" by (simp_all add: wit_sb_def GetId_def)
  from resync_recovers [OF L, where st = wit_sys and nodeID = "''node-1''" and ps = "[([], ''p2''), ([wit_sb], [])]"
      and sb = wit_sb] sb show ?thesis
    by (simp add: Let_def) (simp add: wit_sys_def newIndexer_def)
qed

section \<open>The read loop\<close>

text \<open>A stream that delivers some responses and then ends.\<close>

fun delivers :: "('q, 's) Controller \<Rightarrow> nat \<Rightarrow> Response list \<Rightarrow> 's \<Rightarrow> 's \<Rightarrow> bool" where
  "delivers c stream [] s s' = (case co_Recv c s stream of (t, r) \<Rightarrow> \<not> isOk r \<and> t = s')"
| "delivers c stream (m # ms) s s' = (case co_Recv c s stream of (t, r) \<Rightarrow> r = Inr m \<and> delivers c stream ms t s')"

lemma onResponse_s: "onResponse c (st\<lparr>ct_s := w\<rparr>) m = (onResponse c st m)\<lparr>ct_s := w\<rparr>" "ct_s (onResponse c st m) = ct_s st"
  by (auto simp: onResponse_def dispatch_def split: Response.split option.split prod.split bool.split)

lemma onResponses_s: "foldl (onResponse c) (st\<lparr>ct_s := w\<rparr>) ms = (foldl (onResponse c) st ms)\<lparr>ct_s := w\<rparr>"
  by (induction ms arbitrary: st) (simp_all add: onResponse_s)

text \<open>The read loop returns when the stream ends, and by then has dispatched every event of the stream, in
  the order of arrival, and nothing else.\<close>

theorem readLoop_delivers:
  assumes "delivers c stream ms (ct_s st) s'"
  shows "readLoop c stream st = Some ((foldl (onResponse c) st ms)\<lparr>ct_s := s'\<rparr>)"
  using assms
proof (induction ms arbitrary: st)
  case Nil
  then show ?case by (subst readLoop.simps) (auto simp: Let_def split: prod.splits)
next
  case (Cons m ms)
  obtain t where t: "co_Recv c (ct_s st) stream = (t, Inr m)" "delivers c stream ms t s'"
    using Cons.prems by (auto split: prod.splits)
  let ?st = "onResponse c (st\<lparr>ct_s := t\<rparr>) m"
  have "delivers c stream ms (ct_s ?st) s'" using t(2) by (simp add: onResponse_s)
  from Cons.IH [OF this] show ?case
    by (subst readLoop.simps) (simp add: Let_def t(1) onResponse_s onResponses_s)
qed

theorem readLoop_delivers_witness:
  "\<exists>st. readLoop (mem_controller\<lparr>co_Recv := \<lambda>s h. if rc_vms s = [] then (s, Inl (New ''EOF''))
         else (s\<lparr>rc_vms := []\<rparr>, Inr (Resp_Event \<lparr> ev_Id = ''1'', ev_EmittedAt = None, ev_Sandbox = Some wit_sb \<rparr>))\<rparr>) 1
       (cst.truncate wit_sys) = Some st
     \<and> ct_indexer st ''vm1'' = Some wit_sb"
proof -
  let ?e = "\<lparr> ev_Id = ''1'', ev_EmittedAt = None, ev_Sandbox = Some wit_sb \<rparr>"
  let ?c = "mem_controller\<lparr>co_Recv := \<lambda>s h. if rc_vms s = [] then (s, Inl (New ''EOF''))
         else (s\<lparr>rc_vms := []\<rparr>, Inr (Resp_Event ?e))\<rparr>"
  have "delivers ?c 1 [Resp_Event ?e] (ct_s (cst.truncate wit_sys)) (wit_rcs\<lparr>rc_vms := []\<rparr>)"
    by (simp add: wit_sys_def cst.defs wit_rcs_def)
  note r = readLoop_delivers [OF this]
  have "GetId wit_sb = ''vm1''" by (simp add: GetId_def wit_sb_def)
  then have "ct_indexer (foldl (onResponse ?c) (cst.truncate wit_sys) [Resp_Event ?e]) ''vm1'' = Some wit_sb"
    by (simp add: onResponse_def dispatch_def indexer_Put_def Let_def wit_sys_def cst.defs newIndexer_def)
  with r show ?thesis by simp
qed

end
