(* ===== verification/Agent_Transport.thy ===== *)
theory Agent_Transport
  imports Prelude "HOL-Library.Sublist"
begin

text \<open>
  The byte channel between the daemon and the agent of a VM: the messages of the data plane, the
  length-prefixed frames (agent/internal/framing), the CONNECT handshake, and the host's transport
  (agent/transport), which hands each response to the conversation that owns its id. The protobuf
  encoding is a parameter (\<open>codec\<close>), as is the connection written to. The goroutines that share a
  transport, its reader, its conversations and whoever closes it, are steps of the relation \<open>tstep\<close>,
  one per critical section or channel operation.
\<close>

section \<open>Messages\<close>

datatype StreamType = STREAM_TYPE_UNSPECIFIED | STREAM_TYPE_STDOUT | STREAM_TYPE_STDERR

record StreamChunk =
  sc_Pid :: int
  sc_Stream :: StreamType
  sc_Data :: "byte list"
  sc_Eof :: bool

datatype ExecResponse = Exec_unset | Exec_ProcessResult int | Exec_StreamChunk StreamChunk

datatype ResponsePayload =
    AResp_unset
  | AResp_Error code string
  | AResp_Exec ExecResponse
  | AResp_UploadFile
  | AResp_DownloadFile "byte list"

record AgentResponse =
  ar_Id :: "64 word"
  ar_Payload :: ResponsePayload

record ExecProcess =
  xp_Command :: string
  xp_Args :: "string list"
  xp_Env :: "(string \<times> string) list"
  xp_Cwd :: string
  xp_Tty :: bool

record StdinChunk =
  sd_Data :: "byte list"
  sd_Eof :: bool

record ResizePTY =
  rz_Cols :: "32 word"
  rz_Rows :: "32 word"

datatype ExecRequest = Xreq_unset | Xreq_ExecProcess ExecProcess | Xreq_Stdin StdinChunk | Xreq_Resize ResizePTY

datatype RequestPayload =
    AReq_unset
  | AReq_Exec ExecRequest
  | AReq_Cancel
  | AReq_Stdin StdinChunk
  | AReq_Resize ResizePTY
  | AReq_UploadFile "byte list" string
  | AReq_DownloadFile string

record AgentRequest =
  aq_Id :: "64 word"
  aq_Payload :: RequestPayload

section \<open>framing.go\<close>

definition MaxMessageSize :: nat where
  "MaxMessageSize = 4 * 1024 * 1024"

definition ErrMessageTooLarge :: goerr where
  "ErrMessageTooLarge = New ''framing: message exceeds MaxMessageSize''"

definition errTooLarge :: "nat \<Rightarrow> goerr" where
  "errTooLarge n = Wrap [] ErrMessageTooLarge ('': '' @ dec_nat n @ '' bytes'')"

record 'm codec =
  Marshal :: "'m \<Rightarrow> byte list result"
  Unmarshal :: "byte list \<Rightarrow> 'm result"

definition frame_Write :: "'m codec \<Rightarrow> ('w \<Rightarrow> byte list \<Rightarrow> 'w \<times> unit result) \<Rightarrow> 'w \<Rightarrow> 'm \<Rightarrow> 'w \<times> unit result" where
  "frame_Write C put w msg =
    (case Marshal C msg of
       Inl err \<Rightarrow> (w, Inl (wrapf ''framing: marshal'' err))
     | Inr data \<Rightarrow>
       if length data > MaxMessageSize then (w, Inl (errTooLarge (length data)))
       else bindr (onErr (wrapf ''framing: write length'') (put w (PutUint32 (of_nat (length data))))) (\<lambda>w _.
         onErr (wrapf ''framing: write body'') (put w data)))"

definition io_EOF :: goerr where
  "io_EOF = New ''EOF''"

definition io_ErrUnexpectedEOF :: goerr where
  "io_ErrUnexpectedEOF = New ''unexpected EOF''"

text \<open>A reader: the bytes it will deliver, and the error it reports after them. \<open>io.ReadFull\<close> turns the end
  of the stream in the middle of what was asked for into its own error.\<close>

record reader =
  rd_bytes :: "byte list"
  rd_end :: goerr

definition ReadFull :: "reader \<Rightarrow> nat \<Rightarrow> reader \<times> byte list result" where
  "ReadFull r n =
    (if n \<le> length (rd_bytes r)
     then (r\<lparr>rd_bytes := drop n (rd_bytes r)\<rparr>, Inr (take n (rd_bytes r)))
     else (r\<lparr>rd_bytes := []\<rparr>, Inl (if rd_bytes r \<noteq> [] \<and> rd_end r = io_EOF then io_ErrUnexpectedEOF else rd_end r)))"

definition frame_Read :: "'m codec \<Rightarrow> reader \<Rightarrow> reader \<times> 'm result" where
  "frame_Read C r =
    bindr (onErr (\<lambda>err. if errors_Is err io_EOF then err else wrapf ''framing: read length'' err) (ReadFull r 4)) (\<lambda>r b.
      let size = unat (Uint32 b) in
      if size > MaxMessageSize then (r, Inl (errTooLarge size))
      else bindr (onErr (wrapf ''framing: read body'') (ReadFull r size)) (\<lambda>r buf.
        onErr (wrapf ''framing: unmarshal'') (r, Unmarshal C buf)))"

section \<open>vsock.go: the handshake\<close>

definition maxHandshakeLine :: nat where
  "maxHandshakeLine = 32"

text \<open>The loop over the bytes of the line, with what was read so far.\<close>

function readLine :: "string \<Rightarrow> reader \<Rightarrow> reader \<times> string result" where
  "readLine buf r =
    (case rd_bytes r of
       [] \<Rightarrow> (r, Inl (wrapf ''transport: read OK'' (rd_end r)))
     | b # bs \<Rightarrow>
       if b = 10 then (r\<lparr>rd_bytes := bs\<rparr>, Inr buf)
       else if length buf + 1 \<ge> maxHandshakeLine
       then (r\<lparr>rd_bytes := bs\<rparr>, Inl (New (''transport: handshake reply exceeds '' @ dec_nat maxHandshakeLine @ '' bytes'')))
       else readLine (buf @ [char_of (unat b)]) (r\<lparr>rd_bytes := bs\<rparr>))"
  by pat_completeness auto
termination by (relation "measure (\<lambda>(buf, r). length (rd_bytes r))") auto

declare readLine.simps [simp del]

definition readHandshakeLine :: "reader \<Rightarrow> reader \<times> string result" where
  "readHandshakeLine r = readLine [] r"

text \<open>\<open>^OK \d+$\<close>\<close>

definition okResponsePattern :: "string \<Rightarrow> bool" where
  "okResponsePattern line = (HasPrefix line ''OK '' \<and> length line > 3 \<and> list_all is_digit (drop 3 line))"

text \<open>\<open>put\<close> writes to the connection; the reply is what the connection delivers. Setting the deadline can fail.\<close>

definition handshake ::
  "('w \<Rightarrow> unit result) \<Rightarrow> ('w \<Rightarrow> string \<Rightarrow> 'w \<times> unit result) \<Rightarrow> ('w \<Rightarrow> reader) \<Rightarrow> 'w \<Rightarrow> 32 word \<Rightarrow> 'w \<times> reader result" where
  "handshake deadline put recv w guestPort =
    (case deadline w of
       Inl err \<Rightarrow> (w, Inl (wrapf ''transport: set handshake deadline'' err))
     | Inr _ \<Rightarrow>
       bindr (onErr (wrapf ''transport: write CONNECT'')
           (put w (''CONNECT '' @ dec_nat (unat guestPort) @ [CHR 10]))) (\<lambda>w _.
         (w, case readHandshakeLine (recv w) of
            (_, Inl err) \<Rightarrow> Inl err
          | (r, Inr line) \<Rightarrow>
            if \<not> okResponsePattern line then Inl (New (''transport: unexpected handshake reply '' @ quote line))
            else Inr r)))"

text \<open>\<open>New\<close>: dial, shake hands, and close the connection when that fails.\<close>

definition transport_New ::
  "('w \<Rightarrow> string \<Rightarrow> 'w \<times> unit result) \<Rightarrow> ('w \<Rightarrow> 'w) \<Rightarrow> ('w \<Rightarrow> unit result) \<Rightarrow> ('w \<Rightarrow> string \<Rightarrow> 'w \<times> unit result)
    \<Rightarrow> ('w \<Rightarrow> reader) \<Rightarrow> 'w \<Rightarrow> string \<Rightarrow> 32 word \<Rightarrow> 'w \<times> reader result" where
  "transport_New dial hangup deadline put recv w udsPath guestPort =
    bindr (onErr (wrapf (''transport: dial '' @ quote udsPath)) (dial w udsPath)) (\<lambda>w _.
      case handshake deadline put recv w guestPort of
        (w1, Inl err) \<Rightarrow> (hangup w1, Inl err)
      | (w1, Inr br) \<Rightarrow> (w1, Inr br))"

section \<open>vsock.go: sending\<close>

text \<open>\<open>ctxErr\<close> is \<open>ctx.Err\<close>, asked before and after the lock is taken and once more when the write failed.\<close>

definition sendFrame ::
  "AgentRequest codec \<Rightarrow> ('w \<Rightarrow> goerr option) \<Rightarrow> ('w \<Rightarrow> 'w) \<Rightarrow> ('w \<Rightarrow> unit result) \<Rightarrow> ('w \<Rightarrow> byte list \<Rightarrow> 'w \<times> unit result)
    \<Rightarrow> AgentRequest \<Rightarrow> 'w \<Rightarrow> 'w \<times> unit result" where
  "sendFrame C ctxErr lock deadline put req w =
    (case ctxErr w of Some err \<Rightarrow> (w, Inl err) | None \<Rightarrow>
     let w = lock w in
     case ctxErr w of Some err \<Rightarrow> (w, Inl err) | None \<Rightarrow>
    (case deadline w of
       Inl err \<Rightarrow> (w, Inl (wrapf ''transport: set write deadline'' err))
     | Inr _ \<Rightarrow>
    (case frame_Write C put w req of
       (w1, Inl err) \<Rightarrow> (w1, Inl (case ctxErr w1 of Some e \<Rightarrow> e | None \<Rightarrow> wrapf ''transport: send'' err))
     | (w1, Inr _) \<Rightarrow> (w1, Inr ()))))"

definition conversation_Send ::
  "AgentRequest codec \<Rightarrow> ('w \<Rightarrow> goerr option) \<Rightarrow> ('w \<Rightarrow> 'w) \<Rightarrow> ('w \<Rightarrow> unit result) \<Rightarrow> ('w \<Rightarrow> byte list \<Rightarrow> 'w \<times> unit result)
    \<Rightarrow> 64 word \<Rightarrow> AgentRequest \<Rightarrow> 'w \<Rightarrow> 'w \<times> unit result" where
  "conversation_Send C ctxErr lock deadline put i req w = sendFrame C ctxErr lock deadline put (req\<lparr>aq_Id := i\<rparr>) w"

section \<open>vsock.go: conversations\<close>

definition conversationBuffer :: nat where
  "conversationBuffer = 16"

text \<open>A conversation: its buffered channel, whether the channel is closed, and where its \<open>shutdown\<close> is: not
  begun, deregistered, or done. What its owner has received is recorded.\<close>

datatype shutdown_at = SOpen | SRemoved | SDone

record conversation =
  cv_responses :: "AgentResponse list"
  cv_closed :: bool
  cv_shutdown :: shutdown_at
  cv_got :: "AgentResponse list"

text \<open>Where the reader is: reading, sending to a conversation it has looked up, or ended.\<close>

datatype reader_at = RRead | RSend "64 word" AgentResponse | RStop

record transport =
  tp_closed :: bool
  tp_swept :: bool
  tp_err :: "goerr option"
  tp_nextID :: "64 word"
  tp_registered :: "64 word set"
  tp_convs :: "64 word \<rightharpoonup> conversation"
  tp_reader :: reader_at
  tp_frames :: "AgentResponse list"
  tp_panicked :: bool

definition newTransport :: transport where
  "newTransport = \<lparr> tp_closed = False, tp_swept = False, tp_err = None, tp_nextID = 0, tp_registered = {},
     tp_convs = Map.empty, tp_reader = RRead, tp_frames = [], tp_panicked = False \<rparr>"

definition newConversation :: conversation where
  "newConversation = \<lparr> cv_responses = [], cv_closed = False, cv_shutdown = SOpen, cv_got = [] \<rparr>"

text \<open>On a transport that has shut down the new conversation is not registered and its channel is closed at once.\<close>

definition OpenConversation :: "transport \<Rightarrow> transport \<times> 64 word" where
  "OpenConversation t =
    (let i = tp_nextID t + 1 in
     if tp_closed t
     then (t\<lparr>tp_nextID := i, tp_convs := (tp_convs t)(i \<mapsto> newConversation\<lparr>cv_closed := True\<rparr>)\<rparr>, i)
     else (t\<lparr>tp_nextID := i, tp_convs := (tp_convs t)(i \<mapsto> newConversation), tp_registered := insert i (tp_registered t)\<rparr>, i))"

definition setErr :: "goerr \<Rightarrow> goerr \<Rightarrow> transport \<Rightarrow> transport" where
  "setErr ErrClosed err t =
    (if tp_err t = None \<and> \<not> errors_Is err ErrClosed then t\<lparr>tp_err := Some err\<rparr> else t)"

definition removeConversation :: "64 word \<Rightarrow> transport \<Rightarrow> transport" where
  "removeConversation i t = t\<lparr>tp_registered := tp_registered t - {i}\<rparr>"

text \<open>The lookup of \<open>dispatch\<close>, under the lock.\<close>

definition dispatchLookup :: "AgentResponse \<Rightarrow> transport \<Rightarrow> transport" where
  "dispatchLookup resp t =
    t\<lparr>tp_frames := tp_frames t @ [resp],
      tp_reader := if ar_Id resp \<in> tp_registered t then RSend (ar_Id resp) resp else RRead\<rparr>"

definition upd_conv :: "64 word \<Rightarrow> (conversation \<Rightarrow> conversation) \<Rightarrow> transport \<Rightarrow> transport" where
  "upd_conv i f t = t\<lparr>tp_convs := (tp_convs t)(i := map_option f (tp_convs t i))\<rparr>"

text \<open>The steps, as long as nothing has panicked. \<open>ErrClosed\<close> is \<open>net.ErrClosed\<close>. A send on a closed channel
  panics, also as a case of a \<open>select\<close>, and so does closing a closed channel; a \<open>select\<close> with several
  cases ready takes any of them. \<open>shutdown\<close> runs once per conversation, called by its owner or by the
  sweep of a closing transport.\<close>

inductive tstep :: "goerr \<Rightarrow> transport \<Rightarrow> transport \<Rightarrow> bool" for ErrClosed where
  open_conv: "\<not> tp_panicked t \<Longrightarrow> tstep ErrClosed t (fst (OpenConversation t))"
| shut_remove: "\<lbrakk> \<not> tp_panicked t; tp_convs t i = Some c; cv_shutdown c = SOpen \<rbrakk> \<Longrightarrow>
    tstep ErrClosed t (upd_conv i (\<lambda>c. c\<lparr>cv_shutdown := SRemoved\<rparr>) (removeConversation i t))"
| shut_close: "\<lbrakk> \<not> tp_panicked t; tp_convs t i = Some c; cv_shutdown c = SRemoved; \<not> cv_closed c \<rbrakk> \<Longrightarrow>
    tstep ErrClosed t (upd_conv i (\<lambda>c. c\<lparr>cv_shutdown := SDone, cv_closed := True\<rparr>) t)"
| shut_twice: "\<lbrakk> \<not> tp_panicked t; tp_convs t i = Some c; cv_shutdown c = SRemoved; cv_closed c \<rbrakk> \<Longrightarrow>
    tstep ErrClosed t (t\<lparr>tp_panicked := True\<rparr>)"
| recv: "\<lbrakk> \<not> tp_panicked t; tp_convs t i = Some c; cv_responses c = m # ms \<rbrakk> \<Longrightarrow>
    tstep ErrClosed t (upd_conv i (\<lambda>c. c\<lparr>cv_responses := ms, cv_got := cv_got c @ [m]\<rparr>) t)"
| frame: "\<lbrakk> \<not> tp_panicked t; tp_reader t = RRead \<rbrakk> \<Longrightarrow> tstep ErrClosed t (dispatchLookup resp t)"
| deliver: "\<lbrakk> \<not> tp_panicked t; tp_reader t = RSend i resp; tp_convs t i = Some c; \<not> cv_closed c;
      length (cv_responses c) < conversationBuffer \<rbrakk> \<Longrightarrow>
    tstep ErrClosed t ((upd_conv i (\<lambda>c. c\<lparr>cv_responses := cv_responses c @ [resp]\<rparr>) t)\<lparr>tp_reader := RRead\<rparr>)"
| deliver_closed: "\<lbrakk> \<not> tp_panicked t; tp_reader t = RSend i resp; tp_convs t i = Some c; cv_closed c \<rbrakk> \<Longrightarrow>
    tstep ErrClosed t (t\<lparr>tp_panicked := True\<rparr>)"
| drop_frame: "\<lbrakk> \<not> tp_panicked t; tp_reader t = RSend i resp; tp_closed t \<rbrakk> \<Longrightarrow> tstep ErrClosed t (t\<lparr>tp_reader := RRead\<rparr>)"
| read_error: "\<lbrakk> \<not> tp_panicked t; tp_reader t = RRead \<rbrakk> \<Longrightarrow>
    tstep ErrClosed t ((if tp_closed t then t else setErr ErrClosed err t)\<lparr>tp_closed := True, tp_reader := RStop\<rparr>)"
| close: "\<not> tp_panicked t \<Longrightarrow> tstep ErrClosed t (t\<lparr>tp_closed := True\<rparr>)"
| sweep: "\<lbrakk> \<not> tp_panicked t; tp_closed t; \<not> tp_swept t \<rbrakk> \<Longrightarrow>
    tstep ErrClosed t (t\<lparr>tp_registered := {}, tp_swept := True\<rparr>)"

section \<open>Frames\<close>

text \<open>The bytes of a frame, and what the protobuf encoding is relied on for.\<close>

definition frame_bytes :: "byte list \<Rightarrow> byte list" where
  "frame_bytes data = PutUint32 (of_nat (length data)) @ data"

locale codec_laws =
  fixes C :: "'m codec"
  assumes decode: "Marshal C m = Inr data \<Longrightarrow> Unmarshal C data = Inr m"
begin

lemma Read_frame:
  assumes "Marshal C m = Inr data" "length data \<le> MaxMessageSize"
  shows "frame_Read C \<lparr> rd_bytes = frame_bytes data @ rest, rd_end = e \<rparr> = (\<lparr> rd_bytes = rest, rd_end = e \<rparr>, Inr m)"
proof -
  have u: "unat (of_nat (length data) :: 32 word) = length data"
    using assms(2) by (simp add: unat_of_nat take_bit_nat_eq_self MaxMessageSize_def)
  show ?thesis
    using assms(2)
    by (simp add: frame_Read_def ReadFull_def frame_bytes_def u Let_def decode [OF assms(1)])
qed

end

lemma Write_frame:
  assumes "\<And>w bs. put w bs = (w @ bs, Inr ())"
  shows "frame_Write C put w m = (case Marshal C m of
      Inl err \<Rightarrow> (w, Inl (wrapf ''framing: marshal'' err))
    | Inr data \<Rightarrow> if length data > MaxMessageSize then (w, Inl (errTooLarge (length data)))
        else (w @ frame_bytes data, Inr ()))"
  by (simp add: frame_Write_def assms frame_bytes_def split: sum.split)

text \<open>A sender writing one message after the other, going on after an error, and a reader reading until one.\<close>

definition writeAll :: "'m codec \<Rightarrow> 'm list \<Rightarrow> byte list" where
  "writeAll C ms = fold (\<lambda>m w. fst (frame_Write C (\<lambda>w bs. (w @ bs, Inr ())) w m)) ms []"

fun readAll :: "'m codec \<Rightarrow> nat \<Rightarrow> reader \<Rightarrow> 'm list \<times> goerr option" where
  "readAll C 0 r = ([], None)"
| "readAll C (Suc n) r =
    (case frame_Read C r of (r', Inl e) \<Rightarrow> ([], Some e) | (r', Inr m) \<Rightarrow> apfst ((#) m) (readAll C n r'))"

definition encodable :: "'m codec \<Rightarrow> 'm \<Rightarrow> bool" where
  "encodable C m = (case Marshal C m of Inr data \<Rightarrow> length data \<le> MaxMessageSize | Inl _ \<Rightarrow> False)"

lemma writeAll_eq:
  "writeAll C ms = concat (map (\<lambda>m. frame_bytes (projr (Marshal C m))) (filter (encodable C) ms))"
proof -
  have "fold (\<lambda>m w. fst (frame_Write C (\<lambda>w bs. (w @ bs, Inr ())) w m)) ms w
      = w @ concat (map (\<lambda>m. frame_bytes (projr (Marshal C m))) (filter (encodable C) ms))" for w
    by (induction ms arbitrary: w) (auto simp: Write_frame encodable_def split: sum.split)
  then show ?thesis by (simp add: writeAll_def)
qed

text \<open>C24: frames keep messages apart. Whatever sequence of messages is written to a stream, a reader of that
  stream gets exactly those whose encoding fits the size limit, in the order they were written, and then
  the end of the stream as it is; a message that cannot be encoded or is too large leaves no byte behind.\<close>

theorem framing_roundtrip:
  assumes "codec_laws C" and "length (filter (encodable C) ms) < n"
  shows "readAll C n \<lparr> rd_bytes = writeAll C ms, rd_end = io_EOF \<rparr> = (filter (encodable C) ms, Some io_EOF)"
proof -
  have "readAll C n \<lparr> rd_bytes = concat (map (\<lambda>m. frame_bytes (projr (Marshal C m))) xs), rd_end = io_EOF \<rparr> = (xs, Some io_EOF)"
    if "list_all (encodable C) xs" "length xs < n" for xs
    using that
  proof (induction xs arbitrary: n)
    case Nil
    then obtain k where "n = Suc k" by (cases n) auto
    then show ?case by (simp add: frame_Read_def ReadFull_def)
  next
    case (Cons m xs)
    then obtain k where k: "n = Suc k" "length xs < k" by (cases n) auto
    obtain data where d: "Marshal C m = Inr data" "length data \<le> MaxMessageSize"
      using Cons.prems(1) by (auto simp: encodable_def split: sum.splits)
    show ?case
      using Cons.IH [OF _ k(2)] Cons.prems(1) by (simp add: k(1) d(1) codec_laws.Read_frame [OF assms(1) d])
  qed
  from this [OF _ assms(2)] show ?thesis by (simp add: writeAll_eq list_all_iff)
qed

definition byte_codec :: "byte list codec" where
  "byte_codec = \<lparr> Marshal = Inr, Unmarshal = Inr \<rparr>"

interpretation bc: codec_laws byte_codec
  by unfold_locales (simp add: byte_codec_def)

theorem framing_roundtrip_witness:
  "readAll byte_codec 3 \<lparr> rd_bytes = writeAll byte_codec [[1, 2, 3], []], rd_end = io_EOF \<rparr> = ([[1, 2, 3], []], Some io_EOF)"
  using framing_roundtrip [OF bc.codec_laws_axioms, of "[[1, 2, 3], []]" 3]
  by (simp add: encodable_def byte_codec_def MaxMessageSize_def)

section \<open>Conversations\<close>

text \<open>What the transport keeps: a response that is buffered or received belongs to its conversation, in the
  order of the frames, and a buffer is never longer than its capacity. \<open>sent\<close> leaves out the frame the
  reader still holds.\<close>

definition sent :: "transport \<Rightarrow> AgentResponse list" where
  "sent t = (case tp_reader t of RSend i r \<Rightarrow> butlast (tp_frames t) | _ \<Rightarrow> tp_frames t)"

definition of_conv :: "64 word \<Rightarrow> AgentResponse list \<Rightarrow> AgentResponse list" where
  "of_conv i rs = filter (\<lambda>r. ar_Id r = i) rs"

definition routed :: "transport \<Rightarrow> bool" where
  "routed t \<longleftrightarrow>
     (\<forall>i c. tp_convs t i = Some c \<longrightarrow> subseq (cv_got c @ cv_responses c) (of_conv i (sent t))
        \<and> length (cv_responses c) \<le> conversationBuffer)
     \<and> (\<forall>i r. tp_reader t = RSend i r \<longrightarrow> ar_Id r = i \<and> tp_frames t \<noteq> [] \<and> last (tp_frames t) = r)"

lemma routed_same:
  assumes "routed t" "tp_reader t' = tp_reader t" "tp_frames t' = tp_frames t"
    and "\<And>i c'. tp_convs t' i = Some c' \<Longrightarrow> cv_got c' @ cv_responses c' = [] \<or>
      (\<exists>c. tp_convs t i = Some c \<and> cv_got c' @ cv_responses c' = cv_got c @ cv_responses c
         \<and> length (cv_responses c') \<le> length (cv_responses c))"
  shows "routed t'"
proof -
  have s: "sent t' = sent t" using assms(2,3) by (cases "tp_reader t") (simp_all add: sent_def)
  have "subseq (cv_got c' @ cv_responses c') (of_conv i (sent t)) \<and> length (cv_responses c') \<le> conversationBuffer"
    if "tp_convs t' i = Some c'" for i c'
    using assms(4) [OF that]
  proof (elim disjE exE conjE)
    fix c
    assume "tp_convs t i = Some c" and c: "cv_got c' @ cv_responses c' = cv_got c @ cv_responses c"
      "length (cv_responses c') \<le> length (cv_responses c)"
    then have "subseq (cv_got c @ cv_responses c) (of_conv i (sent t))" "length (cv_responses c) \<le> conversationBuffer"
      using assms(1) unfolding routed_def by blast+
    then show ?thesis using c by simp
  qed simp
  then show ?thesis using assms(1-3) s unfolding routed_def by simp
qed

lemma of_conv_snoc: "of_conv i (rs @ [r]) = (if ar_Id r = i then of_conv i rs @ [r] else of_conv i rs)"
  by (simp add: of_conv_def)

lemma routed_more:
  assumes "routed t" "tp_convs t' = tp_convs t" "prefix (sent t) (sent t')"
    and "\<And>i r. tp_reader t' = RSend i r \<Longrightarrow> ar_Id r = i \<and> tp_frames t' \<noteq> [] \<and> last (tp_frames t') = r"
  shows "routed t'"
proof -
  have "subseq (of_conv i (sent t)) (of_conv i (sent t'))" for i
    using assms(3) by (auto simp: of_conv_def prefix_def)
  then show ?thesis using assms(1,2,4) unfolding routed_def by (metis subseq_order.order_trans)
qed

lemma tstep_routed:
  assumes "tstep E t t'" "routed t"
  shows "routed t'"
  using assms(1)
proof (cases rule: tstep.cases)
  case open_conv
  then show ?thesis
    by (intro routed_same [OF assms(2)])
      (auto simp: OpenConversation_def Let_def newConversation_def split: if_splits)
next
  case (shut_remove i c)
  then show ?thesis
    by (intro routed_same [OF assms(2)]) (auto simp: upd_conv_def removeConversation_def split: if_splits)
next
  case (shut_close i c)
  then show ?thesis by (intro routed_same [OF assms(2)]) (auto simp: upd_conv_def split: if_splits)
next
  case (recv i c m ms)
  then show ?thesis by (intro routed_same [OF assms(2)]) (auto simp: upd_conv_def split: if_splits)
next
  case (frame resp)
  then show ?thesis
    by (intro routed_more [OF assms(2)]) (auto simp: dispatchLookup_def sent_def split: if_splits)
next
  case (deliver i resp c)
  have f: "tp_frames t = sent t @ [resp]" "ar_Id resp = i"
    using assms(2) deliver(3) by (auto simp: routed_def sent_def)
  have c: "subseq (cv_got c @ cv_responses c) (of_conv i (sent t))" using assms(2) deliver(4) by (simp add: routed_def)
  have "sent t' = sent t @ [resp]" using deliver(1) f by (simp add: sent_def upd_conv_def)
  moreover have "subseq (cv_got c @ cv_responses c @ [resp]) (of_conv i (sent t) @ [resp])"
    using list_emb_append_mono [OF c, of "[resp]" "[resp]"] by simp
  ultimately show ?thesis
    using deliver assms(2) f unfolding routed_def
    by (auto simp: upd_conv_def of_conv_snoc conversationBuffer_def split: if_splits)
next
  case (drop_frame i resp)
  then show ?thesis
    by (intro routed_more [OF assms(2)]) (auto simp: sent_def prefixeq_butlast)
next
  case (read_error err)
  then show ?thesis
    by (intro routed_more [OF assms(2)]) (auto simp: sent_def setErr_def)
qed (intro routed_same [OF assms(2)], auto)+

lemma reach_routed: "(tstep E)\<^sup>*\<^sup>* newTransport t \<Longrightarrow> routed t"
proof (induction rule: rtranclp_induct)
  case base
  show ?case by (simp add: routed_def newTransport_def)
qed (rule tstep_routed)

text \<open>C9: responses reach the conversation they answer. However the reader, the conversations and the closing
  of a transport interleave, what a conversation has received, with what is buffered for it, is a
  subsequence of the frames that carry its id, in the order in which they were read: no response of another
  conversation, none twice and none out of order; and a buffer never holds more than 16 responses.\<close>

theorem transport_routes:
  assumes "(tstep E)\<^sup>*\<^sup>* newTransport t" and "tp_convs t i = Some c"
  shows "subseq (cv_got c @ cv_responses c) (of_conv i (tp_frames t)) \<and> length (cv_responses c) \<le> 16"
proof -
  have r: "routed t" using assms(1) by (rule reach_routed)
  have "prefix (sent t) (tp_frames t)" by (auto simp: sent_def prefixeq_butlast split: reader_at.split)
  then have "subseq (of_conv i (sent t)) (of_conv i (tp_frames t))" by (auto simp: of_conv_def prefix_def)
  moreover have "subseq (cv_got c @ cv_responses c) (of_conv i (sent t))" "length (cv_responses c) \<le> 16"
    using r assms(2) by (auto simp: routed_def conversationBuffer_def)
  ultimately show ?thesis using subseq_order.order_trans by blast
qed

definition wit_response :: AgentResponse where
  "wit_response = \<lparr> ar_Id = 1, ar_Payload = AResp_UploadFile \<rparr>"

text \<open>A transport with one conversation open, for which a response has been read and looked up.\<close>

definition wit_looked_up :: transport where
  "wit_looked_up = dispatchLookup wit_response (fst (OpenConversation newTransport))"

lemma wit_open: "tstep E newTransport (fst (OpenConversation newTransport))"
  by (rule tstep.open_conv) (simp add: newTransport_def)

lemma wit_looked: "(tstep E)\<^sup>*\<^sup>* newTransport wit_looked_up"
proof -
  have "tstep E (fst (OpenConversation newTransport)) wit_looked_up"
    unfolding wit_looked_up_def by (rule tstep.frame) (simp_all add: OpenConversation_def newTransport_def Let_def)
  with wit_open show ?thesis by (meson converse_rtranclp_into_rtranclp rtranclp.rtrancl_refl)
qed

lemmas wit_tp_defs = wit_looked_up_def dispatchLookup_def OpenConversation_def newTransport_def newConversation_def
  wit_response_def upd_conv_def removeConversation_def Let_def

theorem transport_routes_witness:
  "\<exists>t c. (tstep io_EOF)\<^sup>*\<^sup>* newTransport t \<and> tp_convs t 1 = Some c \<and> cv_responses c = [wit_response]
     \<and> subseq (cv_got c @ cv_responses c) (of_conv 1 (tp_frames t))"
proof -
  define t where "t = (upd_conv 1 (\<lambda>c. c\<lparr>cv_responses := cv_responses c @ [wit_response]\<rparr>) wit_looked_up)\<lparr>tp_reader := RRead\<rparr>"
  have "tstep io_EOF wit_looked_up t"
    unfolding t_def by (rule tstep.deliver [where c = newConversation]) (simp_all add: wit_tp_defs conversationBuffer_def)
  with wit_looked have r: "(tstep io_EOF)\<^sup>*\<^sup>* newTransport t" by (rule rtranclp.rtrancl_into_rtrancl)
  have c: "tp_convs t 1 = Some (newConversation\<lparr>cv_responses := [wit_response]\<rparr>)" by (simp add: t_def wit_tp_defs)
  from transport_routes [OF r c] r c show ?thesis
    by (intro exI [of _ t] exI [of _ "newConversation\<lparr>cv_responses := [wit_response]\<rparr>"]) (simp only:, simp)
qed

text \<open>C27: closing a conversation can crash the daemon, in two ways. A conversation that is closed after the reader
  has looked it up, and before the reader has sent to its channel, makes the reader send on a closed
  channel. A conversation opened on a transport that has shut down has its channel closed already, so
  closing it, as every caller does, closes the channel twice.\<close>

theorem conversation_close_panics:
  "(\<exists>t t'. (tstep E)\<^sup>*\<^sup>* newTransport t \<and> \<not> tp_closed t \<and> (\<exists>i r. tp_reader t = RSend i r) \<and> tstep E t t' \<and> tp_panicked t')
   \<and> (\<forall>t i. tp_closed t \<and> \<not> tp_panicked t \<and> i = snd (OpenConversation t) \<longrightarrow>
        (\<exists>t'. (tstep E)\<^sup>*\<^sup>* (fst (OpenConversation t)) t' \<and> tp_panicked t'))"
proof (intro conjI allI impI)
  define t1 where "t1 = upd_conv 1 (\<lambda>c. c\<lparr>cv_shutdown := SRemoved\<rparr>) (removeConversation 1 wit_looked_up)"
  define t2 where "t2 = upd_conv 1 (\<lambda>c. c\<lparr>cv_shutdown := SDone, cv_closed := True\<rparr>) t1"
  have "tstep E wit_looked_up t1"
    unfolding t1_def by (rule tstep.shut_remove [where c = newConversation]) (simp_all add: wit_tp_defs)
  moreover have "tstep E t1 t2"
    unfolding t2_def by (rule tstep.shut_close [where c = "newConversation\<lparr>cv_shutdown := SRemoved\<rparr>"])
      (simp_all add: t1_def wit_tp_defs)
  ultimately have r: "(tstep E)\<^sup>*\<^sup>* newTransport t2" using wit_looked by (meson rtranclp.rtrancl_into_rtrancl)
  have "tstep E t2 (t2\<lparr>tp_panicked := True\<rparr>)"
    by (rule tstep.deliver_closed [where i = 1 and resp = wit_response
          and c = "newConversation\<lparr>cv_shutdown := SDone, cv_closed := True\<rparr>"]) (simp_all add: t2_def t1_def wit_tp_defs)
  moreover have "\<not> tp_closed t2" "tp_reader t2 = RSend 1 wit_response" by (simp_all add: t2_def t1_def wit_tp_defs)
  ultimately show "\<exists>t t'. (tstep E)\<^sup>*\<^sup>* newTransport t \<and> \<not> tp_closed t \<and> (\<exists>i r. tp_reader t = RSend i r) \<and> tstep E t t' \<and> tp_panicked t'"
    using r by (intro exI [of _ t2] exI [of _ "t2\<lparr>tp_panicked := True\<rparr>"]) simp
next
  have panicked: "tp_panicked (u\<lparr>tp_panicked := True\<rparr>)" for u :: transport by simp
  fix t i
  assume a: "tp_closed t \<and> \<not> tp_panicked t \<and> i = snd (OpenConversation t)"
  let ?c = "newConversation\<lparr>cv_closed := True\<rparr>" and ?o = "fst (OpenConversation t)"
  define t1 where "t1 = upd_conv i (\<lambda>c. c\<lparr>cv_shutdown := SRemoved\<rparr>) (removeConversation i ?o)"
  have o: "tp_convs ?o i = Some ?c" "\<not> tp_panicked ?o" using a by (simp_all add: OpenConversation_def Let_def)
  have "tstep E ?o t1"
    unfolding t1_def using o by (intro tstep.shut_remove [where c = ?c]) (simp_all add: newConversation_def)
  moreover have "tstep E t1 (t1\<lparr>tp_panicked := True\<rparr>)"
    using o by (intro tstep.shut_twice [where i = i and c = "?c\<lparr>cv_shutdown := SRemoved\<rparr>"])
      (simp_all add: t1_def upd_conv_def removeConversation_def newConversation_def)
  ultimately have "(tstep E)\<^sup>*\<^sup>* ?o (t1\<lparr>tp_panicked := True\<rparr>)"
    by (meson converse_rtranclp_into_rtranclp rtranclp.rtrancl_refl)
  then show "\<exists>t'. (tstep E)\<^sup>*\<^sup>* ?o t' \<and> tp_panicked t'"
    using panicked by blast
qed

theorem conversation_close_panics_witness:
  "\<exists>t'. (tstep (New ''closed''))\<^sup>*\<^sup>* (fst (OpenConversation (newTransport\<lparr>tp_closed := True\<rparr>))) t' \<and> tp_panicked t'"
  using conversation_close_panics [of "New ''closed''"] by (auto simp: newTransport_def)

end
