(* ===== verification/Guest.thy ===== *)
theory Guest
  imports Agent_Transport Atomic_File
begin

text \<open>
  The agent inside a VM (agent/internal/guest/server.go): file upload and download, and the life of an
  executed process: registration, start, standard input, resizing, cancellation, the streams of its
  output and its final response. The operating system of the guest is the record \<open>guest_os\<close>. What the
  server writes on its connection is returned as the list of responses; the goroutines that copy
  standard output and standard error interleave, so an execution has a set of possible outcomes.
\<close>

section \<open>Files\<close>

definition streamChunkSize :: nat where
  "streamChunkSize = 4096"

definition maxDownloadFileSize :: nat where
  "maxDownloadFileSize = 3 * 1024 * 1024"

definition uploadFileMode :: nat where
  "uploadFileMode = 420"

definition codeForFileErr :: "goerr \<Rightarrow> code" where
  "codeForFileErr err =
    (if errors_Is err os_ErrNotExist then NotFound
     else let msg = Error err in
       if Contains msg ''is not a directory'' \<or> Contains msg ''is a directory, not a file'' then FailedPrecondition
       else if Contains msg ''too large'' \<or> Contains msg ''grew past'' then ResourceExhausted
       else Internal)"

text \<open>Write, close, change the mode and rename the temporary file.\<close>

definition commitTemp ::
  "('w, byte list) host \<Rightarrow> string \<Rightarrow> byte list \<Rightarrow> nat \<Rightarrow> string \<Rightarrow> 'w \<Rightarrow> 'w \<times> unit result" where
  "commitTemp h path data mode tmpPath w =
    (case h_WriteFile h w tmpPath data of
       (w1, Inl err) \<Rightarrow> (fst (h_Close h w1 tmpPath), Inl (wrapf ''write temp'' err))
     | (w1, Inr _) \<Rightarrow>
       bindr (onErr (wrapf ''close temp'') (h_Close h w1 tmpPath)) (\<lambda>w _.
       bindr (onErr (wrapf ''chmod temp'') (h_Chmod h w tmpPath mode)) (\<lambda>w _.
         onErr (wrapf ''rename to destination'') (h_Rename h w tmpPath path))))"

definition atomicWriteFile ::
  "('w, byte list) host \<Rightarrow> ('w \<Rightarrow> string \<Rightarrow> string \<Rightarrow> 'w \<times> string result) \<Rightarrow> string \<Rightarrow> byte list \<Rightarrow> nat \<Rightarrow> 'w \<Rightarrow> 'w \<times> unit result" where
  "atomicWriteFile h temp path data mode w =
    (let dir = filepath_Dir path in
     case h_Stat h w dir of
       Inl err \<Rightarrow> (w, Inl (wrapf ''parent directory'' err))
     | Inr info \<Rightarrow>
       if \<not> fi_IsDir info then (w, Inl (New (''parent '' @ quote dir @ '' is not a directory'')))
       else bindr (onErr (wrapf ''create temp'') (temp w dir (filepath_Base path @ ''.tmp-*''))) (\<lambda>w tmpPath.
         case commitTemp h path data mode tmpPath w of
           (w1, Inl err) \<Rightarrow> (fst (h_Remove h w1 tmpPath), Inl err)
         | (w1, Inr _) \<Rightarrow> (w1, Inr ())))"

text \<open>\<open>open\<close> is \<open>os.Open\<close>; what the open file delivers is read up to one byte past the limit.\<close>

definition readFileCapped ::
  "('w, byte list) host \<Rightarrow> ('w \<Rightarrow> string \<Rightarrow> unit result) \<Rightarrow> string \<Rightarrow> nat \<Rightarrow> 'w \<Rightarrow> byte list result" where
  "readFileCapped h open_file path maxSize w =
    (case h_Stat h w path of
       Inl err \<Rightarrow> Inl (wrapf ''stat'' err)
     | Inr info \<Rightarrow>
       if fi_IsDir info then Inl (New (quote path @ '' is a directory, not a file''))
       else if fi_Size info > int maxSize
       then Inl (New (''file too large: '' @ fmt_d (fi_Size info) @ '' bytes (max '' @ dec_nat maxSize @ '')''))
       else case open_file w path of
         Inl err \<Rightarrow> Inl (wrapf ''open'' err)
       | Inr _ \<Rightarrow>
         (case h_ReadFile h w path of
            Inl err \<Rightarrow> Inl (wrapf ''read'' err)
          | Inr content \<Rightarrow>
            let data = take (maxSize + 1) content in
            if length data > maxSize then Inl (New (''file grew past '' @ dec_nat maxSize @ '' bytes during read''))
            else Inr data))"

definition errorResponse :: "64 word \<Rightarrow> code \<Rightarrow> string \<Rightarrow> AgentResponse" where
  "errorResponse i c message = \<lparr> ar_Id = i, ar_Payload = AResp_Error c message \<rparr>"

definition uploadResponse :: "64 word \<Rightarrow> unit result \<Rightarrow> AgentResponse" where
  "uploadResponse i r =
    (case r of Inl err \<Rightarrow> errorResponse i (codeForFileErr err) (Error err)
     | Inr _ \<Rightarrow> \<lparr> ar_Id = i, ar_Payload = AResp_UploadFile \<rparr>)"

definition downloadResponse :: "64 word \<Rightarrow> byte list result \<Rightarrow> AgentResponse" where
  "downloadResponse i r =
    (case r of Inl err \<Rightarrow> errorResponse i (codeForFileErr err) (Error err)
     | Inr data \<Rightarrow> \<lparr> ar_Id = i, ar_Payload = AResp_DownloadFile data \<rparr>)"

section \<open>Processes\<close>

text \<open>The operating system of the guest. A read from an output delivers bytes and possibly an error, after
  which nothing more is read; \<open>g_exit\<close> is the exit code once \<open>cmd.Wait\<close> has set the process state.\<close>

record 'w guest_os =
  g_host :: "('w, byte list) host"
  g_temp :: "'w \<Rightarrow> string \<Rightarrow> string \<Rightarrow> 'w \<times> string result"
  g_Open :: "'w \<Rightarrow> string \<Rightarrow> unit result"
  g_Environ :: "string list"
  g_ptyStart :: "'w \<Rightarrow> ExecProcess \<Rightarrow> string list \<Rightarrow> 'w \<times> int result"
  g_stdinPipe :: "'w \<Rightarrow> unit result"
  g_stdoutPipe :: "'w \<Rightarrow> unit result"
  g_stderrPipe :: "'w \<Rightarrow> unit result"
  g_start :: "'w \<Rightarrow> ExecProcess \<Rightarrow> string list \<Rightarrow> 'w \<times> int result"
  g_reads :: "'w \<Rightarrow> int \<Rightarrow> StreamType \<Rightarrow> (byte list \<times> bool) list"
  g_wait :: "'w \<Rightarrow> int \<Rightarrow> 'w \<times> goerr option \<times> int option"
  g_stdin :: "'w \<Rightarrow> int \<Rightarrow> byte list \<Rightarrow> 'w"
  g_closeStdin :: "'w \<Rightarrow> int \<Rightarrow> 'w"
  g_closePty :: "'w \<Rightarrow> int \<Rightarrow> 'w"
  g_setsize :: "'w \<Rightarrow> int \<Rightarrow> 16 word \<Rightarrow> 16 word \<Rightarrow> 'w"
  g_cancel :: "'w \<Rightarrow> 64 word \<Rightarrow> 'w"

text \<open>A running process: its pid, and whether its standard input and its terminal are attached.\<close>

record proc =
  pr_pid :: int
  pr_stdin :: bool
  pr_pty :: bool

type_synonym procs = "64 word \<rightharpoonup> proc"

definition makeEnviron :: "string list \<Rightarrow> ExecProcess \<Rightarrow> string list" where
  "makeEnviron parent req = map (\<lambda>(k, v). k @ ''='' @ v) (xp_Env req) @ parent"

record execHandles =
  eh_pid :: int
  eh_stderr :: bool
  eh_pty :: bool

definition startCommand :: "'w guest_os \<Rightarrow> 'w \<Rightarrow> ExecProcess \<Rightarrow> 'w \<times> execHandles result" where
  "startCommand g w req =
    (let env = makeEnviron (g_Environ g) req in
     if xp_Tty req then
       bindr (onErr (wrapf ''pty start'') (g_ptyStart g w req env)) (\<lambda>w pid.
         (w, Inr \<lparr> eh_pid = pid, eh_stderr = False, eh_pty = True \<rparr>))
     else case g_stdinPipe g w of Inl err \<Rightarrow> (w, Inl (wrapf ''stdin pipe'' err)) | Inr _ \<Rightarrow>
       (case g_stdoutPipe g w of Inl err \<Rightarrow> (w, Inl (wrapf ''stdout pipe'' err)) | Inr _ \<Rightarrow>
       (case g_stderrPipe g w of Inl err \<Rightarrow> (w, Inl (wrapf ''stderr pipe'' err)) | Inr _ \<Rightarrow>
       bindr (onErr (wrapf ''start'') (g_start g w req env)) (\<lambda>w pid.
         (w, Inr \<lparr> eh_pid = pid, eh_stderr = True, eh_pty = False \<rparr>)))))"

definition newStreamChunkResponse :: "64 word \<Rightarrow> StreamChunk \<Rightarrow> AgentResponse" where
  "newStreamChunkResponse i chunk = \<lparr> ar_Id = i, ar_Payload = AResp_Exec (Exec_StreamChunk chunk) \<rparr>"

fun stream :: "64 word \<Rightarrow> int \<Rightarrow> StreamType \<Rightarrow> (byte list \<times> bool) list \<Rightarrow> AgentResponse list" where
  "stream i pid t [] =
    [newStreamChunkResponse i \<lparr> sc_Pid = pid, sc_Stream = t, sc_Data = [], sc_Eof = True \<rparr>]"
| "stream i pid t ((buf, failed) # rs) =
    (if buf \<noteq> [] then [newStreamChunkResponse i \<lparr> sc_Pid = pid, sc_Stream = t, sc_Data = buf, sc_Eof = False \<rparr>] else [])
    @ stream i pid t (if failed then [] else rs)"

text \<open>The outputs in every order the two goroutines can write them.\<close>

definition streamOutputs :: "'w guest_os \<Rightarrow> 'w \<Rightarrow> 64 word \<Rightarrow> execHandles \<Rightarrow> AgentResponse list set" where
  "streamOutputs g w i h =
    (let out = stream i (eh_pid h) STREAM_TYPE_STDOUT (g_reads g w (eh_pid h) STREAM_TYPE_STDOUT) in
     if eh_stderr h
     then shuffles out (stream i (eh_pid h) STREAM_TYPE_STDERR (g_reads g w (eh_pid h) STREAM_TYPE_STDERR))
     else {out})"

definition execError :: "64 word \<Rightarrow> goerr \<Rightarrow> AgentResponse" where
  "execError i err = errorResponse i (if errors_Is err os_ErrNotExist then NotFound else Internal) (Error err)"

definition execResponse :: "64 word \<Rightarrow> int option \<Rightarrow> goerr option \<Rightarrow> AgentResponse" where
  "execResponse i processState execErr =
    (case processState of
       None \<Rightarrow> errorResponse i Internal (''exec: process state missing after wait''
                 @ (case execErr of None \<Rightarrow> [] | Some e \<Rightarrow> '': '' @ Error e))
     | Some exit \<Rightarrow> \<lparr> ar_Id = i, ar_Payload = AResp_Exec (Exec_ProcessResult exit) \<rparr>)"

definition detachStdio :: "64 word \<Rightarrow> procs \<Rightarrow> procs \<times> bool" where
  "detachStdio i ps =
    (case ps i of
       None \<Rightarrow> (ps, False)
     | Some p \<Rightarrow> (ps(i \<mapsto> p\<lparr>pr_stdin := False, pr_pty := False\<rparr>), pr_pty p))"

text \<open>The life of one execution: the table while it runs and the responses it may write. Waiting comes after
  the streams for pipes, before them for a terminal; the responses are the same.\<close>

definition registerProc :: "64 word \<Rightarrow> procs \<Rightarrow> procs" where
  "registerProc i ps = ps(i \<mapsto> \<lparr> pr_pid = 0, pr_stdin = False, pr_pty = False \<rparr>)"

definition publishProc :: "64 word \<Rightarrow> execHandles \<Rightarrow> procs \<Rightarrow> procs" where
  "publishProc i h ps = ps(i \<mapsto> \<lparr> pr_pid = eh_pid h, pr_stdin = True, pr_pty = eh_pty h \<rparr>)"

definition execCommand :: "'w guest_os \<Rightarrow> 64 word \<Rightarrow> ExecProcess \<Rightarrow> procs \<times> 'w \<Rightarrow> ((procs \<times> 'w) \<times> AgentResponse list) set" where
  "execCommand g i req s =
    (case s of (ps, w) \<Rightarrow>
     let ps1 = registerProc i ps in
     case startCommand g w req of
       (w1, Inl err) \<Rightarrow> {((ps1(i := None), w1), [execError i err])}
     | (w1, Inr h) \<Rightarrow>
       (let ps2 = publishProc i h ps1 in
        case g_wait g w1 (eh_pid h) of (w2, execErr, exit) \<Rightarrow>
        case detachStdio i ps2 of (ps3, pty) \<Rightarrow>
          (\<lambda>out. ((ps3(i := None), if pty then g_closePty g w2 (eh_pid h) else w2), out @ [execResponse i exit execErr]))
            ` streamOutputs g w1 i h))"

section \<open>Requests on a running process\<close>

definition cancelRequest :: "'w guest_os \<Rightarrow> 64 word \<Rightarrow> procs \<times> 'w \<Rightarrow> procs \<times> 'w" where
  "cancelRequest g i s = (case s of (ps, w) \<Rightarrow> (ps, if ps i = None then w else g_cancel g w i))"

definition pumpToStdin :: "'w guest_os \<Rightarrow> 64 word \<Rightarrow> StdinChunk \<Rightarrow> procs \<times> 'w \<Rightarrow> procs \<times> 'w" where
  "pumpToStdin g i chunk s =
    (case s of (ps, w) \<Rightarrow>
     case ps i of None \<Rightarrow> (ps, w) | Some p \<Rightarrow>
     if \<not> pr_stdin p then (ps, w)
     else let w1 = (if sd_Data chunk \<noteq> [] then g_stdin g w (pr_pid p) (sd_Data chunk) else w) in
       if sd_Eof chunk then
         if pr_pty p then (ps, w1) else (ps(i \<mapsto> p\<lparr>pr_stdin := False\<rparr>), g_closeStdin g w1 (pr_pid p))
       else (ps, w1))"

definition resizeTerm :: "'w guest_os \<Rightarrow> 64 word \<Rightarrow> ResizePTY \<Rightarrow> procs \<times> 'w \<Rightarrow> procs \<times> 'w" where
  "resizeTerm g i params s =
    (case s of (ps, w) \<Rightarrow>
     case ps i of None \<Rightarrow> (ps, w) | Some p \<Rightarrow>
     if \<not> pr_pty p then (ps, w)
     else (ps, g_setsize g w (pr_pid p) (ucast (rz_Cols params)) (ucast (rz_Rows params))))"

text \<open>One request: the states and responses it may lead to, each goroutine it starts run to its end.\<close>

definition handleRequest :: "'w guest_os \<Rightarrow> AgentRequest \<Rightarrow> procs \<times> 'w \<Rightarrow> ((procs \<times> 'w) \<times> AgentResponse list) set" where
  "handleRequest g req s =
    (case aq_Payload req of
       AReq_Exec (Xreq_ExecProcess p) \<Rightarrow> execCommand g (aq_Id req) p s
     | AReq_Exec _ \<Rightarrow> {(s, [errorResponse (aq_Id req) InvalidArgument ''ExecRequest must carry an ExecProcess payload''])}
     | AReq_Cancel \<Rightarrow> {(cancelRequest g (aq_Id req) s, [])}
     | AReq_Stdin chunk \<Rightarrow> {(pumpToStdin g (aq_Id req) chunk s, [])}
     | AReq_Resize params \<Rightarrow> {(resizeTerm g (aq_Id req) params s, [])}
     | AReq_UploadFile source dest \<Rightarrow>
         {case atomicWriteFile (g_host g) (g_temp g) dest source uploadFileMode (snd s) of
            (w, r) \<Rightarrow> ((fst s, w), [uploadResponse (aq_Id req) r])}
     | AReq_DownloadFile source \<Rightarrow>
         {(s, [downloadResponse (aq_Id req) (readFileCapped (g_host g) (g_Open g) source maxDownloadFileSize (snd s))])}
     | AReq_unset \<Rightarrow> {(s, [])})"

end
