(* ===== verification/Guest_Properties.thy ===== *)
theory Guest_Properties
  imports Guest
begin

text \<open>
  What the agent inside a VM guarantees: an upload replaces a file as a whole or not at all and a download
  gives it back (locale \<open>guest_files\<close>), and the responses of an execution are the two streams of the
  process, each complete and in order, with the final response last.
\<close>

section \<open>Upload and download\<close>

locale guest_files = temp_dir h fsv temp path
  for h :: "('w, byte list) host" and fsv and temp and path +
  fixes open_file :: "'w \<Rightarrow> string \<Rightarrow> unit result"
  assumes stat_size: "fsv w p = Some c \<Longrightarrow> \<exists>i. h_Stat h w p = Inr i \<and> \<not> fi_IsDir i \<and> fi_Size i = int (length c)"
    and open_ok: "fsv w p \<noteq> None \<Longrightarrow> isOk (open_file w p)"
begin

lemma commit_ok:
  assumes p: "p \<noteq> path" and r: "commitTemp h path data mode p w = (w', Inr u)"
  shows "fsv w' path = Some data" "\<lbrakk> q \<noteq> path; q \<noteq> p \<rbrakk> \<Longrightarrow> fsv w' q = fsv w q"
proof -
  obtain w1 r1 where 1: "h_WriteFile h w p data = (w1, r1)" by fastforce
  obtain w2 r2 where 2: "h_Close h w1 p = (w2, r2)" by fastforce
  obtain w3 r3 where 3: "h_Chmod h w2 p mode = (w3, r3)" by fastforce
  have ok: "isOk r1" "isOk r2" "isOk r3" using r by (cases r1; cases r2; cases r3; simp add: commitTemp_def 1 2 3)+
  then have m: "h_Rename h w3 p path = (w', Inr u)"
    using r by (auto simp: commitTemp_def 1 2 3 isOk_iff onErr_ok)
  have f: "fsv w3 x = fsv w1 x" for x using close_frame [of w1 p x] chmod_frame [of w2 p mode x] 2 3 by simp
  have "fsv w3 p = Some data" using write_ok [of w p data] 1 ok(1) f by simp
  note rename_publishes [OF p this m]
  then show "fsv w' path = Some data" "\<lbrakk> q \<noteq> path; q \<noteq> p \<rbrakk> \<Longrightarrow> fsv w' q = fsv w q"
    using f write_frame [of q p w data] 1 by simp_all
qed

lemma commit_err:
  assumes r: "commitTemp h path data mode p w = (w', Inl e)" and q: "q \<noteq> p"
  shows "fsv w' q = fsv w q"
proof -
  obtain w1 r1 where 1: "h_WriteFile h w p data = (w1, r1)" by fastforce
  obtain w2 r2 where 2: "h_Close h w1 p = (w2, r2)" by fastforce
  obtain w3 r3 where 3: "h_Chmod h w2 p mode = (w3, r3)" by fastforce
  obtain w4 r4 where 4: "h_Rename h w3 p path = (w4, r4)" by fastforce
  have "fsv w1 q = fsv w q" "fsv w2 q = fsv w1 q" "fsv w3 q = fsv w2 q" "\<not> isOk r4 \<Longrightarrow> fsv w4 q = fsv w3 q"
    using write_frame [OF q, of w data] close_frame [of w1 p q] chmod_frame [of w2 p mode q] rename_err [of w3 p path q]
      1 2 3 4 by simp_all
  then show ?thesis using r by (cases r1; cases r2; cases r3; cases r4) (simp_all add: commitTemp_def 1 2 3 4)
qed

lemma atomicWriteFile_spec:
  assumes "atomicWriteFile h temp path data mode w = (w', r)"
  shows "(if isOk r then fsv w' path = Some data else fsv w' path = fsv w path)
    \<and> (\<exists>p. \<forall>q. q \<notin> {path, p} \<longrightarrow> fsv w' q = fsv w q)"
proof (cases "\<exists>w1 p. temp w (filepath_Dir path) (filepath_Base path @ ''.tmp-*'') = (w1, Inr p)
    \<and> (\<exists>i. h_Stat h w (filepath_Dir path) = Inr i \<and> fi_IsDir i)")
  case True
  then obtain w1 p i where t: "temp w (filepath_Dir path) (filepath_Base path @ ''.tmp-*'') = (w1, Inr p)"
    and i: "h_Stat h w (filepath_Dir path) = Inr i" "fi_IsDir i" by blast
  have p: "p \<noteq> path" by (rule temp_new [OF t])
  have f: "q \<noteq> p \<Longrightarrow> fsv w1 q = fsv w q" for q using temp_frame [OF t, of q] by simp
  obtain w2 x where c: "commitTemp h path data mode p w1 = (w2, x)" by fastforce
  show ?thesis
  proof (cases x)
    case (Inl e)
    then have w': "w' = fst (h_Remove h w2 p)" "r = Inl e" using assms t i c by (simp_all add: atomicWriteFile_def Let_def)
    have "q \<noteq> p \<Longrightarrow> fsv w' q = fsv w q" for q
      using commit_err [OF c [unfolded Inl], of q] remove_frame [of q p w2] f w' by simp
    then show ?thesis using p w' by (intro conjI exI [of _ p]) auto
  next
    case (Inr u)
    then have w': "w' = w2" "r = Inr ()" using assms t i c by (simp_all add: atomicWriteFile_def Let_def)
    note ok = commit_ok [OF p c [unfolded Inr]]
    show ?thesis using ok w' f by (intro conjI exI [of _ p]) auto
  qed
next
  case False
  obtain w1 x where t: "temp w (filepath_Dir path) (filepath_Base path @ ''.tmp-*'') = (w1, x)" by fastforce
  have "\<not> isOk r \<and> (w' = w \<or> (\<exists>e. x = Inl e) \<and> w' = w1)"
    using assms False t
    by (cases "h_Stat h w (filepath_Dir path)"; cases x) (auto simp: atomicWriteFile_def Let_def split: if_splits)
  moreover have "x = Inl e \<Longrightarrow> fsv w1 q = fsv w q" for e q using temp_frame [OF t, of q] by simp
  ultimately show ?thesis by auto
qed

lemma readFileCapped_file:
  assumes "fsv w p = Some c"
  shows "readFileCapped h open_file p n w = (if length c \<le> n then Inr c
    else Inl (New (''file too large: '' @ fmt_d (int (length c)) @ '' bytes (max '' @ dec_nat n @ '')'')))"
proof -
  obtain i where i: "h_Stat h w p = Inr i" "\<not> fi_IsDir i" "fi_Size i = int (length c)" using stat_size [OF assms] by blast
  show ?thesis
    using i read_back [OF assms] open_ok [of w p] assms
    by (auto simp: readFileCapped_def Let_def isOk_iff)
qed

end

lemma Contains_set: "Contains s sub \<Longrightarrow> set sub \<subseteq> set s"
  by (auto simp: Contains_iff)

lemma dec_nat_digits: "c \<in> set (dec_nat n) \<Longrightarrow> is_digit c"
  using dec_nat_spec [of n] by (simp add: list_all_iff)

lemma too_large_code:
  "codeForFileErr (New (''file too large: '' @ fmt_d (int k) @ '' bytes (max '' @ dec_nat n @ '')'')) = ResourceExhausted"
proof -
  let ?m = "''file too large: '' @ dec_nat k @ '' bytes (max '' @ dec_nat n @ '')''"
  have "CHR ''d'' \<notin> set ?m" using dec_nat_digits [of "CHR ''d''"] by (auto simp: is_digit_def)
  then have "\<not> Contains ?m ''is not a directory''" "\<not> Contains ?m ''is a directory, not a file''"
    using Contains_set [of ?m "''is not a directory''"] Contains_set [of ?m "''is a directory, not a file''"] by auto
  moreover have "Contains ?m ''too large''"
    unfolding Contains_iff by (intro exI [of _ "''file ''"] exI [of _ "'': '' @ dec_nat k @ '' bytes (max '' @ dec_nat n @ '')''"]) simp
  moreover have "New ?m \<noteq> os_ErrNotExist" by (simp add: os_ErrNotExist_def)
  ultimately show ?thesis by (simp add: codeForFileErr_def Let_def fmt_d_def)
qed

section \<open>Executions\<close>

text \<open>What a process writes to one of its outputs until a read fails.\<close>

fun written :: "(byte list \<times> bool) list \<Rightarrow> byte list" where
  "written [] = []"
| "written ((buf, failed) # rs) = buf @ (if failed then [] else written rs)"

definition is_chunk :: "StreamType \<Rightarrow> AgentResponse \<Rightarrow> bool" where
  "is_chunk t r = (case ar_Payload r of AResp_Exec (Exec_StreamChunk c) \<Rightarrow> sc_Stream c = t | _ \<Rightarrow> False)"

definition chunk_of :: "AgentResponse \<Rightarrow> StreamChunk" where
  "chunk_of r = (case ar_Payload r of AResp_Exec (Exec_StreamChunk c) \<Rightarrow> c)"

definition is_final :: "AgentResponse \<Rightarrow> bool" where
  "is_final r = (case ar_Payload r of AResp_Exec (Exec_StreamChunk c) \<Rightarrow> False | _ \<Rightarrow> True)"

text \<open>A complete stream: its chunks carry the output and only the last one ends it.\<close>

definition complete :: "64 word \<Rightarrow> int \<Rightarrow> byte list \<Rightarrow> AgentResponse list \<Rightarrow> bool" where
  "complete i pid bytes rs \<longleftrightarrow> rs \<noteq> [] \<and> concat (map (\<lambda>r. sc_Data (chunk_of r)) rs) = bytes
     \<and> (\<forall>r\<in>set rs. ar_Id r = i \<and> sc_Pid (chunk_of r) = pid)
     \<and> (\<forall>r\<in>set (butlast rs). \<not> sc_Eof (chunk_of r)) \<and> sc_Eof (chunk_of (last rs))"

lemma stream_chunks: "r \<in> set (stream i pid t rs) \<Longrightarrow> is_chunk t r \<and> \<not> is_final r \<and> ar_Id r = i"
  by (induction rs rule: stream.induct)
    (auto simp: newStreamChunkResponse_def is_chunk_def is_final_def split: if_splits)

lemma stream_complete: "complete i pid (written rs) (stream i pid t rs)"
proof (induction i pid t rs rule: stream.induct)
  case (2 i pid t buf failed rs)
  then show ?case
    by (cases failed; cases "buf = []")
      (auto simp: complete_def newStreamChunkResponse_def chunk_of_def)
qed (simp add: complete_def newStreamChunkResponse_def chunk_of_def)

lemma is_chunk_other: "is_chunk t r \<Longrightarrow> t' \<noteq> t \<Longrightarrow> \<not> is_chunk t' r"
  by (auto simp: is_chunk_def split: ResponsePayload.splits ExecResponse.splits)

lemma filter_stream:
  "filter (is_chunk t) (stream i pid t rs) = stream i pid t rs"
  "t' \<noteq> t \<Longrightarrow> filter (is_chunk t') (stream i pid t rs) = []"
  using stream_chunks [of _ i pid t rs] is_chunk_other [of t _ t'] by (auto simp: filter_id_conv filter_empty_conv)

text \<open>What one execution writes, from the state the process was started in.\<close>

definition outputs_ok :: "'w guest_os \<Rightarrow> 'w \<Rightarrow> 64 word \<Rightarrow> execHandles \<Rightarrow> AgentResponse list \<Rightarrow> bool" where
  "outputs_ok g w i h out \<longleftrightarrow> (\<forall>r\<in>set out. ar_Id r = i \<and> \<not> is_final r)
     \<and> complete i (eh_pid h) (written (g_reads g w (eh_pid h) STREAM_TYPE_STDOUT)) (filter (is_chunk STREAM_TYPE_STDOUT) out)
     \<and> (if eh_stderr h
        then complete i (eh_pid h) (written (g_reads g w (eh_pid h) STREAM_TYPE_STDERR)) (filter (is_chunk STREAM_TYPE_STDERR) out)
        else filter (is_chunk STREAM_TYPE_STDERR) out = [])"

lemma streamOutputs_ok:
  assumes "out \<in> streamOutputs g w i h"
  shows "outputs_ok g w i h out"
proof -
  let ?s = "\<lambda>t. stream i (eh_pid h) t (g_reads g w (eh_pid h) t)"
  let ?o = "?s STREAM_TYPE_STDOUT" and ?e = "?s STREAM_TYPE_STDERR"
  note c = stream_complete [of i "eh_pid h" "g_reads g w (eh_pid h) t" t for t]
  show ?thesis
  proof (cases "eh_stderr h")
    case False
    then have "out = ?o" using assms by (simp add: streamOutputs_def Let_def)
    then show ?thesis
      using False c stream_chunks [of _ i "eh_pid h" STREAM_TYPE_STDOUT] by (auto simp: outputs_ok_def filter_stream)
  next
    case True
    then have out: "out \<in> shuffles ?o ?e" using assms by (simp add: streamOutputs_def Let_def)
    have f: "filter (is_chunk t) out \<in> shuffles (filter (is_chunk t) ?o) (filter (is_chunk t) ?e)" for t
      using out filter_shuffles [of "is_chunk t" ?o ?e] by blast
    have "filter (is_chunk STREAM_TYPE_STDOUT) out = ?o" "filter (is_chunk STREAM_TYPE_STDERR) out = ?e"
      using f [of STREAM_TYPE_STDOUT] f [of STREAM_TYPE_STDERR] by (simp_all add: filter_stream)
    moreover have "set out = set ?o \<union> set ?e" using out by (rule set_shuffles)
    ultimately show ?thesis
      using True c stream_chunks [of _ i "eh_pid h"] by (auto simp: outputs_ok_def)
  qed
qed


text \<open>The environment \<open>os/exec\<close> gives a process: of several entries for a name, the last.\<close>

definition env_pair :: "string \<Rightarrow> (string \<times> string) option" where
  "env_pair e = (case dropWhile (\<lambda>c. c \<noteq> CHR ''='') e of [] \<Rightarrow> None | _ # v \<Rightarrow> Some (takeWhile (\<lambda>c. c \<noteq> CHR ''='') e, v))"

definition child_env :: "string list \<Rightarrow> string \<rightharpoonup> string" where
  "child_env env = map_of (rev (List.map_filter env_pair env))"

lemma env_pair_eq: "CHR ''='' \<notin> set k \<Longrightarrow> env_pair (k @ ''='' @ v) = Some (k, v)"
  by (induction k) (auto simp: env_pair_def split: list.splits)

text \<open>C40: the variables a client gives to an execution lose against those of the agent. With duplicates
  \<open>os/exec\<close> uses the last entry of a name, and \<open>makeEnviron\<close> puts the request's entries first: a
  name that the agent's own environment has keeps the agent's value, and only the others get the
  requested one.\<close>

theorem makeEnviron_parent_wins:
  assumes "\<And>k v. (k, v) \<in> set (xp_Env req) \<Longrightarrow> CHR ''='' \<notin> set k"
  shows "child_env (makeEnviron parent req) = map_of (rev (xp_Env req)) ++ child_env parent"
proof -
  have "List.map_filter env_pair (map (\<lambda>(k, v). k @ ''='' @ v) es) = es"
    if "\<forall>(k, v)\<in>set es. CHR ''='' \<notin> set k" for es
    using that
  proof (induction es)
    case (Cons e es)
    then show ?case using env_pair_eq [of "fst e" "snd e"] by (cases e) (simp add: List.map_filter_simps)
  qed (simp add: List.map_filter_simps)
  from this [of "xp_Env req"] assms have "List.map_filter env_pair (makeEnviron parent req) = xp_Env req @ List.map_filter env_pair parent"
    by (auto simp: makeEnviron_def List.map_filter_def)
  then show ?thesis by (simp add: child_env_def)
qed

theorem makeEnviron_parent_wins_witness:
  "child_env (makeEnviron [''PATH=/sbin''] \<lparr> xp_Command = ''ls'', xp_Args = [], xp_Env = [(''PATH'', ''/opt/bin''), (''A'', ''1'')],
     xp_Cwd = [], xp_Tty = False \<rparr>) ''PATH'' = Some ''/sbin''"
  by (subst makeEnviron_parent_wins) (auto, code_simp)

section \<open>A guest in memory\<close>

text \<open>Files in memory below the directory \<open>/data\<close>; a process writes one line to each of its outputs and exits
  with code 3.\<close>

definition mem_guest_host :: "(byte list memfs, byte list) host" where
  "mem_guest_host = (mem_host [])\<lparr>h_Stat := \<lambda>w p. case mf_files w p of
       Some c \<Rightarrow> Inr \<lparr> fi_Size = int (length c), fi_IsDir = False, fi_Ino = 0 \<rparr>
     | None \<Rightarrow> if p = ''/data'' then Inr \<lparr> fi_Size = 0, fi_IsDir = True, fi_Ino = 0 \<rparr> else Inl os_ErrNotExist\<rparr>"

definition mem_guest_temp :: "byte list memfs \<Rightarrow> string \<Rightarrow> string \<Rightarrow> byte list memfs \<times> string result" where
  "mem_guest_temp w d p = (w\<lparr>mf_files := (mf_files w)(''/data/tmp'' \<mapsto> [])\<rparr>, Inr ''/data/tmp'')"

definition mem_guest :: "byte list memfs guest_os" where
  "mem_guest = \<lparr> g_host = mem_guest_host, g_temp = mem_guest_temp, g_Open = \<lambda>w p. Inr (), g_Environ = [''PATH=/sbin''],
     g_ptyStart = \<lambda>w p env. (w, Inr 7), g_stdinPipe = \<lambda>w. Inr (), g_stdoutPipe = \<lambda>w. Inr (), g_stderrPipe = \<lambda>w. Inr (),
     g_start = \<lambda>w p env. (w, Inr 7),
     g_reads = \<lambda>w pid t. if t = STREAM_TYPE_STDOUT then [([104, 105], False), ([10], True)] else [([33], False), ([], True)],
     g_wait = \<lambda>w pid. (w, None, Some 3), g_stdin = \<lambda>w pid d. w, g_closeStdin = \<lambda>w pid. w, g_closePty = \<lambda>w pid. w,
     g_setsize = \<lambda>w pid c r. w, g_cancel = \<lambda>w i. w \<rparr>"

interpretation mgf: guest_files mem_guest_host mf_files mem_guest_temp "''/data/f''" "\<lambda>w p. Inr ()"
  by unfold_locales
    (auto simp: mem_guest_host_def mem_host_def mem_guest_temp_def split: option.splits if_splits)

definition wit_guest_fs :: "byte list memfs" where
  "wit_guest_fs = \<lparr> mf_files = [''/data/f'' \<mapsto> [1], ''/data/g'' \<mapsto> [2]], mf_objs = Map.empty \<rparr>"


text \<open>C20: an upload is all or nothing, and a download gives it back. After an upload that is answered as done the
  file holds the uploaded bytes, and downloading it returns them when they are at most 3 MiB, otherwise an
  error with code \<open>ResourceExhausted\<close>; after an upload that is answered with an error the file is as it was.
  Nothing else changes but one temporary file.\<close>

theorem upload_download:
  assumes "guest_files (g_host g) fsv (g_temp g) dest (g_Open g)"
    and u: "handleRequest g \<lparr> aq_Id = i, aq_Payload = AReq_UploadFile data dest \<rparr> (ps, w) = {((ps', w'), [r])}"
  shows "ps' = ps \<and> ar_Id r = i \<and> (\<exists>p. \<forall>q. q \<notin> {dest, p} \<longrightarrow> fsv w' q = fsv w q)
    \<and> (if ar_Payload r = AResp_UploadFile
       then fsv w' dest = Some data \<and> (\<exists>d. handleRequest g \<lparr> aq_Id = j, aq_Payload = AReq_DownloadFile dest \<rparr> (ps', w') = {((ps', w'), [d])}
          \<and> ar_Id d = j
          \<and> (if length data \<le> 3145728 then ar_Payload d = AResp_DownloadFile data
             else \<exists>m. ar_Payload d = AResp_Error ResourceExhausted m))
       else (\<exists>c m. ar_Payload r = AResp_Error c m) \<and> fsv w' dest = fsv w dest)"
proof -
  obtain w1 x where x: "atomicWriteFile (g_host g) (g_temp g) dest data uploadFileMode w = (w1, x)" by fastforce
  then have e: "ps' = ps" "w' = w1" "r = uploadResponse i x" using u by (simp_all add: handleRequest_def)
  note spec = guest_files.atomicWriteFile_spec [OF assms(1) x]
  show ?thesis
  proof (cases x)
    case (Inl err)
    then show ?thesis using spec e by (simp add: uploadResponse_def errorResponse_def)
  next
    case (Inr v)
    then have f: "fsv w1 dest = Some data" using spec by simp
    show ?thesis
      using spec e Inr
      by (simp add: handleRequest_def guest_files.readFileCapped_file [OF assms(1) f] uploadResponse_def downloadResponse_def
          errorResponse_def maxDownloadFileSize_def too_large_code [simplified])
  qed
qed

theorem upload_download_witness:
  "\<exists>w r. handleRequest mem_guest \<lparr> aq_Id = 1, aq_Payload = AReq_UploadFile [7, 8] ''/data/f'' \<rparr> (Map.empty, wit_guest_fs)
      = {((Map.empty, w), [r])} \<and> mf_files w ''/data/f'' = Some [7, 8]"
proof -
  have ok: "snd (atomicWriteFile (g_host mem_guest) (g_temp mem_guest) ''/data/f'' [7, 8] uploadFileMode wit_guest_fs) = Inr ()"
    by code_simp
  then obtain w where u: "handleRequest mem_guest \<lparr> aq_Id = 1, aq_Payload = AReq_UploadFile [7, 8] ''/data/f'' \<rparr>
      (Map.empty, wit_guest_fs) = {((Map.empty, w), [uploadResponse 1 (Inr ())])}"
    by (cases "atomicWriteFile (g_host mem_guest) (g_temp mem_guest) ''/data/f'' [7, 8] uploadFileMode wit_guest_fs")
      (simp add: handleRequest_def)
  have "guest_files (g_host mem_guest) mf_files (g_temp mem_guest) ''/data/f'' (g_Open mem_guest)"
    using mgf.guest_files_axioms by (simp add: mem_guest_def)
  from upload_download [OF this u, of 2] show ?thesis
    by (intro exI [of _ w] exI [of _ "uploadResponse 1 (Inr ())"]) (simp add: u uploadResponse_def)
qed

end
