(* ===== verification/Dynamo.thy ===== *)
theory Dynamo
  imports Prelude
begin

text \<open>
  DynamoDB and the protobuf runtime as the api-server uses them. Both are outside the repository:
  the client is a record of operations on an abstract world \<open>'w\<close>, bytes are an abstract type
  \<open>'b\<close>, and the locale \<open>dynamo_table\<close> states the documented behaviour relied on: conditional puts
  are atomic, a failed condition reports the stored item (or none, on emulators that do not
  support it), a consistent read returns the stored item, and after any other error the write
  may or may not have been applied. Condition expressions are kept as syntax trees with their
  placeholder values substituted.
\<close>

section \<open>Items and conditions\<close>

datatype 'b attr = AS string | AN string | AB 'b

type_synonym 'b item = "string \<rightharpoonup> 'b attr"

datatype 'b cond =
    AttributeNotExists string
  | AttributeExists string
  | AttrEq string "'b attr"
  | AttrIn string "'b attr list"
  | CondAnd "'b cond" "'b cond"
  | CondOr "'b cond" "'b cond"

fun holds :: "'b cond \<Rightarrow> 'b item \<Rightarrow> bool" where
  "holds (AttributeNotExists a) it = (it a = None)"
| "holds (AttributeExists a) it = (it a \<noteq> None)"
| "holds (AttrEq a v) it = (it a = Some v)"
| "holds (AttrIn a vs) it = (case it a of None \<Rightarrow> False | Some v \<Rightarrow> v \<in> set vs)"
| "holds (CondAnd c d) it = (holds c it \<and> holds d it)"
| "holds (CondOr c d) it = (holds c it \<or> holds d it)"

datatype 'b put_result = PutOk | CondFailed "'b item" | PutErr goerr

record 'b QueryInput =
  qi_TableName :: string
  qi_IndexName :: string
  qi_HkName :: string
  qi_HkValue :: string
  qi_ScanIndexForward :: bool
  qi_Limit :: int
  qi_ExclusiveStartKey :: "'b item"

record ('w, 'b) dynamo_client =
  PutItem :: "'w \<Rightarrow> string \<Rightarrow> 'b item \<Rightarrow> 'b cond \<Rightarrow> 'w \<times> 'b put_result"
  GetItem :: "'w \<Rightarrow> string \<Rightarrow> string \<Rightarrow> string \<Rightarrow> 'b item result"
  DeleteItem :: "'w \<Rightarrow> string \<Rightarrow> string \<Rightarrow> string \<Rightarrow> 'w \<times> unit result"
  Query :: "'w \<Rightarrow> 'b QueryInput \<Rightarrow> ('b item list \<times> 'b item) result"

section \<open>Protobuf encoding and digest\<close>

record ('m, 'b) codec =
  Marshal :: "'m \<Rightarrow> 'b result"
  MarshalDeterministic :: "'m \<Rightarrow> 'b result"
  Unmarshal :: "'b \<Rightarrow> 'm result"
  Sum256 :: "'b \<Rightarrow> 'b"

section \<open>The contract\<close>

definition stored_item :: "(string \<rightharpoonup> 'b item) \<Rightarrow> string \<Rightarrow> 'b item" where
  "stored_item r k = (case r k of None \<Rightarrow> Map.empty | Some it \<Rightarrow> it)"

locale dynamo_table =
  fixes client :: "('w, 'b) dynamo_client"
    and table :: string
    and key :: string
    and rows :: "'w \<Rightarrow> string \<rightharpoonup> 'b item"
  assumes put_ok: "PutItem client w table it cnd = (w', PutOk) \<Longrightarrow> it key = Some (AS k) \<Longrightarrow>
      holds cnd (stored_item (rows w) k) \<and> rows w' = (rows w)(k \<mapsto> it)"
    and put_cond: "PutItem client w table it cnd = (w', CondFailed old) \<Longrightarrow> it key = Some (AS k) \<Longrightarrow>
      rows w' = rows w \<and> \<not> holds cnd (stored_item (rows w) k) \<and>
      (old = Map.empty \<or> old = stored_item (rows w) k)"
    and put_err: "PutItem client w table it cnd = (w', PutErr e) \<Longrightarrow> it key = Some (AS k) \<Longrightarrow>
      rows w' = rows w \<or> holds cnd (stored_item (rows w) k) \<and> rows w' = (rows w)(k \<mapsto> it)"
    and get_ok: "GetItem client w table key k = Inr it \<Longrightarrow> it = stored_item (rows w) k"
    and delete_ok: "DeleteItem client w table key k = (w', Inr ()) \<Longrightarrow> rows w' = (rows w)(k := None)"
    and delete_err: "DeleteItem client w table key k = (w', Inl e) \<Longrightarrow>
      rows w' = rows w \<or> rows w' = (rows w)(k := None)"
begin

lemma get_stored:
  "isOk (GetItem client w table key k) \<Longrightarrow> GetItem client w table key k = Inr (stored_item (rows w) k)"
  by (cases "GetItem client w table key k") (simp_all add: get_ok)

lemma put_effect:
  assumes "PutItem client w table it cnd = (w', res)" "it key = Some (AS k)"
  shows "rows w' = rows w \<or> holds cnd (stored_item (rows w) k) \<and> rows w' = (rows w)(k \<mapsto> it)"
proof (cases res)
  case PutOk
  from put_ok [OF assms [unfolded PutOk]] show ?thesis by simp
next
  case (CondFailed old)
  from put_cond [OF assms [unfolded CondFailed]] show ?thesis by simp
next
  case (PutErr e)
  from put_err [OF assms [unfolded PutErr]] show ?thesis .
qed

end

locale faithful_codec =
  fixes cd :: "('m, 'b) codec"
  assumes unmarshal_marshal: "Marshal cd m = Inr b \<Longrightarrow> Unmarshal cd b = Inr m"

section \<open>A table in memory\<close>

definition mem_client :: "string \<Rightarrow> (string \<rightharpoonup> 'b item, 'b) dynamo_client" where
  "mem_client key =
    \<lparr> PutItem = \<lambda>w t it cnd.
        (case it key of
           Some (AS k) \<Rightarrow> (if holds cnd (stored_item w k) then (w(k \<mapsto> it), PutOk)
                           else (w, CondFailed (stored_item w k)))
         | _ \<Rightarrow> (w, PutErr (New ''ValidationException''))),
      GetItem = \<lambda>w t ka k. Inr (stored_item w k),
      DeleteItem = \<lambda>w t ka k. (w(k := None), Inr ()),
      Query = \<lambda>w q. Inr ([], Map.empty) \<rparr>"

interpretation mem_table: dynamo_table "mem_client key" table key "\<lambda>w. w"
  by unfold_locales (auto simp: mem_client_def split: if_splits)

definition id_codec :: "('m, 'm) codec" where
  "id_codec = \<lparr> Marshal = Inr, MarshalDeterministic = Inr, Unmarshal = Inr, Sum256 = (\<lambda>b. b) \<rparr>"

interpretation idc: faithful_codec id_codec
  by unfold_locales (simp add: id_codec_def)

end
