(* ===== verification/Entity_Store.thy ===== *)
theory Entity_Store
  imports Dynamo
begin

text \<open>
  What the node table and the snapshot table have in common: a row is the item of a message, stored under
  the id of the message, with the encoding of the message and a digest of its content among its
  attributes. The locale \<open>entity_table\<close> takes the functions of one package that build and read items, and
  shows what a conditional put does to the messages stored.
\<close>

section \<open>Well-formed rows and the messages they hold\<close>

definition entity_row ::
  "('m \<Rightarrow> 'b \<Rightarrow> 'b item result) \<Rightarrow> ('m \<Rightarrow> 'b result) \<Rightarrow> ('m \<Rightarrow> string) \<Rightarrow> string \<Rightarrow> 'b item \<Rightarrow> bool" where
  "entity_row toIt dig ident k it = (\<exists>m dg. toIt m dg = Inr it \<and> dig m = Inr dg \<and> ident m = k)"

definition entity_rows ::
  "('m \<Rightarrow> 'b \<Rightarrow> 'b item result) \<Rightarrow> ('m \<Rightarrow> 'b result) \<Rightarrow> ('m \<Rightarrow> string) \<Rightarrow> (string \<rightharpoonup> 'b item) \<Rightarrow> bool" where
  "entity_rows toIt dig ident r = (\<forall>k it. r k = Some it \<longrightarrow> entity_row toIt dig ident k it)"

definition entity_view ::
  "('b item \<Rightarrow> string \<Rightarrow> 'm result) \<Rightarrow> (string \<rightharpoonup> 'b item) \<Rightarrow> string \<rightharpoonup> 'm" where
  "entity_view fromIt r k =
    (case r k of None \<Rightarrow> None | Some it \<Rightarrow> (case fromIt it k of Inl _ \<Rightarrow> None | Inr m \<Rightarrow> Some m))"

definition digest_attr :: "string \<Rightarrow> 'b item \<Rightarrow> 'b option" where
  "digest_attr name it = (case it name of Some (AB b) \<Rightarrow> Some b | _ \<Rightarrow> None)"

section \<open>The table of one kind of message\<close>

locale entity_table = dynamo_table client table key rows
  for client :: "('w, 'b) dynamo_client" and table key :: string and rows :: "'w \<Rightarrow> string \<rightharpoonup> 'b item" +
  fixes toIt :: "'m \<Rightarrow> 'b \<Rightarrow> 'b item result"
    and fromIt :: "'b item \<Rightarrow> string \<Rightarrow> 'm result"
    and dig :: "'m \<Rightarrow> 'b result"
    and ident :: "'m \<Rightarrow> string"
    and digestName :: string
  assumes item_key: "toIt m dg = Inr it \<Longrightarrow> it key = Some (AS (ident m))"
    and item_digest: "toIt m dg = Inr it \<Longrightarrow> it digestName = Some (AB dg)"
    and item_read: "toIt m dg = Inr it \<Longrightarrow> fromIt it k = Inr m"
begin

abbreviation good :: "'w \<Rightarrow> bool" where "good w \<equiv> entity_rows toIt dig ident (rows w)"

abbreviation view :: "'w \<Rightarrow> string \<rightharpoonup> 'm" where "view w \<equiv> entity_view fromIt (rows w)"

lemma item_nonempty: "toIt m dg = Inr it \<Longrightarrow> it \<noteq> Map.empty"
  using item_key by fastforce

lemma stored:
  assumes "good w" "rows w k = Some it"
  obtains m dg where "toIt m dg = Inr it" "dig m = Inr dg" "ident m = k" "view w k = Some m" "it \<noteq> Map.empty"
proof -
  from assms obtain m dg where m: "toIt m dg = Inr it" "dig m = Inr dg" "ident m = k"
    unfolding entity_rows_def entity_row_def by blast
  moreover have "view w k = Some m" using assms(2) item_read [OF m(1)] by (simp add: entity_view_def)
  ultimately show thesis using that item_nonempty [OF m(1)] by blast
qed

lemma view_None: "good w \<Longrightarrow> view w k = None \<longleftrightarrow> rows w k = None"
  using stored by (metis entity_view_def option.case(1) option.distinct(1) option.exhaust)

lemma view_ident: "good w \<Longrightarrow> view w k = Some m \<Longrightarrow> ident m = k"
  using stored view_None by (metis option.distinct(1) option.exhaust option.inject)

lemma stored_item_empty: "good w \<Longrightarrow> stored_item (rows w) k = Map.empty \<longleftrightarrow> view w k = None"
  by (cases "rows w k") (auto simp: stored_item_def view_None elim!: stored)

lemma absent: "good w \<Longrightarrow> holds (AttributeNotExists key) (stored_item (rows w) k) \<longleftrightarrow> view w k = None"
  by (cases "rows w k") (auto simp: stored_item_def view_None item_key elim!: stored)

lemma put_view:
  assumes "good w" "toIt m dg = Inr it" "dig m = Inr dg" "rows w' = (rows w)(ident m \<mapsto> it)"
  shows "good w' \<and> view w' = (view w)(ident m \<mapsto> m)"
proof -
  have "entity_row toIt dig ident (ident m) it" using assms by (auto simp: entity_row_def)
  then show ?thesis using assms item_read [OF assms(2)] by (auto simp: entity_rows_def entity_view_def)
qed

lemma put_cases:
  assumes "good w" "toIt m dg = Inr it" "dig m = Inr dg" "PutItem client w table it cnd = (w', res)"
  shows "good w' \<and> (view w' = view w \<or> holds cnd (stored_item (rows w) (ident m)) \<and> view w' = (view w)(ident m \<mapsto> m))"
  using put_effect [OF assms(4) item_key [OF assms(2)]] put_view [OF assms(1,2,3)] assms(1) by metis

lemma put_stored:
  assumes "good w" "toIt m dg = Inr it" "dig m = Inr dg" "PutItem client w table it cnd = (w', PutOk)"
  shows "holds cnd (stored_item (rows w) (ident m)) \<and> view w' = (view w)(ident m \<mapsto> m)"
  using put_ok [OF assms(4) item_key [OF assms(2)]] put_view [OF assms(1,2,3)] by blast

lemma put_refused:
  assumes "toIt m dg = Inr it" "PutItem client w table it cnd = (w', CondFailed old)"
  shows "rows w' = rows w \<and> \<not> holds cnd (stored_item (rows w) (ident m)) \<and> (old = Map.empty \<or> old = stored_item (rows w) (ident m))"
  using put_cond [OF assms(2) item_key [OF assms(1)]] by blast

text \<open>A stored digest that is the digest of a message shows a stored message with the same digest.\<close>

lemma digest_stored:
  assumes "good w" "digest_attr digestName (stored_item (rows w) k) = Some dg"
  obtains m where "view w k = Some m" "dig m = Inr dg"
proof (cases "rows w k")
  case None
  with assms(2) show thesis by (simp add: stored_item_def digest_attr_def)
next
  case (Some it)
  then obtain m dg' where m: "toIt m dg' = Inr it" "dig m = Inr dg'" "view w k = Some m" by (rule stored [OF assms(1)])
  with item_digest [OF m(1)] assms(2) Some that show thesis by (simp add: stored_item_def digest_attr_def)
qed

text \<open>The digest read from a row is that of the message in it.\<close>

lemma stored_digest:
  assumes "good w" "view w k = Some m"
  obtains dg where "dig m = Inr dg" "digest_attr digestName (stored_item (rows w) k) = Some dg"
proof -
  obtain it where it: "rows w k = Some it" using view_None [OF assms(1), of k] assms(2) by auto
  then obtain m' dg where m: "toIt m' dg = Inr it" "dig m' = Inr dg" "view w k = Some m'" by (rule stored [OF assms(1)])
  with assms(2) item_digest [OF m(1)] it that show thesis by (simp add: stored_item_def digest_attr_def)
qed

end

end
