(* ===== verification/Sandbox_DB.thy ===== *)
theory Sandbox_DB
  imports Protos Dynamo
begin

text \<open>
  Persistence of sandboxes, \<open>api-server/pkg/db/sandbox\<close>: the item layout, the conditional writes of
  \<open>Create\<close> and \<open>Update\<close> with their idempotency and conflict diagnosis, \<open>Get\<close>, and the index choice
  of \<open>List\<close>. The pointer argument the Go methods mutate in place is returned on success; the wall
  clock is an argument. The locale \<open>sandbox_db\<close> is the contract of the Go interface \<open>sandbox.DB\<close>; the
  DynamoDB implementation satisfies it whenever the table does (\<open>sublocale\<close> below).
\<close>

section \<open>Errors\<close>

definition ErrAlreadyExists :: goerr where
  "ErrAlreadyExists = New ''entity already exists''"

definition ErrNotFound :: goerr where
  "ErrNotFound = New ''entity not found''"

definition ErrVersionConflict :: goerr where
  "ErrVersionConflict = New ''entity version conflict''"

definition ErrInvalidListOptions :: goerr where
  "ErrInvalidListOptions = New ''invalid list options''"

definition ErrInvalidContinuationToken :: goerr where
  "ErrInvalidContinuationToken = New ''invalid continuation token''"

definition ErrInvalidPhaseTransition :: goerr where
  "ErrInvalidPhaseTransition = New ''invalid sandbox phase transition''"

section \<open>The item of a sandbox\<close>

definition attrSandboxID :: string where "attrSandboxID = ''sandbox_id''"
definition attrSandboxNamespace :: string where "attrSandboxNamespace = ''sandbox_namespace''"
definition attrSandboxStatusPhase :: string where "attrSandboxStatusPhase = ''sandbox_status_phase''"
definition attrNodeRefID :: string where "attrNodeRefID = ''node_ref_id''"
definition attrGSILmtSK :: string where "attrGSILmtSK = ''gsi_lmt_sk''"
definition attrGSINamespacePhaseHK :: string where "attrGSINamespacePhaseHK = ''gsi_namespace_phase_hk''"
definition attrGSINamespaceNodeHK :: string where "attrGSINamespaceNodeHK = ''gsi_namespace_node_hk''"
definition attrGSINodePhaseHK :: string where "attrGSINodePhaseHK = ''gsi_node_phase_hk''"
definition attrGSINamespaceNodePhaseHK :: string where
  "attrGSINamespaceNodePhaseHK = ''gsi_namespace_node_phase_hk''"
definition attrSandboxVersion :: string where "attrSandboxVersion = ''sandbox_version''"
definition attrSandboxPB :: string where "attrSandboxPB = ''sandbox_pb''"
definition attrSandboxContentDigest :: string where "attrSandboxContentDigest = ''sandbox_content_digest''"

lemmas attr_names = attrSandboxID_def attrSandboxNamespace_def attrSandboxStatusPhase_def
  attrNodeRefID_def attrGSILmtSK_def attrGSINamespacePhaseHK_def attrGSINamespaceNodeHK_def
  attrGSINodePhaseHK_def attrGSINamespaceNodePhaseHK_def attrSandboxVersion_def attrSandboxPB_def
  attrSandboxContentDigest_def

definition initialVersion :: int64 where
  "initialVersion = 1"

definition GetNamespace :: "Sandbox \<Rightarrow> string" where
  "GetNamespace sb = sm_Namespace (sb_Metadata sb)"

definition gsiLmtSK :: "Sandbox \<Rightarrow> string" where
  "gsiLmtSK sb =
    RFC3339Nano (case sm_LastModifiedAt (sb_Metadata sb) of None \<Rightarrow> 0 | Some t \<Rightarrow> t) @ ''#'' @ GetId sb"

definition gsiNamespacePhaseHK :: "Sandbox \<Rightarrow> string" where
  "gsiNamespacePhaseHK sb = GetNamespace sb @ ''#'' @ PhaseString (GetStatusPhase sb)"

definition gsiNamespaceNodeHK :: "Sandbox \<Rightarrow> string" where
  "gsiNamespaceNodeHK sb = GetNamespace sb @ ''#'' @ GetNodeId sb"

definition gsiNodePhaseHK :: "Sandbox \<Rightarrow> string" where
  "gsiNodePhaseHK sb = GetNodeId sb @ ''#'' @ PhaseString (GetStatusPhase sb)"

definition gsiNamespaceNodePhaseHK :: "Sandbox \<Rightarrow> string" where
  "gsiNamespaceNodePhaseHK sb =
    GetNamespace sb @ ''#'' @ GetNodeId sb @ ''#'' @ PhaseString (GetStatusPhase sb)"

definition canonicalSandbox :: "Sandbox \<Rightarrow> Sandbox" where
  "canonicalSandbox sb =
    (setVersion 0 (setLastModifiedAt None (setCreatedAt None sb)))\<lparr> sb_Node := None \<rparr>"

definition contentDigest :: "(Sandbox, 'b) codec \<Rightarrow> Sandbox \<Rightarrow> 'b result" where
  "contentDigest cd sb =
    (case MarshalDeterministic cd (canonicalSandbox sb) of
       Inl err \<Rightarrow> Inl (wrapf ''marshal canonical sandbox'' err)
     | Inr encoded \<Rightarrow> Inr (Sum256 cd encoded))"

definition digestFromAttrs :: "'b item \<Rightarrow> 'b option" where
  "digestFromAttrs attrs = (case attrs attrSandboxContentDigest of Some (AB b) \<Rightarrow> Some b | _ \<Rightarrow> None)"

definition stringFromAttrs :: "'b item \<Rightarrow> string \<Rightarrow> string option" where
  "stringFromAttrs attrs name =
    (case attrs name of Some (AS v) \<Rightarrow> Some v | Some (AN v) \<Rightarrow> Some v | _ \<Rightarrow> None)"

definition toItem :: "(Sandbox, 'b) codec \<Rightarrow> Sandbox \<Rightarrow> 'b \<Rightarrow> 'b item result" where
  "toItem cd sb digest =
    (case Marshal cd sb of
       Inl err \<Rightarrow> Inl (wrapf ''marshal sandbox'' err)
     | Inr pb \<Rightarrow>
       (let item = [attrSandboxID \<mapsto> AS (GetId sb), attrSandboxNamespace \<mapsto> AS (GetNamespace sb),
              attrSandboxStatusPhase \<mapsto> AS (PhaseString (GetStatusPhase sb)),
              attrGSILmtSK \<mapsto> AS (gsiLmtSK sb), attrGSINamespacePhaseHK \<mapsto> AS (gsiNamespacePhaseHK sb),
              attrSandboxVersion \<mapsto> AN (fmt_d (GetVersion sb)), attrSandboxPB \<mapsto> AB pb,
              attrSandboxContentDigest \<mapsto> AB digest]
        in Inr (if GetNodeId sb \<noteq> []
                then item(attrNodeRefID \<mapsto> AS (GetNodeId sb),
                          attrGSINamespaceNodeHK \<mapsto> AS (gsiNamespaceNodeHK sb),
                          attrGSINodePhaseHK \<mapsto> AS (gsiNodePhaseHK sb),
                          attrGSINamespaceNodePhaseHK \<mapsto> AS (gsiNamespaceNodePhaseHK sb))
                else item)))"

definition sandboxFromAttrs :: "(Sandbox, 'b) codec \<Rightarrow> 'b item \<Rightarrow> string \<Rightarrow> Sandbox result" where
  "sandboxFromAttrs cd attrs sid =
    (case attrs attrSandboxPB of
       None \<Rightarrow> Inl (New (''sandbox '' @ quote sid @ '': stored row has no '' @ attrSandboxPB @ '' attribute''))
     | Some (AB b) \<Rightarrow>
         (case Unmarshal cd b of
            Inl err \<Rightarrow> Inl (Wrap (''sandbox '' @ quote sid @ '': unmarshal stored row: '') err [])
          | Inr sb \<Rightarrow> Inr sb)
     | Some _ \<Rightarrow> Inl (New (''sandbox '' @ quote sid @ '': stored '' @ attrSandboxPB @ '' is not bytes'')))"

section \<open>Reads and conditional writes\<close>

record ('w, 'b) dynamoDB =
  dd_client :: "('w, 'b) dynamo_client"
  dd_tableName :: string
  dd_codec :: "(Sandbox, 'b) codec"

definition sandboxErr :: "string \<Rightarrow> string \<Rightarrow> goerr \<Rightarrow> goerr" where
  "sandboxErr sid what err = Wrap (''sandbox '' @ quote sid @ '': '' @ what) err []"

definition fetchStoredItem :: "('w, 'b) dynamoDB \<Rightarrow> 'w \<Rightarrow> 'b item \<Rightarrow> string \<Rightarrow> 'b item result" where
  "fetchStoredItem d w cceItem sid =
    (if cceItem \<noteq> Map.empty then Inr cceItem
     else GetItem (dd_client d) w (dd_tableName d) attrSandboxID sid)"

definition sandbox_Create ::
  "('w, 'b) dynamoDB \<Rightarrow> Timestamp \<Rightarrow> 'w \<Rightarrow> Sandbox \<Rightarrow> 'w \<times> Sandbox result" where
  "sandbox_Create d now w sb0 =
    (let sid = GetId sb0;
         sb1 = setLastModifiedAt (Some now) (setCreatedAt (Some now) sb0)
     in case contentDigest (dd_codec d) sb1 of
          Inl err \<Rightarrow> (w, Inl (sandboxErr sid ''build digest: '' err))
        | Inr digest \<Rightarrow>
     (let sb = setVersion initialVersion sb1 in
      case toItem (dd_codec d) sb digest of
          Inl err \<Rightarrow> (w, Inl (sandboxErr sid ''build item: '' err))
        | Inr item \<Rightarrow>
      (case PutItem (dd_client d) w (dd_tableName d) item (AttributeNotExists attrSandboxID) of
          (w', PutOk) \<Rightarrow> (w', Inr sb)
        | (w', PutErr err) \<Rightarrow> (w', Inl (sandboxErr sid ''put item: '' err))
        | (w', CondFailed cceItem) \<Rightarrow>
          (case fetchStoredItem d w' cceItem sid of
             Inl err \<Rightarrow> (w', Inl (sandboxErr sid ''read stored row after conflict: '' err))
           | Inr stored \<Rightarrow>
             (case digestFromAttrs stored of
                None \<Rightarrow> (w', Inl (New (''sandbox '' @ quote sid @ '': stored row has no content digest'')))
              | Some storedDigest \<Rightarrow>
                if digest = storedDigest then (w', Inr sb)
                else (w', Inl (sandboxErr sid [] ErrAlreadyExists)))))))"

definition sandbox_Get :: "('w, 'b) dynamoDB \<Rightarrow> 'w \<Rightarrow> string \<Rightarrow> Sandbox result" where
  "sandbox_Get d w sid =
    (case GetItem (dd_client d) w (dd_tableName d) attrSandboxID sid of
       Inl err \<Rightarrow> Inl (sandboxErr sid ''get item: '' err)
     | Inr item \<Rightarrow>
         if item = Map.empty then Inl (sandboxErr sid [] ErrNotFound)
         else sandboxFromAttrs (dd_codec d) item sid)"

definition requiredPriorPhases :: "Phase \<Rightarrow> Phase list" where
  "requiredPriorPhases targetStatus = (case targetStatus of
     PHASE_PAUSING \<Rightarrow> [PHASE_RUNNING]
   | PHASE_RESUMING \<Rightarrow> [PHASE_PAUSED]
   | PHASE_SNAPSHOTTING \<Rightarrow> [PHASE_RUNNING, PHASE_PAUSED]
   | _ \<Rightarrow> [])"

definition diagnoseUpdateConflict :: "string \<Rightarrow> int64 \<Rightarrow> Phase \<Rightarrow> 'b item \<Rightarrow> goerr" where
  "diagnoseUpdateConflict sid expectedVersion targetStatus stored =
    (let allowed = requiredPriorPhases targetStatus;
         conflict = (case stringFromAttrs stored attrSandboxVersion of
            Some storedVersion \<Rightarrow>
              sandboxErr sid (''expected version '' @ fmt_d expectedVersion @ '' but stored version is ''
                             @ storedVersion @ '': '') ErrVersionConflict
          | None \<Rightarrow> sandboxErr sid [] ErrVersionConflict)
     in if allowed \<noteq> [] then
          (case stringFromAttrs stored attrSandboxStatusPhase of
             Some savedPhase \<Rightarrow>
               if savedPhase \<notin> set (map PhaseString allowed)
               then sandboxErr sid (''cannot transition to status '' @ PhaseString targetStatus
                      @ '' from saved phase '' @ savedPhase @ '' (requires one of [''
                      @ Join (map PhaseString allowed) '', '' @ '']): '') ErrInvalidPhaseTransition
               else conflict
           | None \<Rightarrow> conflict)
        else conflict)"

definition updateCondition :: "int64 \<Rightarrow> Phase \<Rightarrow> 'b cond" where
  "updateCondition expectedVersion targetStatus =
    (let base = CondAnd (AttributeExists attrSandboxID)
                        (AttrEq attrSandboxVersion (AN (fmt_d expectedVersion)));
         allowed = requiredPriorPhases targetStatus
     in if allowed \<noteq> []
        then CondAnd base (AttrIn attrSandboxStatusPhase (map (\<lambda>p. AS (PhaseString p)) allowed))
        else base)"

definition sandbox_Update ::
  "('w, 'b) dynamoDB \<Rightarrow> Timestamp \<Rightarrow> 'w \<Rightarrow> Sandbox \<Rightarrow> 'w \<times> Sandbox result" where
  "sandbox_Update d now w sb0 =
    (let sid = GetId sb0; expectedVersion = GetVersion sb0; targetStatus = GetStatusPhase sb0;
         sb1 = setLastModifiedAt (Some now) sb0
     in case contentDigest (dd_codec d) sb1 of
          Inl err \<Rightarrow> (w, Inl (sandboxErr sid ''build digest: '' err))
        | Inr digest \<Rightarrow>
     (let sb = setVersion (wrap64 (expectedVersion + 1)) sb1 in
      case toItem (dd_codec d) sb digest of
          Inl err \<Rightarrow> (w, Inl (sandboxErr sid ''build item: '' err))
        | Inr item \<Rightarrow>
      (case PutItem (dd_client d) w (dd_tableName d) item (updateCondition expectedVersion targetStatus) of
          (w', PutOk) \<Rightarrow> (w', Inr sb)
        | (w', PutErr err) \<Rightarrow> (w', Inl (sandboxErr sid ''put item: '' err))
        | (w', CondFailed cceItem) \<Rightarrow>
          (case fetchStoredItem d w' cceItem sid of
             Inl err \<Rightarrow> (w', Inl (sandboxErr sid ''read stored row after conflict: '' err))
           | Inr stored \<Rightarrow>
             if stored = Map.empty then (w', Inl (sandboxErr sid [] ErrNotFound))
             else if digestFromAttrs stored = Some digest then (w', Inr sb)
             else (w', Inl (diagnoseUpdateConflict sid expectedVersion targetStatus stored))))))"

section \<open>list.go\<close>

datatype SandboxOrder = ORDER_UNSPECIFIED | ORDER_NEWEST_FIRST | ORDER_OLDEST_FIRST

record ListOptions =
  lo_Namespace :: string
  lo_NodeID :: string
  lo_StatusPhase :: Phase
  lo_SortOrder :: SandboxOrder
  lo_PageSize :: int
  lo_ContinuationToken :: string

definition scanIndexForward :: "SandboxOrder \<Rightarrow> bool result" where
  "scanIndexForward order = (case order of
     ORDER_NEWEST_FIRST \<Rightarrow> Inr False
   | ORDER_OLDEST_FIRST \<Rightarrow> Inr True
   | _ \<Rightarrow> Inl (wrapf ''sort_order must be NEWEST_FIRST or OLDEST_FIRST'' ErrInvalidListOptions))"

definition selectIndex :: "ListOptions \<Rightarrow> string \<times> string \<times> string" where
  "selectIndex opts =
    (let ns = lo_Namespace opts; node = lo_NodeID opts; ph = PhaseString (lo_StatusPhase opts);
         hasPhase = (lo_StatusPhase opts \<noteq> PHASE_UNSPECIFIED)
     in if ns \<noteq> [] \<and> node \<noteq> [] \<and> hasPhase
        then (''by_namespace_node_phase_index'', attrGSINamespaceNodePhaseHK, ns @ ''#'' @ node @ ''#'' @ ph)
        else if ns \<noteq> [] \<and> node \<noteq> []
        then (''by_namespace_node_index'', attrGSINamespaceNodeHK, ns @ ''#'' @ node)
        else if ns \<noteq> [] \<and> hasPhase
        then (''by_status_phase_index'', attrGSINamespacePhaseHK, ns @ ''#'' @ ph)
        else if ns \<noteq> []
        then (''by_namespace_index'', attrSandboxNamespace, ns)
        else if node \<noteq> [] \<and> hasPhase
        then (''by_node_phase_index'', attrGSINodePhaseHK, node @ ''#'' @ ph)
        else (''by_node_index'', attrNodeRefID, node))"

section \<open>The contract of \<open>sandbox.DB\<close>\<close>

text \<open>The stamps \<open>Create\<close> and \<open>Update\<close> put on their argument, and the state-machine guard.\<close>

definition created :: "Timestamp \<Rightarrow> Sandbox \<Rightarrow> Sandbox" where
  "created now sb = setVersion initialVersion (setLastModifiedAt (Some now) (setCreatedAt (Some now) sb))"

definition updated :: "Timestamp \<Rightarrow> Sandbox \<Rightarrow> Sandbox" where
  "updated now sb = setVersion (wrap64 (GetVersion sb + 1)) (setLastModifiedAt (Some now) sb)"

definition phase_allowed :: "Phase \<Rightarrow> Phase \<Rightarrow> bool" where
  "phase_allowed saved target = (requiredPriorPhases target = [] \<or> saved \<in> set (requiredPriorPhases target))"

locale sandbox_db =
  fixes create :: "Timestamp \<Rightarrow> 'w \<Rightarrow> Sandbox \<Rightarrow> 'w \<times> Sandbox result"
    and update :: "Timestamp \<Rightarrow> 'w \<Rightarrow> Sandbox \<Rightarrow> 'w \<times> Sandbox result"
    and get :: "'w \<Rightarrow> string \<Rightarrow> Sandbox result"
    and view :: "'w \<Rightarrow> string \<rightharpoonup> Sandbox"
    and ok :: "'w \<Rightarrow> bool"
    and same :: "Sandbox \<Rightarrow> Sandbox \<Rightarrow> bool"
  assumes create_ok: "ok w \<Longrightarrow> create now w sb = (w', Inr sb') \<Longrightarrow>
      ok w' \<and> sb' = created now sb \<and>
      (view w (GetId sb) = None \<and> view w' = (view w)(GetId sb \<mapsto> sb') \<or>
       (\<exists>st. view w (GetId sb) = Some st \<and> same st sb) \<and> view w' = view w)"
    and create_err: "ok w \<Longrightarrow> create now w sb = (w', Inl e) \<Longrightarrow>
      ok w' \<and> (view w' = view w \<or>
        view w (GetId sb) = None \<and> view w' = (view w)(GetId sb \<mapsto> created now sb))"
    and update_ok: "ok w \<Longrightarrow> update now w sb = (w', Inr sb') \<Longrightarrow>
      ok w' \<and> sb' = updated now sb \<and>
      (\<exists>st. view w (GetId sb) = Some st \<and>
        (GetVersion st = GetVersion sb \<and> phase_allowed (GetStatusPhase st) (GetStatusPhase sb)
           \<and> view w' = (view w)(GetId sb \<mapsto> sb') \<or>
         same st sb \<and> view w' = view w))"
    and update_err: "ok w \<Longrightarrow> update now w sb = (w', Inl e) \<Longrightarrow>
      ok w' \<and> (view w' = view w \<or>
        (\<exists>st. view w (GetId sb) = Some st \<and> GetVersion st = GetVersion sb
           \<and> phase_allowed (GetStatusPhase st) (GetStatusPhase sb)
           \<and> view w' = (view w)(GetId sb \<mapsto> updated now sb)))"
    and db_get_ok: "ok w \<Longrightarrow> get w sid = Inr st \<Longrightarrow> view w sid = Some st"
    and view_id: "ok w \<Longrightarrow> view w sid = Some st \<Longrightarrow> GetId st = sid"
begin

text \<open>An update touches one row, and only by storing the bumped argument over a row at the version
  the caller read and in a phase the state machine allows; whatever it returns, it keeps the
  invariant.\<close>

lemma update_effect:
  assumes "ok w" "update now w sb = (w', r)"
  shows "ok w' \<and> (view w' = view w \<or>
    (\<exists>st. view w (GetId sb) = Some st \<and> GetVersion st = GetVersion sb
       \<and> phase_allowed (GetStatusPhase st) (GetStatusPhase sb)
       \<and> view w' = (view w)(GetId sb \<mapsto> updated now sb)))"
proof (cases r)
  case (Inl e)
  from update_err [OF assms(1) assms(2) [unfolded Inl]] show ?thesis .
next
  case (Inr sb')
  from update_ok [OF assms(1) assms(2) [unfolded Inr]] show ?thesis by blast
qed

lemma create_effect:
  assumes "ok w" "create now w sb = (w', r)"
  shows "ok w' \<and> (view w' = view w \<or>
    view w (GetId sb) = None \<and> view w' = (view w)(GetId sb \<mapsto> created now sb))"
proof (cases r)
  case (Inl e)
  from create_err [OF assms(1) assms(2) [unfolded Inl]] show ?thesis .
next
  case (Inr sb')
  from create_ok [OF assms(1) assms(2) [unfolded Inr]] show ?thesis by blast
qed

text \<open>Optimistic locking: of two updates that read the same version, only one can be stored. After
  the first one is, the second one leaves the rows as they are, whatever it returns.\<close>

lemma no_lost_update:
  assumes "ok w" "update now1 w sb1 = (w1, r1)" "view w1 \<noteq> view w"
    and "update now2 w1 sb2 = (w2, r2)" "GetId sb2 = GetId sb1" "GetVersion sb2 = GetVersion sb1"
    and "in_int64 (GetVersion sb1)"
  shows "view w2 = view w1"
proof -
  from update_effect [OF assms(1,2)] assms(3)
  have ok1: "ok w1" and v1: "view w1 (GetId sb1) = Some (updated now1 sb1)" by auto
  have "wrap64 (GetVersion sb1 + 1) \<noteq> GetVersion sb1"
  proof (cases "GetVersion sb1 = 2 ^ 63 - 1")
    case True
    then show ?thesis by (simp add: wrap64_def)
  next
    case False
    then have "in_int64 (GetVersion sb1 + 1)" using assms(7) by (simp add: in_int64_def)
    then show ?thesis by (simp add: wrap64_id)
  qed
  then have "GetVersion (updated now1 sb1) \<noteq> GetVersion sb2"
    using assms(6) by (simp add: updated_def)
  with update_effect [OF ok1 assms(4)] v1 assms(5) show ?thesis by auto
qed

end

section \<open>The DynamoDB implementation\<close>

definition row_ok :: "(Sandbox, 'b) codec \<Rightarrow> string \<Rightarrow> 'b item \<Rightarrow> bool" where
  "row_ok cd k it = (\<exists>sb dg. toItem cd sb dg = Inr it \<and> contentDigest cd sb = Inr dg \<and> GetId sb = k)"

definition rows_ok :: "(Sandbox, 'b) codec \<Rightarrow> (string \<rightharpoonup> 'b item) \<Rightarrow> bool" where
  "rows_ok cd r = (\<forall>k it. r k = Some it \<longrightarrow> row_ok cd k it)"

definition row_view :: "(Sandbox, 'b) codec \<Rightarrow> (string \<rightharpoonup> 'b item) \<Rightarrow> string \<rightharpoonup> Sandbox" where
  "row_view cd r k = (case r k of None \<Rightarrow> None
     | Some it \<Rightarrow> (case sandboxFromAttrs cd it k of Inl _ \<Rightarrow> None | Inr sb \<Rightarrow> Some sb))"

definition same_digest :: "(Sandbox, 'b) codec \<Rightarrow> Sandbox \<Rightarrow> Sandbox \<Rightarrow> bool" where
  "same_digest cd st sb = (isOk (contentDigest cd sb) \<and> contentDigest cd st = contentDigest cd sb)"

lemma contentDigest_stamps [simp]:
  "contentDigest cd (setVersion v sb) = contentDigest cd sb"
  "contentDigest cd (setLastModifiedAt t sb) = contentDigest cd sb"
  "contentDigest cd (setCreatedAt t sb) = contentDigest cd sb"
  by (simp_all add: contentDigest_def canonicalSandbox_def getters)

lemma toItem_attrs:
  assumes "toItem cd sb dg = Inr it"
  shows "it attrSandboxID = Some (AS (GetId sb))"
    and "it attrSandboxVersion = Some (AN (fmt_d (GetVersion sb)))"
    and "it attrSandboxStatusPhase = Some (AS (PhaseString (GetStatusPhase sb)))"
    and "it attrSandboxContentDigest = Some (AB dg)"
    and "\<exists>pb. Marshal cd sb = Inr pb \<and> it attrSandboxPB = Some (AB pb)"
  using assms by (auto simp: toItem_def Let_def attr_names split: sum.splits if_splits)

lemma toItem_not_empty: "toItem cd sb dg = Inr it \<Longrightarrow> it \<noteq> Map.empty"
  using toItem_attrs(1) by fastforce

locale sandbox_dynamo = dynamo_table "dd_client d" "dd_tableName d" attrSandboxID rows
    + faithful_codec "dd_codec d"
  for d :: "('w, 'b) dynamoDB"
    and rows :: "'w \<Rightarrow> string \<rightharpoonup> 'b item"
begin

abbreviation cdc :: "(Sandbox, 'b) codec" where "cdc \<equiv> dd_codec d"

lemma fromAttrs_toItem:
  assumes "toItem cdc sb dg = Inr it"
  shows "sandboxFromAttrs cdc it k = Inr sb"
  using toItem_attrs(5) [OF assms] unmarshal_marshal by (auto simp: sandboxFromAttrs_def)

lemma stored_row:
  assumes "rows_ok cdc (rows w)" "rows w k = Some it"
  obtains st dg where "toItem cdc st dg = Inr it" "contentDigest cdc st = Inr dg" "GetId st = k"
    "row_view cdc (rows w) k = Some st" "it \<noteq> Map.empty"
proof -
  from assms have "row_ok cdc k it" by (simp add: rows_ok_def)
  then obtain st dg where *: "toItem cdc st dg = Inr it" "contentDigest cdc st = Inr dg" "GetId st = k"
    by (auto simp: row_ok_def)
  have "row_view cdc (rows w) k = Some st"
    using assms(2) fromAttrs_toItem [OF *(1)] by (simp add: row_view_def)
  then show thesis using that * toItem_not_empty [OF *(1)] by blast
qed

lemma view_None: "rows_ok cdc (rows w) \<Longrightarrow> row_view cdc (rows w) k = None \<longleftrightarrow> rows w k = None"
  using stored_row by (metis row_view_def option.case(1) option.distinct(1) option.exhaust)

lemma view_put:
  assumes "rows_ok cdc (rows w)" "toItem cdc sb dg = Inr it" "contentDigest cdc sb = Inr dg"
    and "rows w' = (rows w)(GetId sb \<mapsto> it)"
  shows "rows_ok cdc (rows w') \<and> row_view cdc (rows w') = (row_view cdc (rows w))(GetId sb \<mapsto> sb)"
proof
  have "row_ok cdc (GetId sb) it" using assms by (auto simp: row_ok_def)
  then show "rows_ok cdc (rows w')" using assms by (auto simp: rows_ok_def)
  show "row_view cdc (rows w') = (row_view cdc (rows w))(GetId sb \<mapsto> sb)"
    using assms(4) fromAttrs_toItem [OF assms(2)] by (auto simp: row_view_def)
qed

lemma fetched:
  assumes "rows_ok cdc (rows w)" "old = Map.empty \<or> old = stored_item (rows w) k"
    and "fetchStoredItem d w old k = Inr it"
  shows "it = stored_item (rows w) k"
  using assms get_ok by (auto simp: fetchStoredItem_def split: if_splits)

lemma update_cond_holds:
  assumes "toItem cdc st dg = Inr it"
  shows "holds (updateCondition v target) it \<longleftrightarrow>
    GetVersion st = v \<and> phase_allowed (GetStatusPhase st) target"
  using toItem_attrs [OF assms]
  by (auto simp: updateCondition_def phase_allowed_def Let_def)

lemma update_cond_empty: "\<not> holds (updateCondition v target) Map.empty"
  by (simp add: updateCondition_def Let_def)

lemma create_cond:
  assumes "rows_ok cdc (rows w)"
  shows "holds (AttributeNotExists attrSandboxID) (stored_item (rows w) k) \<longleftrightarrow> rows w k = None"
proof (cases "rows w k")
  case (Some it)
  then obtain st dg where "toItem cdc st dg = Inr it" by (rule stored_row [OF assms])
  from toItem_attrs(1) [OF this] Some show ?thesis by (simp add: stored_item_def)
qed (simp add: stored_item_def)

text \<open>The row a conditional put writes, and what is stored when the condition fails.\<close>

lemma Create_put:
  assumes ok: "rows_ok cdc (rows w)"
    and dg: "contentDigest cdc sb = Inr dg" and it: "toItem cdc (created now sb) dg = Inr it"
    and w': "rows w' = (rows w)(GetId sb \<mapsto> it)"
  shows "rows_ok cdc (rows w') \<and> row_view cdc (rows w') = (row_view cdc (rows w))(GetId sb \<mapsto> created now sb)"
  using view_put [OF ok it] dg w' by (simp add: created_def)

lemma Update_put:
  assumes ok: "rows_ok cdc (rows w)"
    and dg: "contentDigest cdc sb = Inr dg" and it: "toItem cdc (updated now sb) dg = Inr it"
    and w': "rows w' = (rows w)(GetId sb \<mapsto> it)"
  shows "rows_ok cdc (rows w') \<and> row_view cdc (rows w') = (row_view cdc (rows w))(GetId sb \<mapsto> updated now sb)"
  using view_put [OF ok it] dg w' by (simp add: updated_def)

lemma digest_stored:
  assumes "rows_ok cdc (rows w)" "digestFromAttrs (stored_item (rows w) k) = Some dg"
    and "contentDigest cdc sb = Inr dg"
  shows "\<exists>st. row_view cdc (rows w) k = Some st \<and> same_digest cdc st sb"
proof (cases "rows w k")
  case None
  with assms(2) show ?thesis by (simp add: stored_item_def digestFromAttrs_def)
next
  case (Some it)
  then obtain st dg' where *: "toItem cdc st dg' = Inr it" "contentDigest cdc st = Inr dg'"
    "row_view cdc (rows w) k = Some st" by (rule stored_row [OF assms(1)])
  with toItem_attrs(4) [OF *(1)] assms Some show ?thesis
    by (auto simp: same_digest_def stored_item_def digestFromAttrs_def)
qed

lemma Create_key: "toItem cdc (created now sb) dg = Inr it \<Longrightarrow> it attrSandboxID = Some (AS (GetId sb))"
  using toItem_attrs(1) by (fastforce simp: created_def)

lemma Update_key: "toItem cdc (updated now sb) dg = Inr it \<Longrightarrow> it attrSandboxID = Some (AS (GetId sb))"
  using toItem_attrs(1) by (fastforce simp: updated_def)

lemma Create_effect:
  assumes ok: "rows_ok cdc (rows w)" and c: "sandbox_Create d now w sb = (w', r)"
  shows "rows_ok cdc (rows w') \<and>
    (row_view cdc (rows w') = row_view cdc (rows w) \<or>
     row_view cdc (rows w) (GetId sb) = None \<and>
     row_view cdc (rows w') = (row_view cdc (rows w))(GetId sb \<mapsto> created now sb))"
proof -
  consider "w' = w" | dg it where
    "contentDigest cdc sb = Inr dg" "toItem cdc (created now sb) dg = Inr it"
    "\<exists>res. PutItem (dd_client d) w (dd_tableName d) it (AttributeNotExists attrSandboxID) = (w', res)"
    using c by (auto simp: sandbox_Create_def Let_def created_def split: sum.splits prod.splits
        put_result.splits option.splits if_splits)
  then show ?thesis
  proof cases
    case 1
    then show ?thesis using ok by simp
  next
    case (2 dg it)
    then obtain res where res:
      "PutItem (dd_client d) w (dd_tableName d) it (AttributeNotExists attrSandboxID) = (w', res)" by blast
    note k = Create_key [OF 2(2)]
    have "rows w' = rows w \<or> rows w (GetId sb) = None \<and> rows w' = (rows w)(GetId sb \<mapsto> it)"
      using put_effect [OF res k] create_cond [OF ok, of "GetId sb"] by blast
    then show ?thesis
      using Create_put [OF ok 2(1,2)] ok view_None [OF ok] by metis
  qed
qed

lemma Create_successE:
  assumes c: "sandbox_Create d now w sb = (w', Inr sb')"
  obtains dg it res where "contentDigest cdc sb = Inr dg" "toItem cdc (created now sb) dg = Inr it"
    "sb' = created now sb"
    "PutItem (dd_client d) w (dd_tableName d) it (AttributeNotExists attrSandboxID) = (w', res)"
    "res = PutOk \<or> (\<exists>old st. res = CondFailed old \<and>
        fetchStoredItem d w' old (GetId sb) = Inr st \<and> digestFromAttrs st = Some dg)"
proof (cases "contentDigest cdc sb")
  case (Inl e)
  with c show thesis by (simp add: sandbox_Create_def Let_def)
next
  case (Inr dg)
  show thesis
  proof (cases "toItem cdc (created now sb) dg")
    case (Inl e)
    with c Inr show thesis by (simp add: sandbox_Create_def Let_def created_def)
  next
    case it: (Inr it)
    obtain w1 res where put: "PutItem (dd_client d) w (dd_tableName d) it (AttributeNotExists attrSandboxID) = (w1, res)"
      by (cases "PutItem (dd_client d) w (dd_tableName d) it (AttributeNotExists attrSandboxID)")
    note c' = c [unfolded sandbox_Create_def Let_def contentDigest_stamps Inr sum.case
        created_def [symmetric] it put prod.case]
    have "w' = w1 \<and> sb' = created now sb \<and> (res = PutOk \<or> (\<exists>old st. res = CondFailed old \<and>
        fetchStoredItem d w1 old (GetId sb) = Inr st \<and> digestFromAttrs st = Some dg))"
      using c' by (auto split: put_result.splits sum.splits option.splits if_splits)
    then show thesis using that [OF Inr it] put by simp
  qed
qed

lemma Create_success:
  assumes ok: "rows_ok cdc (rows w)" and c: "sandbox_Create d now w sb = (w', Inr sb')"
  shows "sb' = created now sb \<and>
      (row_view cdc (rows w) (GetId sb) = None \<and>
         row_view cdc (rows w') = (row_view cdc (rows w))(GetId sb \<mapsto> sb') \<or>
       (\<exists>st. row_view cdc (rows w) (GetId sb) = Some st \<and> same_digest cdc st sb) \<and>
         row_view cdc (rows w') = row_view cdc (rows w))"
proof -
  from c obtain dg it res where dg: "contentDigest cdc sb = Inr dg"
    and it: "toItem cdc (created now sb) dg = Inr it" and sb': "sb' = created now sb"
    and put: "PutItem (dd_client d) w (dd_tableName d) it (AttributeNotExists attrSandboxID) = (w', res)"
    and res: "res = PutOk \<or> (\<exists>old st. res = CondFailed old \<and>
        fetchStoredItem d w' old (GetId sb) = Inr st \<and> digestFromAttrs st = Some dg)"
    by (rule Create_successE)
  note k = Create_key [OF it]
  from res show ?thesis
  proof
    assume "res = PutOk"
    with put_ok [OF put [unfolded this] k] create_cond [OF ok, of "GetId sb"]
    have "rows w (GetId sb) = None" "rows w' = (rows w)(GetId sb \<mapsto> it)" by simp_all
    with Create_put [OF ok dg it] view_None [OF ok] sb' show ?thesis by blast
  next
    assume "\<exists>old st. res = CondFailed old \<and>
        fetchStoredItem d w' old (GetId sb) = Inr st \<and> digestFromAttrs st = Some dg"
    then obtain old st where old: "res = CondFailed old" "fetchStoredItem d w' old (GetId sb) = Inr st"
      "digestFromAttrs st = Some dg" by blast
    from put_cond [OF put [unfolded old(1)] k] have same: "rows w' = rows w"
      and "old = Map.empty \<or> old = stored_item (rows w') (GetId sb)" by auto
    with ok old(2) have "st = stored_item (rows w) (GetId sb)"
      using fetched [of w' old "GetId sb" st] by simp
    with digest_stored [OF ok _ dg, of "GetId sb"] old(3) same sb' show ?thesis by simp
  qed
qed

lemma update_cond_stored:
  assumes "rows_ok cdc (rows w)" "holds (updateCondition v target) (stored_item (rows w) k)"
  shows "\<exists>st. row_view cdc (rows w) k = Some st \<and> GetVersion st = v
            \<and> phase_allowed (GetStatusPhase st) target"
proof (cases "rows w k")
  case None
  then show ?thesis using assms(2) by (simp add: stored_item_def update_cond_empty)
next
  case (Some it)
  then obtain st dg where "toItem cdc st dg = Inr it" "row_view cdc (rows w) k = Some st"
    by (rule stored_row [OF assms(1)])
  then show ?thesis using assms(2) Some update_cond_holds by (auto simp: stored_item_def)
qed

lemma Update_effect:
  assumes ok: "rows_ok cdc (rows w)" and c: "sandbox_Update d now w sb = (w', r)"
  shows "rows_ok cdc (rows w') \<and>
    (row_view cdc (rows w') = row_view cdc (rows w) \<or>
     (\<exists>st. row_view cdc (rows w) (GetId sb) = Some st \<and> GetVersion st = GetVersion sb
        \<and> phase_allowed (GetStatusPhase st) (GetStatusPhase sb)
        \<and> row_view cdc (rows w') = (row_view cdc (rows w))(GetId sb \<mapsto> updated now sb)))"
proof -
  consider "w' = w" | dg it where
    "contentDigest cdc sb = Inr dg" "toItem cdc (updated now sb) dg = Inr it"
    "\<exists>res. PutItem (dd_client d) w (dd_tableName d) it
       (updateCondition (GetVersion sb) (GetStatusPhase sb)) = (w', res)"
    using c by (auto simp: sandbox_Update_def Let_def updated_def split: sum.splits prod.splits
        put_result.splits option.splits if_splits)
  then show ?thesis
  proof cases
    case 1
    then show ?thesis using ok by simp
  next
    case (2 dg it)
    then obtain res where res: "PutItem (dd_client d) w (dd_tableName d) it
       (updateCondition (GetVersion sb) (GetStatusPhase sb)) = (w', res)" by blast
    from put_effect [OF res Update_key [OF 2(2)]] show ?thesis
    proof
      assume "rows w' = rows w"
      then show ?thesis using ok by simp
    next
      assume "holds (updateCondition (GetVersion sb) (GetStatusPhase sb)) (stored_item (rows w) (GetId sb))
          \<and> rows w' = (rows w)(GetId sb \<mapsto> it)"
      then show ?thesis
        using Update_put [OF ok 2(1,2)] update_cond_stored [OF ok] by blast
    qed
  qed
qed

lemma Update_successE:
  assumes c: "sandbox_Update d now w sb = (w', Inr sb')"
  obtains dg it res where "contentDigest cdc sb = Inr dg" "toItem cdc (updated now sb) dg = Inr it"
    "sb' = updated now sb"
    "PutItem (dd_client d) w (dd_tableName d) it (updateCondition (GetVersion sb) (GetStatusPhase sb)) = (w', res)"
    "res = PutOk \<or> (\<exists>old st. res = CondFailed old \<and>
        fetchStoredItem d w' old (GetId sb) = Inr st \<and> digestFromAttrs st = Some dg)"
proof (cases "contentDigest cdc sb")
  case (Inl e)
  with c show thesis by (simp add: sandbox_Update_def Let_def)
next
  case (Inr dg)
  show thesis
  proof (cases "toItem cdc (updated now sb) dg")
    case (Inl e)
    with c Inr show thesis by (simp add: sandbox_Update_def Let_def updated_def)
  next
    case it: (Inr it)
    obtain w1 res where put: "PutItem (dd_client d) w (dd_tableName d) it (updateCondition (GetVersion sb) (GetStatusPhase sb)) = (w1, res)"
      by (cases "PutItem (dd_client d) w (dd_tableName d) it (updateCondition (GetVersion sb) (GetStatusPhase sb))")
    note c' = c [unfolded sandbox_Update_def Let_def contentDigest_stamps Inr sum.case
        updated_def [symmetric] it put prod.case]
    have "w' = w1 \<and> sb' = updated now sb \<and> (res = PutOk \<or> (\<exists>old st. res = CondFailed old \<and>
        fetchStoredItem d w1 old (GetId sb) = Inr st \<and> digestFromAttrs st = Some dg))"
      using c' by (auto split: put_result.splits sum.splits option.splits if_splits)
    then show thesis using that [OF Inr it] put by simp
  qed
qed

lemma Update_success:
  assumes ok: "rows_ok cdc (rows w)" and c: "sandbox_Update d now w sb = (w', Inr sb')"
  shows "sb' = updated now sb \<and>
      (\<exists>st. row_view cdc (rows w) (GetId sb) = Some st \<and>
        (GetVersion st = GetVersion sb \<and> phase_allowed (GetStatusPhase st) (GetStatusPhase sb)
           \<and> row_view cdc (rows w') = (row_view cdc (rows w))(GetId sb \<mapsto> sb') \<or>
         same_digest cdc st sb \<and> row_view cdc (rows w') = row_view cdc (rows w)))"
proof -
  from c obtain dg it res where dg: "contentDigest cdc sb = Inr dg"
    and it: "toItem cdc (updated now sb) dg = Inr it" and sb': "sb' = updated now sb"
    and put: "PutItem (dd_client d) w (dd_tableName d) it
       (updateCondition (GetVersion sb) (GetStatusPhase sb)) = (w', res)"
    and res: "res = PutOk \<or> (\<exists>old st. res = CondFailed old \<and>
        fetchStoredItem d w' old (GetId sb) = Inr st \<and> digestFromAttrs st = Some dg)"
    by (rule Update_successE)
  note k = Update_key [OF it]
  from res show ?thesis
  proof
    assume "res = PutOk"
    with put_ok [OF put [unfolded this] k] show ?thesis
      using Update_put [OF ok dg it] update_cond_stored [OF ok] sb' by blast
  next
    assume "\<exists>old st. res = CondFailed old \<and>
        fetchStoredItem d w' old (GetId sb) = Inr st \<and> digestFromAttrs st = Some dg"
    then obtain old st where old: "res = CondFailed old" "fetchStoredItem d w' old (GetId sb) = Inr st"
      "digestFromAttrs st = Some dg" by blast
    from put_cond [OF put [unfolded old(1)] k] have same: "rows w' = rows w"
      and "old = Map.empty \<or> old = stored_item (rows w') (GetId sb)" by auto
    with ok old(2) have "st = stored_item (rows w) (GetId sb)"
      using fetched [of w' old "GetId sb" st] by simp
    with digest_stored [OF ok _ dg, of "GetId sb"] old(3) same sb' show ?thesis by auto
  qed
qed

lemma Get_success:
  assumes "rows_ok cdc (rows w)" "sandbox_Get d w sid = Inr st"
  shows "row_view cdc (rows w) sid = Some st"
proof (cases "rows w sid")
  case None
  with assms(2) show ?thesis
    by (auto simp: sandbox_Get_def stored_item_def split: sum.splits dest!: get_ok)
next
  case (Some it)
  with assms(2) show ?thesis
    by (auto simp: sandbox_Get_def stored_item_def row_view_def split: sum.splits if_splits
        dest!: get_ok)
qed

end

sublocale sandbox_dynamo \<subseteq> sandbox_db "sandbox_Create d" "sandbox_Update d" "sandbox_Get d"
  "\<lambda>w. row_view (dd_codec d) (rows w)" "\<lambda>w. rows_ok (dd_codec d) (rows w)" "same_digest (dd_codec d)"
proof
  fix w now sb w' sb'
  assume *: "rows_ok (dd_codec d) (rows w)" "sandbox_Create d now w sb = (w', Inr sb')"
  show "rows_ok (dd_codec d) (rows w') \<and> sb' = created now sb \<and>
      (row_view (dd_codec d) (rows w) (GetId sb) = None \<and>
       row_view (dd_codec d) (rows w') = (row_view (dd_codec d) (rows w))(GetId sb \<mapsto> sb') \<or>
       (\<exists>st. row_view (dd_codec d) (rows w) (GetId sb) = Some st \<and> same_digest (dd_codec d) st sb) \<and>
       row_view (dd_codec d) (rows w') = row_view (dd_codec d) (rows w))"
    by (rule conjI [OF conjunct1 [OF Create_effect [OF *]] Create_success [OF *]])
next
  fix w now sb w' e
  assume *: "rows_ok (dd_codec d) (rows w)" "sandbox_Create d now w sb = (w', Inl e)"
  show "rows_ok (dd_codec d) (rows w') \<and> (row_view (dd_codec d) (rows w') = row_view (dd_codec d) (rows w) \<or>
        row_view (dd_codec d) (rows w) (GetId sb) = None \<and>
        row_view (dd_codec d) (rows w') = (row_view (dd_codec d) (rows w))(GetId sb \<mapsto> created now sb))"
    by (rule Create_effect [OF *])
next
  fix w now sb w' sb'
  assume *: "rows_ok (dd_codec d) (rows w)" "sandbox_Update d now w sb = (w', Inr sb')"
  show "rows_ok (dd_codec d) (rows w') \<and> sb' = updated now sb \<and>
      (\<exists>st. row_view (dd_codec d) (rows w) (GetId sb) = Some st \<and>
        (GetVersion st = GetVersion sb \<and> phase_allowed (GetStatusPhase st) (GetStatusPhase sb)
           \<and> row_view (dd_codec d) (rows w') = (row_view (dd_codec d) (rows w))(GetId sb \<mapsto> sb') \<or>
         same_digest (dd_codec d) st sb \<and> row_view (dd_codec d) (rows w') = row_view (dd_codec d) (rows w)))"
    by (rule conjI [OF conjunct1 [OF Update_effect [OF *]] Update_success [OF *]])
next
  fix w now sb w' e
  assume *: "rows_ok (dd_codec d) (rows w)" "sandbox_Update d now w sb = (w', Inl e)"
  show "rows_ok (dd_codec d) (rows w') \<and> (row_view (dd_codec d) (rows w') = row_view (dd_codec d) (rows w) \<or>
     (\<exists>st. row_view (dd_codec d) (rows w) (GetId sb) = Some st \<and> GetVersion st = GetVersion sb
        \<and> phase_allowed (GetStatusPhase st) (GetStatusPhase sb)
        \<and> row_view (dd_codec d) (rows w') = (row_view (dd_codec d) (rows w))(GetId sb \<mapsto> updated now sb)))"
    by (rule Update_effect [OF *])
next
  fix w sid st
  assume "rows_ok (dd_codec d) (rows w)" "sandbox_Get d w sid = Inr st"
  then show "row_view (dd_codec d) (rows w) sid = Some st" by (rule Get_success)
next
  fix w sid st
  assume ok: "rows_ok (dd_codec d) (rows w)" and v: "row_view (dd_codec d) (rows w) sid = Some st"
  then obtain it where "rows w sid = Some it" by (auto simp: row_view_def split: option.splits)
  from ok this obtain st' where "GetId st' = sid" "row_view (dd_codec d) (rows w) sid = Some st'"
    by (rule stored_row)
  with v show "GetId st = sid" by simp
qed

section \<open>Facts on the DynamoDB implementation\<close>

context sandbox_dynamo
begin

lemma implements_db:
  "sandbox_db (sandbox_Create d) (sandbox_Update d) (sandbox_Get d)
    (\<lambda>w. row_view (dd_codec d) (rows w)) (\<lambda>w. rows_ok (dd_codec d) (rows w)) (same_digest (dd_codec d))"
  by unfold_locales

lemma Get_result:
  assumes "rows_ok cdc (rows w)" "isOk (GetItem (dd_client d) w (dd_tableName d) attrSandboxID sid)"
  shows "sandbox_Get d w sid = (case row_view cdc (rows w) sid of
           None \<Rightarrow> Inl (sandboxErr sid [] ErrNotFound) | Some st \<Rightarrow> Inr st)"
proof (cases "rows w sid")
  case None
  with assms(2) show ?thesis
    by (simp add: sandbox_Get_def get_stored) (simp add: stored_item_def row_view_def)
next
  case (Some it)
  then obtain st dg where st: "toItem cdc st dg = Inr it" "row_view cdc (rows w) sid = Some st"
    "it \<noteq> Map.empty" by (rule stored_row [OF assms(1)])
  have "GetItem (dd_client d) w (dd_tableName d) attrSandboxID sid = Inr it"
    using get_stored [OF assms(2)] Some by (simp add: stored_item_def)
  then show ?thesis
    using st fromAttrs_toItem [OF st(1)] by (simp add: sandbox_Get_def)
qed

text \<open>What \<open>Update\<close> returns once DynamoDB has rejected the condition.\<close>

lemma Update_conflict:
  assumes ok: "rows_ok cdc (rows w)" and dg: "contentDigest cdc sb = Inr dg"
    and it: "toItem cdc (updated now sb) dg = Inr it"
    and put: "PutItem (dd_client d) w (dd_tableName d) it
       (updateCondition (GetVersion sb) (GetStatusPhase sb)) = (w', CondFailed old)"
    and rd: "isOk (GetItem (dd_client d) w' (dd_tableName d) attrSandboxID (GetId sb))"
  shows "sandbox_Update d now w sb =
    (w', let stored = stored_item (rows w) (GetId sb) in
         if stored = Map.empty then Inl (sandboxErr (GetId sb) [] ErrNotFound)
         else if digestFromAttrs stored = Some dg then Inr (updated now sb)
         else Inl (diagnoseUpdateConflict (GetId sb) (GetVersion sb) (GetStatusPhase sb) stored))"
proof -
  note k = Update_key [OF it]
  from put_cond [OF put k] have same: "rows w' = rows w"
    and old: "old = Map.empty \<or> old = stored_item (rows w) (GetId sb)" by auto
  have f: "fetchStoredItem d w' old (GetId sb) = Inr (stored_item (rows w) (GetId sb))"
    using get_stored [OF rd] old same by (auto simp: fetchStoredItem_def)
  have it': "toItem cdc (setVersion (wrap64 (GetVersion sb + 1)) (setLastModifiedAt (Some now) sb)) dg = Inr it"
    using it by (simp add: updated_def)
  show ?thesis
    unfolding sandbox_Update_def Let_def contentDigest_stamps dg sum.case it' put prod.case
      put_result.case f
    by (simp add: updated_def)
qed

end

lemma diagnose_Is:
  assumes "toItem cd st dg = Inr it"
  shows "errors_Is (diagnoseUpdateConflict sid v target it) ErrInvalidPhaseTransition \<longleftrightarrow>
           \<not> phase_allowed (GetStatusPhase st) target"
    and "errors_Is (diagnoseUpdateConflict sid v target it) ErrVersionConflict \<longleftrightarrow>
           phase_allowed (GetStatusPhase st) target"
  using toItem_attrs(2,3) [OF assms]
  by (auto simp: diagnoseUpdateConflict_def phase_allowed_def stringFromAttrs_def Let_def sandboxErr_def
      ErrInvalidPhaseTransition_def ErrVersionConflict_def)

section \<open>Index choice\<close>

lemma hash_not_in_phase: "CHR ''#'' \<notin> set (PhaseString p)"
  by (cases p) simp_all

lemma split_first: "c \<notin> set a \<Longrightarrow> c \<notin> set b \<Longrightarrow> a @ c # x = b @ c # y \<longleftrightarrow> a = b \<and> x = y"
proof (induction a arbitrary: b)
  case Nil
  then show ?case by (cases b) auto
next
  case (Cons e a)
  then show ?case by (cases b) auto
qed

lemma split_last: "c \<notin> set x \<Longrightarrow> c \<notin> set y \<Longrightarrow> a @ c # x = b @ c # y \<longleftrightarrow> a = b \<and> x = y"
  using split_first [of c "rev x" "rev y" "rev a" "rev b"]
  by (metis append_Cons append_Nil append_assoc in_set_conv_decomp rev.simps(2) rev_append rev_rev_ident set_rev)

definition matches_filter :: "ListOptions \<Rightarrow> Sandbox \<Rightarrow> bool" where
  "matches_filter opts sb =
    ((lo_Namespace opts \<noteq> [] \<longrightarrow> GetNamespace sb = lo_Namespace opts) \<and>
     (lo_NodeID opts \<noteq> [] \<longrightarrow> GetNodeId sb = lo_NodeID opts) \<and>
     (lo_StatusPhase opts \<noteq> PHASE_UNSPECIFIED \<longrightarrow> GetStatusPhase sb = lo_StatusPhase opts))"

section \<open>A reliable client\<close>

text \<open>When no call to DynamoDB or to the encoder fails, the outcome of \<open>Update\<close> is determined by the
  stored row.\<close>

locale reliable_dynamo = sandbox_dynamo d rows
  for d :: "('w, 'b) dynamoDB"
    and rows :: "'w \<Rightarrow> string \<rightharpoonup> 'b item" +
  assumes put_total: "it attrSandboxID = Some (AS k) \<Longrightarrow>
      PutItem (dd_client d) w (dd_tableName d) it cnd \<noteq> (w', PutErr e)"
    and get_total: "isOk (GetItem (dd_client d) w (dd_tableName d) attrSandboxID k)"
    and marshal_total: "isOk (Marshal (dd_codec d) sb)" "isOk (MarshalDeterministic (dd_codec d) sb)"
begin

lemma digest_total: "\<exists>dg. contentDigest cdc sb = Inr dg"
  using marshal_total(2) [of "canonicalSandbox sb"] by (auto simp: contentDigest_def isOk_iff)

lemma toItem_total: "\<exists>it. toItem cdc sb dg = Inr it"
  using marshal_total(1) [of sb] by (auto simp: toItem_def isOk_iff Let_def)

lemma Update_result:
  assumes ok: "rows_ok cdc (rows w)"
  shows "snd (sandbox_Update d now w sb) =
    (case row_view cdc (rows w) (GetId sb) of
       None \<Rightarrow> Inl (sandboxErr (GetId sb) [] ErrNotFound)
     | Some st \<Rightarrow>
         if GetVersion st = GetVersion sb \<and> phase_allowed (GetStatusPhase st) (GetStatusPhase sb)
            \<or> same_digest cdc st sb
         then Inr (updated now sb)
         else Inl (diagnoseUpdateConflict (GetId sb) (GetVersion sb) (GetStatusPhase sb)
                     (stored_item (rows w) (GetId sb))))"
proof -
  obtain dg where dg: "contentDigest cdc sb = Inr dg" using digest_total by blast
  obtain it where it: "toItem cdc (updated now sb) dg = Inr it" using toItem_total by blast
  let ?cnd = "updateCondition (GetVersion sb) (GetStatusPhase sb)"
  obtain w' res where put: "PutItem (dd_client d) w (dd_tableName d) it ?cnd = (w', res)" by fastforce
  show ?thesis
  proof (cases res)
    case PutOk
    then have "sandbox_Update d now w sb = (w', Inr (updated now sb))"
      using dg it put by (simp add: sandbox_Update_def Let_def updated_def)
    moreover have "holds ?cnd (stored_item (rows w) (GetId sb))"
      using put_ok [OF put [unfolded PutOk] Update_key [OF it]] by simp
    ultimately show ?thesis using update_cond_stored [OF ok] by fastforce
  next
    case (PutErr e)
    then show ?thesis using put put_total [where it = it, OF Update_key [OF it]] by blast
  next
    case (CondFailed old)
    note u = Update_conflict [OF ok dg it put [unfolded CondFailed] get_total]
    have nc: "\<not> holds ?cnd (stored_item (rows w) (GetId sb))"
      using put_cond [OF put [unfolded CondFailed] Update_key [OF it]] by simp
    show ?thesis
    proof (cases "rows w (GetId sb)")
      case None
      then show ?thesis by (simp add: u stored_item_def row_view_def)
    next
      case (Some si)
      then obtain st dg' where st: "toItem cdc st dg' = Inr si" "contentDigest cdc st = Inr dg'"
        "row_view cdc (rows w) (GetId sb) = Some st" "si \<noteq> Map.empty" by (rule stored_row [OF ok])
      have "digestFromAttrs si = Some dg \<longleftrightarrow> same_digest cdc st sb"
        using toItem_attrs(4) [OF st(1)] st(2) dg by (simp add: digestFromAttrs_def same_digest_def)
      then show ?thesis
        using nc Some st(3,4) update_cond_holds [OF st(1)] by (simp add: u stored_item_def)
    qed
  qed
qed

lemma Get_result_total:
  "rows_ok cdc (rows w) \<Longrightarrow> sandbox_Get d w sid = (case row_view cdc (rows w) sid of
     None \<Rightarrow> Inl (sandboxErr sid [] ErrNotFound) | Some st \<Rightarrow> Inr st)"
  by (rule Get_result [OF _ get_total])

end

section \<open>The implementation over a table in memory\<close>

definition mem_db :: "(string \<rightharpoonup> Sandbox item, Sandbox) dynamoDB" where
  "mem_db = \<lparr> dd_client = mem_client attrSandboxID, dd_tableName = ''sandboxes'', dd_codec = id_codec \<rparr>"

lemma mem_db_simps [simp]:
  "dd_client mem_db = mem_client attrSandboxID" "dd_codec mem_db = id_codec"
  by (simp_all add: mem_db_def)

interpretation memdb: sandbox_dynamo mem_db "\<lambda>w. w"
  by unfold_locales (auto simp: mem_client_def id_codec_def split: if_splits)

interpretation memrel: reliable_dynamo mem_db "\<lambda>w. w"
  by unfold_locales (auto simp: mem_client_def id_codec_def isOk_iff split: if_splits)

definition mem_item :: "Sandbox \<Rightarrow> Sandbox item" where
  "mem_item sb = projr (toItem id_codec sb (canonicalSandbox sb))"

lemma contentDigest_id [simp]: "contentDigest id_codec sb = Inr (canonicalSandbox sb)"
  by (simp add: contentDigest_def id_codec_def)

lemma canonical_stamps [simp]:
  "canonicalSandbox (setVersion v sb) = canonicalSandbox sb"
  "canonicalSandbox (setLastModifiedAt t sb) = canonicalSandbox sb"
  "canonicalSandbox (setCreatedAt t sb) = canonicalSandbox sb"
  "canonicalSandbox (created now sb) = canonicalSandbox sb"
  "canonicalSandbox (updated now sb) = canonicalSandbox sb"
  "GetId (created now sb) = GetId sb" "GetId (updated now sb) = GetId sb"
  by (simp_all add: canonicalSandbox_def created_def updated_def getters)

lemma toItem_id: "toItem id_codec sb (canonicalSandbox sb) = Inr (mem_item sb)"
  by (simp add: mem_item_def toItem_def id_codec_def Let_def)

lemma toItem_created: "toItem id_codec (created now sb) (canonicalSandbox sb) = Inr (mem_item (created now sb))"
  using toItem_id [of "created now sb"] by simp

lemma toItem_updated: "toItem id_codec (updated now sb) (canonicalSandbox sb) = Inr (mem_item (updated now sb))"
  using toItem_id [of "updated now sb"] by simp

lemma mem_rows_ok: "rows_ok id_codec w \<Longrightarrow> rows_ok id_codec (w(GetId sb \<mapsto> mem_item sb))"
  using toItem_id by (auto simp: rows_ok_def row_ok_def)

lemma mem_empty_ok: "rows_ok id_codec Map.empty"
  by (simp add: rows_ok_def)

lemma mem_view: "row_view id_codec (w(k \<mapsto> mem_item sb)) k = Some sb"
  using memdb.fromAttrs_toItem [of sb "canonicalSandbox sb"] toItem_id [of sb] by (simp add: row_view_def)

lemma mem_Create_new:
  assumes "w (GetId sb) = None"
  shows "sandbox_Create mem_db now w sb = (w(GetId sb \<mapsto> mem_item (created now sb)), Inr (created now sb))"
  using assms toItem_attrs(1) [OF toItem_created, of now sb]
  by (simp add: sandbox_Create_def Let_def toItem_created [unfolded created_def] mem_client_def
      stored_item_def created_def)

lemma mem_Create_retry:
  assumes "w (GetId sb) = Some (mem_item st)" "GetId st = GetId sb" "canonicalSandbox st = canonicalSandbox sb"
  shows "sandbox_Create mem_db now w sb = (w, Inr (created now sb))"
  using assms toItem_attrs(1) [OF toItem_created, of now sb] toItem_attrs(1,4) [OF toItem_id, of st]
    toItem_not_empty [OF toItem_id, of st]
  by (simp add: sandbox_Create_def Let_def toItem_created [unfolded created_def] mem_client_def
      stored_item_def created_def fetchStoredItem_def digestFromAttrs_def)

lemma mem_put:
  assumes "w (GetId sb) = Some (mem_item st)"
  shows "PutItem (mem_client attrSandboxID) w t (mem_item (updated now sb))
           (updateCondition (GetVersion sb) (GetStatusPhase sb)) =
         (if GetVersion st = GetVersion sb \<and> phase_allowed (GetStatusPhase st) (GetStatusPhase sb)
          then (w(GetId sb \<mapsto> mem_item (updated now sb)), PutOk) else (w, CondFailed (mem_item st)))"
  using assms toItem_attrs(1) [OF toItem_updated, of now sb] memdb.update_cond_holds [of st "canonicalSandbox st"]
    toItem_id [of st]
  by (simp add: mem_client_def stored_item_def)

lemma mem_Update:
  assumes "w (GetId sb) = Some (mem_item st)"
  shows "sandbox_Update mem_db now w sb =
    (if GetVersion st = GetVersion sb \<and> phase_allowed (GetStatusPhase st) (GetStatusPhase sb)
     then (w(GetId sb \<mapsto> mem_item (updated now sb)), Inr (updated now sb))
     else (w, if canonicalSandbox st = canonicalSandbox sb then Inr (updated now sb)
              else Inl (diagnoseUpdateConflict (GetId sb) (GetVersion sb) (GetStatusPhase sb) (mem_item st))))"
  using mem_put [of w sb st _ now] assms toItem_attrs(4) [OF toItem_id, of st]
    toItem_not_empty [OF toItem_id, of st]
  by (simp add: sandbox_Update_def Let_def toItem_updated [unfolded updated_def] fetchStoredItem_def
      digestFromAttrs_def updated_def)

definition wit_sandbox :: Sandbox where
  "wit_sandbox = \<lparr> sb_Metadata = \<lparr> sm_Id = ''sb-1'', sm_Namespace = ''default'', sm_Source = None,
      sm_Version = 0, sm_CreatedAt = None, sm_LastModifiedAt = None, sm_Labels = [] \<rparr>,
    sb_EgressPolicy = None, sb_Resources = None, sb_Node = Some ''node-a'', sb_Intent = None,
    sb_LastSnapshot = None, sb_Status = Some \<lparr> ss_Phase = PHASE_RUNNING, ss_Message = [] \<rparr> \<rparr>"

definition wit_rows :: "string \<rightharpoonup> Sandbox item" where
  "wit_rows = [''sb-1'' \<mapsto> mem_item wit_sandbox]"

definition pausing :: "Sandbox \<Rightarrow> Sandbox" where
  "pausing sb = sb\<lparr> sb_Status := Some \<lparr> ss_Phase = PHASE_PAUSING, ss_Message = [] \<rparr> \<rparr>"

lemma wit_facts [simp]:
  "GetId wit_sandbox = ''sb-1''" "GetVersion wit_sandbox = 0" "GetStatusPhase wit_sandbox = PHASE_RUNNING"
  "GetId (pausing sb) = GetId sb" "GetVersion (pausing sb) = GetVersion sb"
  "GetStatusPhase (pausing sb) = PHASE_PAUSING" "wit_rows ''sb-1'' = Some (mem_item wit_sandbox)"
  by (simp_all add: wit_sandbox_def pausing_def wit_rows_def getters)

lemma wit_rows_ok: "rows_ok id_codec wit_rows"
  using mem_rows_ok [OF mem_empty_ok, of wit_sandbox] by (simp add: wit_rows_def)

lemma wit_view: "row_view id_codec wit_rows ''sb-1'' = Some wit_sandbox"
  using mem_view [of Map.empty "''sb-1''" wit_sandbox] by (simp add: wit_rows_def)

lemma wit_pause:
  "sandbox_Update mem_db 7 wit_rows (pausing wit_sandbox) =
   (wit_rows(''sb-1'' \<mapsto> mem_item (updated 7 (pausing wit_sandbox))), Inr (updated 7 (pausing wit_sandbox)))"
  by (simp add: mem_Update phase_allowed_def requiredPriorPhases_def)

lemma wit_changed: "updated 7 (pausing wit_sandbox) \<noteq> wit_sandbox"
  by (simp add: updated_def pausing_def wit_sandbox_def getters)

section \<open>Properties\<close>

text \<open>C5: optimistic locking. Of two updates of a sandbox that read the same version, at most one is
  stored: once the first has changed a row, the second leaves every row as it is, whether it
  returns an error or an idempotent success.\<close>

theorem update_no_lost_update:
  assumes "sandbox_dynamo d rows" "rows_ok (dd_codec d) (rows w)"
    and "sandbox_Update d now1 w sb1 = (w1, r1)"
    and "row_view (dd_codec d) (rows w1) \<noteq> row_view (dd_codec d) (rows w)"
    and "sandbox_Update d now2 w1 sb2 = (w2, r2)"
    and "GetId sb2 = GetId sb1" "GetVersion sb2 = GetVersion sb1" "in_int64 (GetVersion sb1)"
  shows "row_view (dd_codec d) (rows w2) = row_view (dd_codec d) (rows w1)"
  by (rule sandbox_db.no_lost_update [OF sandbox_dynamo.implements_db [OF assms(1)] assms(2-8)])

theorem update_no_lost_update_witness:
  "row_view id_codec (fst (sandbox_Update mem_db 9
       (fst (sandbox_Update mem_db 7 wit_rows (pausing wit_sandbox)))
       (wit_sandbox\<lparr> sb_Status := Some \<lparr> ss_Phase = PHASE_DELETING, ss_Message = [] \<rparr> \<rparr>)))
   = row_view id_codec (fst (sandbox_Update mem_db 7 wit_rows (pausing wit_sandbox)))"
proof -
  let ?w1 = "wit_rows(''sb-1'' \<mapsto> mem_item (updated 7 (pausing wit_sandbox)))"
  let ?sb2 = "wit_sandbox\<lparr> sb_Status := Some \<lparr> ss_Phase = PHASE_DELETING, ss_Message = [] \<rparr> \<rparr>"
  have ne: "row_view (dd_codec mem_db) ?w1 \<noteq> row_view (dd_codec mem_db) wit_rows"
    using mem_view [of wit_rows "''sb-1''" "updated 7 (pausing wit_sandbox)"] wit_view wit_changed
    by (metis mem_db_simps(2) option.inject)
  obtain w2 r2 where u2: "sandbox_Update mem_db 9 ?w1 ?sb2 = (w2, r2)" by fastforce
  have "row_view (dd_codec mem_db) w2 = row_view (dd_codec mem_db) ?w1"
    by (rule update_no_lost_update [OF memdb.sandbox_dynamo_axioms _ wit_pause ne u2])
      (simp_all add: wit_rows_ok in_int64_def, simp_all add: wit_sandbox_def getters pausing_def)
  then show ?thesis by (simp add: wit_pause u2)
qed

text \<open>Every write is a guarded step. Whatever \<open>Update\<close> returns, the table stays well formed
  (each row's key, version, phase and digest attributes agree with the sandbox it stores), and a
  row changes only from the version the caller read, only through a transition the state machine
  allows, and only to the stamped argument.\<close>

theorem update_guarded:
  assumes "sandbox_dynamo d rows" "rows_ok (dd_codec d) (rows w)"
    and "sandbox_Update d now w sb = (w', r)"
  shows "rows_ok (dd_codec d) (rows w') \<and>
    (row_view (dd_codec d) (rows w') = row_view (dd_codec d) (rows w) \<or>
     (\<exists>st. row_view (dd_codec d) (rows w) (GetId sb) = Some st \<and> GetVersion st = GetVersion sb
        \<and> phase_allowed (GetStatusPhase st) (GetStatusPhase sb)
        \<and> row_view (dd_codec d) (rows w') =
            (row_view (dd_codec d) (rows w))(GetId sb \<mapsto> updated now sb)))"
  by (rule sandbox_dynamo.Update_effect [OF assms])

theorem update_guarded_witness:
  "rows_ok id_codec (wit_rows(''sb-1'' \<mapsto> mem_item (updated 7 (pausing wit_sandbox))))"
  using update_guarded [OF memdb.sandbox_dynamo_axioms _ wit_pause] wit_rows_ok by simp

text \<open>\<open>Update\<close> explains a rejected write. When DynamoDB rejects the condition (and can be read),
  the result is \<open>ErrNotFound\<close> exactly when there is no row, an idempotent success exactly when the
  row has the same content digest, and otherwise \<open>ErrInvalidPhaseTransition\<close> when the saved phase
  forbids the transition and \<open>ErrVersionConflict\<close> when it does not.\<close>

theorem update_conflict_diagnosis:
  assumes dyn: "sandbox_dynamo d rows" and ok: "rows_ok (dd_codec d) (rows w)"
    and dg: "contentDigest (dd_codec d) sb = Inr dg"
    and it: "toItem (dd_codec d) (updated now sb) dg = Inr it"
    and put: "PutItem (dd_client d) w (dd_tableName d) it
       (updateCondition (GetVersion sb) (GetStatusPhase sb)) = (w', CondFailed old)"
    and rd: "isOk (GetItem (dd_client d) w' (dd_tableName d) attrSandboxID (GetId sb))"
  shows "case (row_view (dd_codec d) (rows w) (GetId sb), snd (sandbox_Update d now w sb)) of
      (None, r) \<Rightarrow> r = Inl (sandboxErr (GetId sb) [] ErrNotFound)
    | (Some st, Inr sb') \<Rightarrow> same_digest (dd_codec d) st sb \<and> sb' = updated now sb
    | (Some st, Inl e) \<Rightarrow> \<not> same_digest (dd_codec d) st sb \<and>
        (if phase_allowed (GetStatusPhase st) (GetStatusPhase sb)
         then errors_Is e ErrVersionConflict else errors_Is e ErrInvalidPhaseTransition)"
proof (cases "rows w (GetId sb)")
  case None
  then show ?thesis
    by (simp add: sandbox_dynamo.Update_conflict [OF dyn ok dg it put rd] stored_item_def row_view_def)
next
  case (Some st_item)
  then obtain st dg' where st: "toItem (dd_codec d) st dg' = Inr st_item"
    "contentDigest (dd_codec d) st = Inr dg'" "row_view (dd_codec d) (rows w) (GetId sb) = Some st"
    "st_item \<noteq> Map.empty"
    by (rule sandbox_dynamo.stored_row [OF dyn ok])
  have "digestFromAttrs st_item = Some dg'"
    using toItem_attrs(4) [OF st(1)] by (simp add: digestFromAttrs_def)
  moreover have "same_digest (dd_codec d) st sb \<longleftrightarrow> dg' = dg"
    using st(2) dg by (simp add: same_digest_def)
  ultimately show ?thesis
    using Some st(3,4) diagnose_Is [OF st(1)]
    by (simp add: sandbox_dynamo.Update_conflict [OF dyn ok dg it put rd] stored_item_def)
qed

theorem update_conflict_diagnosis_witness:
  "\<exists>e. snd (sandbox_Update mem_db 9 wit_rows (setVersion 5 (pausing wit_sandbox))) = Inl e
       \<and> errors_Is e ErrVersionConflict"
proof -
  let ?sb = "setVersion 5 (pausing wit_sandbox)"
  have put: "PutItem (mem_client attrSandboxID) wit_rows (dd_tableName mem_db) (mem_item (updated 9 ?sb))
      (updateCondition (GetVersion ?sb) (GetStatusPhase ?sb)) = (wit_rows, CondFailed (mem_item wit_sandbox))"
    using mem_put [of wit_rows ?sb wit_sandbox] by simp
  have "canonicalSandbox wit_sandbox \<noteq> canonicalSandbox (pausing wit_sandbox)"
    by (simp add: canonicalSandbox_def pausing_def wit_sandbox_def getters)
  then show ?thesis
    using update_conflict_diagnosis [OF memdb.sandbox_dynamo_axioms, of wit_rows ?sb "canonicalSandbox ?sb" 9
        "mem_item (updated 9 ?sb)" wit_rows "mem_item wit_sandbox"] put toItem_updated [of 9 ?sb] wit_rows_ok wit_view
    by (auto simp: mem_client_def same_digest_def phase_allowed_def requiredPriorPhases_def
        split: sum.splits)
qed

text \<open>A sandbox that was stored can be read back. After \<open>Create\<close> succeeds on a new id, a
  \<open>Get\<close> that reaches the table returns the stamped sandbox, with version 1.\<close>

theorem create_then_get:
  assumes dyn: "sandbox_dynamo d rows" and ok: "rows_ok (dd_codec d) (rows w)"
    and new: "row_view (dd_codec d) (rows w) (GetId sb) = None"
    and c: "sandbox_Create d now w sb = (w', Inr sb')"
    and rd: "isOk (GetItem (dd_client d) w' (dd_tableName d) attrSandboxID (GetId sb))"
  shows "sandbox_Get d w' (GetId sb) = Inr sb' \<and> GetVersion sb' = 1"
proof -
  note db = sandbox_dynamo.implements_db [OF dyn]
  from sandbox_db.create_ok [OF db ok c] new
  have "rows_ok (dd_codec d) (rows w')" "sb' = created now sb"
    "row_view (dd_codec d) (rows w') (GetId sb) = Some sb'" by auto
  then show ?thesis
    using sandbox_dynamo.Get_result [OF dyn _ rd] by (simp add: created_def initialVersion_def)
qed

theorem create_then_get_witness:
  "sandbox_Get mem_db (fst (sandbox_Create mem_db 3 Map.empty wit_sandbox)) ''sb-1'' = Inr (created 3 wit_sandbox)"
  using create_then_get [OF memdb.sandbox_dynamo_axioms, of Map.empty wit_sandbox 3]
  by (simp add: mem_Create_new mem_empty_ok row_view_def mem_client_def)

text \<open>A success of \<open>Update\<close> need not describe the stored row. When the stored version is not the
  one the caller read, \<open>Update\<close> can still succeed, because the content is the same; it then
  stores nothing, but the sandbox it hands back carries the caller's version plus one.\<close>

theorem update_noop_reports_unstored_version:
  assumes dyn: "sandbox_dynamo d rows" and ok: "rows_ok (dd_codec d) (rows w)"
    and st: "row_view (dd_codec d) (rows w) (GetId sb) = Some st" and ne: "GetVersion st \<noteq> GetVersion sb"
    and u: "sandbox_Update d now w sb = (w', Inr sb')"
  shows "row_view (dd_codec d) (rows w') (GetId sb) = Some st
       \<and> GetVersion sb' = wrap64 (GetVersion sb + 1)"
  using sandbox_db.update_ok [OF sandbox_dynamo.implements_db [OF dyn] ok u] st ne
  by (auto simp: updated_def)

theorem update_noop_reports_unstored_version_witness:
  "snd (sandbox_Update mem_db 9 wit_rows (setVersion 100 wit_sandbox)) = Inr (updated 9 (setVersion 100 wit_sandbox))
   \<and> GetVersion (updated 9 (setVersion 100 wit_sandbox)) = 101
   \<and> row_view id_codec (fst (sandbox_Update mem_db 9 wit_rows (setVersion 100 wit_sandbox))) ''sb-1''
       = Some wit_sandbox"
proof -
  have u: "sandbox_Update mem_db 9 wit_rows (setVersion 100 wit_sandbox)
      = (wit_rows, Inr (updated 9 (setVersion 100 wit_sandbox)))"
    by (simp add: mem_Update)
  show ?thesis
    using update_noop_reports_unstored_version [OF memdb.sandbox_dynamo_axioms _ _ _ u] wit_rows_ok wit_view
    by (simp add: u wrap64_def)
qed

text \<open>A retried \<open>Create\<close> reports the placement of the retry, not the stored one. The content
  digest ignores the node, so creating a stored sandbox again with another node succeeds; the
  row keeps its node while the returned sandbox names the new one.\<close>

theorem create_retry_reports_other_node:
  assumes dyn: "sandbox_dynamo d rows" and ok: "rows_ok (dd_codec d) (rows w)"
    and st: "row_view (dd_codec d) (rows w) (GetId sb) = Some st"
    and c: "sandbox_Create d now w (sb\<lparr> sb_Node := Some n \<rparr>) = (w', Inr sb')"
  shows "row_view (dd_codec d) (rows w') (GetId sb) = Some st \<and> GetNodeId sb' = n"
proof -
  have "GetId (sb\<lparr> sb_Node := Some n \<rparr>) = GetId sb" by (simp add: GetId_def)
  then show ?thesis
    using sandbox_db.create_ok [OF sandbox_dynamo.implements_db [OF dyn] ok c] st
    by (auto simp: created_def getters)
qed

theorem create_retry_reports_other_node_witness:
  "row_view id_codec (fst (sandbox_Create mem_db 9 wit_rows (wit_sandbox\<lparr> sb_Node := Some ''node-b'' \<rparr>))) ''sb-1''
     = Some wit_sandbox \<and> GetNodeId wit_sandbox = ''node-a''
   \<and> (\<exists>sb'. snd (sandbox_Create mem_db 9 wit_rows (wit_sandbox\<lparr> sb_Node := Some ''node-b'' \<rparr>)) = Inr sb'
        \<and> GetNodeId sb' = ''node-b'')"
proof -
  let ?sb = "wit_sandbox\<lparr> sb_Node := Some ''node-b'' \<rparr>"
  have "GetId ?sb = ''sb-1''" "canonicalSandbox wit_sandbox = canonicalSandbox ?sb"
    by (simp_all add: canonicalSandbox_def wit_sandbox_def getters)
  then have c: "sandbox_Create mem_db 9 wit_rows ?sb = (wit_rows, Inr (created 9 ?sb))"
    using mem_Create_retry [of wit_rows ?sb wit_sandbox] by simp
  show ?thesis
    using create_retry_reports_other_node [OF memdb.sandbox_dynamo_axioms _ _ c] wit_rows_ok wit_view
    by (simp add: c) (simp add: wit_sandbox_def getters)
qed

text \<open>\<open>List\<close> needs no filtering. For every legal combination of filters, the partition that
  \<open>selectIndex\<close> queries holds exactly the rows of the sandboxes that match the filter. Namespaces
  contain no hash sign (their pattern forbids it); node ids may.\<close>

theorem selectIndex_exact:
  assumes "toItem cd sb dg = Inr it" "selectIndex opts = (ix, hkName, hkValue)"
    and "lo_Namespace opts \<noteq> [] \<or> lo_NodeID opts \<noteq> []"
    and "CHR ''#'' \<notin> set (GetNamespace sb)" "CHR ''#'' \<notin> set (lo_Namespace opts)"
  shows "it hkName = Some (AS hkValue) \<longleftrightarrow> matches_filter opts sb"
  using assms
  by (auto simp: toItem_def selectIndex_def matches_filter_def Let_def attr_names
      gsiNamespacePhaseHK_def gsiNamespaceNodeHK_def gsiNodePhaseHK_def gsiNamespaceNodePhaseHK_def
      split_first split_last hash_not_in_phase split: sum.splits if_splits)

theorem selectIndex_exact_witness:
  "mem_item wit_sandbox attrGSINamespaceNodePhaseHK = Some (AS ''default#node-a#PHASE_RUNNING'')"
proof -
  let ?o = "\<lparr> lo_Namespace = ''default'', lo_NodeID = ''node-a'', lo_StatusPhase = PHASE_RUNNING,
    lo_SortOrder = ORDER_NEWEST_FIRST, lo_PageSize = 30, lo_ContinuationToken = [] \<rparr>"
  show ?thesis
    using selectIndex_exact [OF toItem_id [of wit_sandbox], of ?o]
    by (simp add: selectIndex_def Let_def matches_filter_def)
      (simp add: wit_sandbox_def getters GetNamespace_def)
qed

lemma rfc_wit:
  "RFC3339Nano 1767225600500000000 = ''2026-01-01T00:00:00.5Z''"
  "RFC3339Nano 1767225600000000000 = ''2026-01-01T00:00:00Z''"
proof -
  have c: "civil 20454 = (2026, 1, 1)" by code_simp
  have f: "fmt_d 500000000 = ''500000000''" "fmt_d 0 = ''0''" "fmt_d 1 = ''1''" "fmt_d 2026 = ''2026''"
    by (simp_all add: fmt_d_def dec_nat.simps)
  have p: "pad0 9 ''500000000'' = ''500000000''" "pad0 2 ''0'' = ''00''" "pad0 2 ''1'' = ''01''"
    "pad0 4 ''2026'' = ''2026''" "pad0 9 ''0'' = ''000000000''"
    by (simp_all add: pad0_def numeral_eq_Suc)
  show "RFC3339Nano 1767225600500000000 = ''2026-01-01T00:00:00.5Z''"
    "RFC3339Nano 1767225600000000000 = ''2026-01-01T00:00:00Z''"
    by (simp_all add: RFC3339Nano_def c f p trim_zeros_def Let_def)
qed

text \<open>The sort key of the listing indexes does not follow the modification time. RFC 3339 with
  trimmed fractions orders half a second past the minute before the full minute: a sandbox
  modified later gets a smaller key, so the documented newest-first order can be wrong.\<close>

theorem gsiLmtSK_not_monotone:
  "\<exists>t t' p c c' r r'. t < t' \<and> of_char c' < (of_char c :: nat) \<and>
     gsiLmtSK (setLastModifiedAt (Some t) wit_sandbox) = p @ c # r \<and>
     gsiLmtSK (setLastModifiedAt (Some t') wit_sandbox) = p @ c' # r'"
proof -
  have "gsiLmtSK (setLastModifiedAt (Some 1767225600000000000) wit_sandbox)
        = ''2026-01-01T00:00:00'' @ CHR ''Z'' # ''#sb-1''"
    and "gsiLmtSK (setLastModifiedAt (Some 1767225600500000000) wit_sandbox)
        = ''2026-01-01T00:00:00'' @ CHR ''.'' # ''5Z#sb-1''"
    by (simp_all add: gsiLmtSK_def rfc_wit, simp_all add: setLastModifiedAt_def rfc_wit)
  moreover have "(1767225600000000000 :: int) < 1767225600500000000"
    "of_char CHR ''.'' < (of_char CHR ''Z'' :: nat)" by simp_all
  ultimately show ?thesis by blast
qed

end
