(* ===== verification/Node_DB.thy ===== *)
theory Node_DB
  imports Entity_Store Sandbox_DB
begin

text \<open>
  Persistence of nodes, \<open>api-server/pkg/db/node\<close>: the item layout, the single conditional write \<open>Put\<close> that
  creates at version 0 and updates otherwise, its idempotency and conflict diagnosis, and \<open>Get\<close>. The
  message that \<open>Put\<close> mutates in place is returned on success; the wall clock is an argument. The locale
  \<open>node_db\<close> is the contract of the Go interface \<open>node.DB\<close>, which the DynamoDB implementation satisfies
  whenever the table does.
\<close>

section \<open>The item of a node\<close>

definition attrNodeID :: string where "attrNodeID = ''node_id''"
definition attrNodeStatusPhase :: string where "attrNodeStatusPhase = ''node_status_phase''"
definition attrGSIConstHK :: string where "attrGSIConstHK = ''gsi_const_hk''"
definition node_attrGSILmtSK :: string where "node_attrGSILmtSK = ''gsi_lmt_sk''"
definition attrNodeVersion :: string where "attrNodeVersion = ''node_version''"
definition attrNodePB :: string where "attrNodePB = ''node_pb''"
definition attrNodeContentDigest :: string where "attrNodeContentDigest = ''node_content_digest''"

lemmas node_attr_names = attrNodeID_def attrNodeStatusPhase_def attrGSIConstHK_def node_attrGSILmtSK_def
  attrNodeVersion_def attrNodePB_def attrNodeContentDigest_def

definition allNodesPartition :: string where
  "allNodesPartition = ''node''"

definition node_initialVersion :: int64 where
  "node_initialVersion = 1"

definition setNodeVersion :: "int64 \<Rightarrow> Node \<Rightarrow> Node" where
  "setNodeVersion v n = n\<lparr>nd_Metadata := (nd_Metadata n)\<lparr>nm_Version := v\<rparr>\<rparr>"

definition setNodeCreatedAt :: "Timestamp option \<Rightarrow> Node \<Rightarrow> Node" where
  "setNodeCreatedAt t n = n\<lparr>nd_Metadata := (nd_Metadata n)\<lparr>nm_CreatedAt := t\<rparr>\<rparr>"

definition setNodeLastModifiedAt :: "Timestamp option \<Rightarrow> Node \<Rightarrow> Node" where
  "setNodeLastModifiedAt t n = n\<lparr>nd_Metadata := (nd_Metadata n)\<lparr>nm_LastModifiedAt := t\<rparr>\<rparr>"

definition node_gsiLmtSK :: "Node \<Rightarrow> string" where
  "node_gsiLmtSK node =
    RFC3339Nano (case nm_LastModifiedAt (nd_Metadata node) of None \<Rightarrow> 0 | Some t \<Rightarrow> t) @ ''#'' @ NodeId node"

definition canonicalNode :: "Node \<Rightarrow> Node" where
  "canonicalNode node = setNodeVersion 0 (setNodeLastModifiedAt None (setNodeCreatedAt None node))"

definition node_contentDigest :: "(Node, 'b) codec \<Rightarrow> Node \<Rightarrow> 'b result" where
  "node_contentDigest cd node =
    (case MarshalDeterministic cd (canonicalNode node) of
       Inl err \<Rightarrow> Inl (wrapf ''marshal canonical node'' err)
     | Inr encoded \<Rightarrow> Inr (Sum256 cd encoded))"

definition node_digestFromAttrs :: "'b item \<Rightarrow> 'b option" where
  "node_digestFromAttrs attrs = (case attrs attrNodeContentDigest of Some (AB b) \<Rightarrow> Some b | _ \<Rightarrow> None)"

definition node_stringFromAttrs :: "'b item \<Rightarrow> string \<Rightarrow> string option" where
  "node_stringFromAttrs attrs name =
    (case attrs name of Some (AS v) \<Rightarrow> Some v | Some (AN v) \<Rightarrow> Some v | _ \<Rightarrow> None)"

definition node_toItem :: "(Node, 'b) codec \<Rightarrow> Node \<Rightarrow> 'b \<Rightarrow> 'b item result" where
  "node_toItem cd node digest =
    (case Marshal cd node of
       Inl err \<Rightarrow> Inl (wrapf ''marshal node'' err)
     | Inr pb \<Rightarrow>
       Inr [attrNodeID \<mapsto> AS (NodeId node), attrNodeStatusPhase \<mapsto> AS (NodePhaseString (NodeStatusPhase node)),
            attrGSIConstHK \<mapsto> AS allNodesPartition, node_attrGSILmtSK \<mapsto> AS (node_gsiLmtSK node),
            attrNodeVersion \<mapsto> AN (fmt_d (NodeVersion node)), attrNodePB \<mapsto> AB pb,
            attrNodeContentDigest \<mapsto> AB digest])"

definition nodeFromAttrs :: "(Node, 'b) codec \<Rightarrow> 'b item \<Rightarrow> string \<Rightarrow> Node result" where
  "nodeFromAttrs cd attrs ident =
    (case attrs attrNodePB of
       None \<Rightarrow> Inl (New (''node '' @ quote ident @ '': stored row has no '' @ attrNodePB @ '' attribute''))
     | Some (AB b) \<Rightarrow>
         (case Unmarshal cd b of
            Inl err \<Rightarrow> Inl (Wrap (''node '' @ quote ident @ '': unmarshal stored row: '') err [])
          | Inr n \<Rightarrow> Inr n)
     | Some _ \<Rightarrow> Inl (New (''node '' @ quote ident @ '': stored '' @ attrNodePB @ '' is not bytes'')))"

section \<open>Reads and the conditional write\<close>

record ('w, 'b) nodeDynamoDB =
  nb_client :: "('w, 'b) dynamo_client"
  nb_tableName :: string
  nb_codec :: "(Node, 'b) codec"

definition nodeErr :: "string \<Rightarrow> string \<Rightarrow> goerr \<Rightarrow> goerr" where
  "nodeErr ident what err = Wrap (''node '' @ quote ident @ '': '' @ what) err []"

definition node_fetchStoredItem :: "('w, 'b) nodeDynamoDB \<Rightarrow> 'w \<Rightarrow> 'b item \<Rightarrow> string \<Rightarrow> 'b item result" where
  "node_fetchStoredItem d w cceItem ident =
    (if cceItem \<noteq> Map.empty then Inr cceItem
     else GetItem (nb_client d) w (nb_tableName d) attrNodeID ident)"

definition putCondition :: "int64 \<Rightarrow> 'b cond" where
  "putCondition expectedVersion =
    (if expectedVersion = 0 then AttributeNotExists attrNodeID
     else CondAnd (AttributeExists attrNodeID) (AttrEq attrNodeVersion (AN (fmt_d expectedVersion))))"

definition diagnosePutConflict :: "string \<Rightarrow> int64 \<Rightarrow> 'b item \<Rightarrow> goerr" where
  "diagnosePutConflict ident expectedVersion stored =
    (if expectedVersion = 0 then nodeErr ident [] ErrAlreadyExists
     else if stored = Map.empty then nodeErr ident [] ErrNotFound
     else case node_stringFromAttrs stored attrNodeVersion of
       Some storedVersion \<Rightarrow>
         nodeErr ident (''expected version '' @ fmt_d expectedVersion @ '' but stored version is '' @ storedVersion @ '': '')
           ErrVersionConflict
     | None \<Rightarrow> nodeErr ident [] ErrVersionConflict)"

text \<open>The fields \<open>Put\<close> stamps before it writes.\<close>

definition stampNode :: "Timestamp \<Rightarrow> Node \<Rightarrow> Node" where
  "stampNode now node =
    (let node = (if NodeVersion node = 0 then setNodeCreatedAt (Some now) node else node) in
     setNodeLastModifiedAt (Some now) node)"

definition bumpNode :: "Node \<Rightarrow> Node" where
  "bumpNode node =
    setNodeVersion (if NodeVersion node = 0 then node_initialVersion else wrap64 (NodeVersion node + 1)) node"

definition node_Put :: "('w, 'b) nodeDynamoDB \<Rightarrow> Timestamp \<Rightarrow> 'w \<Rightarrow> Node \<Rightarrow> 'w \<times> Node result" where
  "node_Put d now w node =
    (let ident = NodeId node; expectedVersion = NodeVersion node; stamped = stampNode now node in
     case node_contentDigest (nb_codec d) stamped of
       Inl err \<Rightarrow> (w, Inl (nodeErr ident ''build digest: '' err))
     | Inr digest \<Rightarrow>
    (case node_toItem (nb_codec d) (bumpNode stamped) digest of
       Inl err \<Rightarrow> (w, Inl (nodeErr ident ''build item: '' err))
     | Inr item \<Rightarrow>
    (case PutItem (nb_client d) w (nb_tableName d) item (putCondition expectedVersion) of
       (w', PutOk) \<Rightarrow> (w', Inr (bumpNode stamped))
     | (w', PutErr err) \<Rightarrow> (w', Inl (nodeErr ident ''put item: '' err))
     | (w', CondFailed cceItem) \<Rightarrow>
       (case node_fetchStoredItem d w' cceItem ident of
          Inl err \<Rightarrow> (w', Inl (nodeErr ident ''read stored row after conflict: '' err))
        | Inr stored \<Rightarrow>
          if node_digestFromAttrs stored = Some digest then (w', Inr (bumpNode stamped))
          else (w', Inl (diagnosePutConflict ident expectedVersion stored))))))"

definition node_Get :: "('w, 'b) nodeDynamoDB \<Rightarrow> 'w \<Rightarrow> string \<Rightarrow> Node result" where
  "node_Get d w ident =
    (case GetItem (nb_client d) w (nb_tableName d) attrNodeID ident of
       Inl err \<Rightarrow> Inl (nodeErr ident ''get item: '' err)
     | Inr item \<Rightarrow>
         if item = Map.empty then Inl (nodeErr ident [] ErrNotFound)
         else nodeFromAttrs (nb_codec d) item ident)"

section \<open>The contract of \<open>node.DB\<close>\<close>

text \<open>The form in which a message is stored, and whether a stored row is what the caller's version expects.\<close>

definition storedNode :: "Timestamp \<Rightarrow> Node \<Rightarrow> Node" where
  "storedNode now node = bumpNode (stampNode now node)"

definition expectedRow :: "Node option \<Rightarrow> int64 \<Rightarrow> bool" where
  "expectedRow st v = (case st of None \<Rightarrow> v = 0 | Some s \<Rightarrow> v \<noteq> 0 \<and> NodeVersion s = v)"

lemmas node_stamps = setNodeVersion_def setNodeCreatedAt_def setNodeLastModifiedAt_def NodeId_def NodeVersion_def
  NodeStatusPhase_def stampNode_def bumpNode_def storedNode_def Let_def

lemma storedNode_id [simp]: "NodeId (storedNode now n) = NodeId n"
  by (simp add: node_stamps)

lemma storedNode_version: "NodeVersion (storedNode now n) = (if NodeVersion n = 0 then 1 else wrap64 (NodeVersion n + 1))"
  by (simp add: node_stamps node_initialVersion_def)

text \<open>Versions start at 1, wrap from the largest to the smallest 64-bit integer, and stop at 0, where the row
  can no longer be updated: in that order they never come back.\<close>

definition versionRank :: "int64 \<Rightarrow> int" where
  "versionRank v = (v - 1) mod 2 ^ 64"

lemma versionRank_step:
  assumes "in_int64 v" "v \<noteq> 0"
  shows "versionRank (wrap64 (v + 1)) = versionRank v + 1"
proof -
  have "versionRank (wrap64 (v + 1)) = v mod 2 ^ 64"
    by (simp add: versionRank_def wrap64_def mod_simps)
  moreover have "x mod 2 ^ 64 = x + 2 ^ 64" if "- (2 ^ 64) \<le> x" "x < 0" for x :: int
    using mod_pos_pos_trivial [of "x + 2 ^ 64" "2 ^ 64"] that by simp
  then have "(v - 1) mod 2 ^ 64 + 1 = v mod 2 ^ 64"
    using assms by (cases "v > 0") (simp_all add: in_int64_def mod_pos_pos_trivial)
  ultimately show ?thesis by (simp add: versionRank_def)
qed

text \<open>A write by anyone, and what writes do to a row: nothing, or its version advances.\<close>

definition putStep :: "(Timestamp \<Rightarrow> 'w \<Rightarrow> Node \<Rightarrow> 'w \<times> Node result) \<Rightarrow> 'w \<Rightarrow> 'w \<Rightarrow> bool" where
  "putStep put w w' = (\<exists>now n. w' = fst (put now w n))"

definition advanced :: "Node \<Rightarrow> Node \<Rightarrow> bool" where
  "advanced a b = (a = b \<or> versionRank (NodeVersion a) < versionRank (NodeVersion b))"

locale node_db =
  fixes put :: "Timestamp \<Rightarrow> 'w \<Rightarrow> Node \<Rightarrow> 'w \<times> Node result"
    and get :: "'w \<Rightarrow> string \<Rightarrow> Node result"
    and view :: "'w \<Rightarrow> string \<rightharpoonup> Node"
    and ok :: "'w \<Rightarrow> bool"
    and same :: "Node \<Rightarrow> Node \<Rightarrow> bool"
  assumes node_put: "ok w \<Longrightarrow> put now w n = (w', r) \<Longrightarrow>
      ok w' \<and> (view w' = view w \<or>
        expectedRow (view w (NodeId n)) (NodeVersion n) \<and> view w' = (view w)(NodeId n \<mapsto> storedNode now n))"
    and node_put_done: "ok w \<Longrightarrow> put now w n = (w', Inr n') \<Longrightarrow>
      n' = storedNode now n \<and>
      (expectedRow (view w (NodeId n)) (NodeVersion n) \<and> view w' = (view w)(NodeId n \<mapsto> n')
       \<or> (\<exists>st. view w (NodeId n) = Some st \<and> same st n) \<and> view w' = view w)"
    and node_get: "ok w \<Longrightarrow> get w k = Inr n \<Longrightarrow> view w k = Some n"
    and node_ident: "ok w \<Longrightarrow> view w k = Some n \<Longrightarrow> NodeId n = k"
    and node_version: "ok w \<Longrightarrow> view w k = Some n \<Longrightarrow> in_int64 (NodeVersion n)"
begin

lemma putStep_advances:
  assumes "ok w" "putStep put w w'"
  shows "ok w' \<and> (\<forall>k a. view w k = Some a \<longrightarrow> (\<exists>b. view w' k = Some b \<and> advanced a b))"
proof -
  from assms(2) obtain now n r where p: "put now w n = (w', r)" by (metis putStep_def prod.collapse)
  show ?thesis
  proof (intro conjI allI impI)
    show "ok w'" using node_put [OF assms(1) p] by simp
    fix k a
    assume a: "view w k = Some a"
    show "\<exists>b. view w' k = Some b \<and> advanced a b"
    proof (cases "view w' = view w \<or> k \<noteq> NodeId n")
      case True
      then have "view w' k = Some a" using node_put [OF assms(1) p] a by auto
      then show ?thesis by (simp add: advanced_def)
    next
      case False
      then have "NodeVersion n \<noteq> 0" "NodeVersion a = NodeVersion n" "view w' k = Some (storedNode now n)"
        using node_put [OF assms(1) p] a by (auto simp: expectedRow_def)
      then show ?thesis
        using node_version [OF assms(1) a] by (simp add: advanced_def storedNode_version versionRank_step)
    qed
  qed
qed

lemma puts_advance:
  assumes "(putStep put)\<^sup>*\<^sup>* w w'" "ok w"
  shows "ok w' \<and> (\<forall>k a. view w k = Some a \<longrightarrow> (\<exists>b. view w' k = Some b \<and> advanced a b))"
  using assms(1)
proof induction
  case base
  then show ?case using assms(2) by (simp add: advanced_def)
next
  case (step y z)
  then have "ok z" and adv: "\<forall>k a. view y k = Some a \<longrightarrow> (\<exists>b. view z k = Some b \<and> advanced a b)"
    using putStep_advances [of y z] by simp_all
  moreover have "advanced a c" if "advanced a b" "advanced b c" for a b c
    using that by (auto simp: advanced_def)
  ultimately show ?case using step.IH by meson
qed

text \<open>A row found at the version it was read at has not been written in between.\<close>

lemma version_identifies:
  assumes "ok w" "(putStep put)\<^sup>*\<^sup>* w w'" "view w k = Some a" "view w' k = Some b" "NodeVersion a = NodeVersion b"
  shows "a = b"
proof -
  from puts_advance [OF assms(2,1)] assms(3,4) have "advanced a b" by (metis option.inject)
  with assms(5) show ?thesis by (simp add: advanced_def)
qed

end

section \<open>The DynamoDB implementation\<close>

text \<open>The schema of the table, and the rows that obey it: the attributes of a row have the declared types and
  say what the encoded message says.\<close>

definition node_row_typed :: "(Node, 'b) codec \<Rightarrow> string \<Rightarrow> 'b item \<Rightarrow> bool" where
  "node_row_typed cd k it = (\<exists>n pb dg.
     it = [attrNodeID \<mapsto> AS k, attrNodeStatusPhase \<mapsto> AS (NodePhaseString (NodeStatusPhase n)),
           attrGSIConstHK \<mapsto> AS ''node'', node_attrGSILmtSK \<mapsto> AS (node_gsiLmtSK n),
           attrNodeVersion \<mapsto> AN (fmt_d (NodeVersion n)), attrNodePB \<mapsto> AB pb, attrNodeContentDigest \<mapsto> AB dg]
     \<and> NodeId n = k \<and> Unmarshal cd pb = Inr n \<and> node_contentDigest cd n = Inr dg \<and> in_int64 (NodeVersion n))"

definition node_rows_typed :: "(Node, 'b) codec \<Rightarrow> (string \<rightharpoonup> 'b item) \<Rightarrow> bool" where
  "node_rows_typed cd r = (\<forall>k it. r k = Some it \<longrightarrow> node_row_typed cd k it)"

definition node_view :: "(Node, 'b) codec \<Rightarrow> (string \<rightharpoonup> 'b item) \<Rightarrow> string \<rightharpoonup> Node" where
  "node_view cd = entity_view (nodeFromAttrs cd)"

definition node_rows_ok :: "(Node, 'b) codec \<Rightarrow> (string \<rightharpoonup> 'b item) \<Rightarrow> bool" where
  "node_rows_ok cd r = (entity_rows (node_toItem cd) (node_contentDigest cd) NodeId r
     \<and> (\<forall>k n. node_view cd r k = Some n \<longrightarrow> in_int64 (NodeVersion n)))"

definition same_node :: "(Node, 'b) codec \<Rightarrow> Node \<Rightarrow> Node \<Rightarrow> bool" where
  "same_node cd st n = (isOk (node_contentDigest cd n) \<and> node_contentDigest cd st = node_contentDigest cd n)"

lemma node_digest_stored [simp]:
  "node_contentDigest cd (storedNode now n) = node_contentDigest cd n"
  "node_contentDigest cd (stampNode now n) = node_contentDigest cd n"
  by (simp_all add: node_contentDigest_def canonicalNode_def node_stamps)

locale node_dynamo = dynamo_table "nb_client d" "nb_tableName d" attrNodeID rows + faithful_codec "nb_codec d"
  for d :: "('w, 'b) nodeDynamoDB" and rows :: "'w \<Rightarrow> string \<rightharpoonup> 'b item"

sublocale node_dynamo \<subseteq> entity_table "nb_client d" "nb_tableName d" attrNodeID rows
    "node_toItem (nb_codec d)" "nodeFromAttrs (nb_codec d)" "node_contentDigest (nb_codec d)" NodeId attrNodeContentDigest
  by unfold_locales
    (auto simp: node_toItem_def nodeFromAttrs_def node_attr_names unmarshal_marshal split: sum.splits)

context node_dynamo
begin

abbreviation ncd :: "(Node, 'b) codec" where "ncd \<equiv> nb_codec d"

lemma put_condition:
  assumes "good w"
  shows "holds (putCondition v) (stored_item (rows w) k) \<longleftrightarrow> expectedRow (view w k) v"
proof (cases "v = 0")
  case True
  then show ?thesis using absent [OF assms] by (simp add: putCondition_def expectedRow_def split: option.split)
next
  case False
  show ?thesis
  proof (cases "rows w k")
    case None
    then show ?thesis using False by (simp add: putCondition_def expectedRow_def stored_item_def entity_view_def)
  next
    case (Some it)
    then obtain m dg where m: "node_toItem ncd m dg = Inr it" "view w k = Some m" by (rule stored [OF assms])
    from m(1) have "it attrNodeVersion = Some (AN (fmt_d (NodeVersion m)))" "it attrNodeID \<noteq> None"
      by (auto simp: node_toItem_def node_attr_names split: sum.splits)
    then show ?thesis using False Some m(2) by (auto simp: putCondition_def expectedRow_def stored_item_def)
  qed
qed

lemma PutE:
  assumes "node_Put d now w n = (w', r)"
  obtains e where "w' = w" "r = Inl e"
  | dg it res where "node_contentDigest ncd n = Inr dg" "node_toItem ncd (storedNode now n) dg = Inr it"
      "PutItem (nb_client d) w (nb_tableName d) it (putCondition (NodeVersion n)) = (w', res)"
      "isOk r \<Longrightarrow> r = Inr (storedNode now n) \<and> (res = PutOk \<or> (\<exists>old st. res = CondFailed old
         \<and> node_fetchStoredItem d w' old (NodeId n) = Inr st \<and> node_digestFromAttrs st = Some dg))"
proof (cases "node_contentDigest ncd n")
  case (Inl e)
  then show thesis using assms that(1) by (auto simp: node_Put_def Let_def)
next
  case (Inr dg)
  show thesis
  proof (cases "node_toItem ncd (storedNode now n) dg")
    case (Inl e)
    then show thesis using assms Inr that(1) by (auto simp: node_Put_def Let_def storedNode_def)
  next
    case it: (Inr it)
    obtain w1 res where put: "PutItem (nb_client d) w (nb_tableName d) it (putCondition (NodeVersion n)) = (w1, res)" by fastforce
    have "w' = w1 \<and> (isOk r \<longrightarrow> r = Inr (storedNode now n) \<and> (res = PutOk \<or> (\<exists>old st. res = CondFailed old
         \<and> node_fetchStoredItem d w' old (NodeId n) = Inr st \<and> node_digestFromAttrs st = Some dg)))"
      using assms Inr it put
      by (auto simp: node_Put_def Let_def storedNode_def isOk_iff split: put_result.splits sum.splits if_splits)
    then show thesis using that(2) [OF Inr it] put by auto
  qed
qed

lemma ok_good: "node_rows_ok ncd (rows w) \<Longrightarrow> good w"
  by (simp add: node_rows_ok_def)

lemma stored_in_range: "in_int64 (NodeVersion (storedNode now n))"
  by (simp add: storedNode_version wrap64_range) (simp add: in_int64_def)

lemma Put_effect:
  assumes ok: "node_rows_ok ncd (rows w)" and p: "node_Put d now w n = (w', r)"
  shows "node_rows_ok ncd (rows w') \<and> (view w' = view w \<or>
    expectedRow (view w (NodeId n)) (NodeVersion n) \<and> view w' = (view w)(NodeId n \<mapsto> storedNode now n))"
  using p
proof (rule PutE)
  fix dg it res
  assume "node_contentDigest ncd n = Inr dg" and it: "node_toItem ncd (storedNode now n) dg = Inr it"
    and put: "PutItem (nb_client d) w (nb_tableName d) it (putCondition (NodeVersion n)) = (w', res)"
  then have "node_contentDigest ncd (storedNode now n) = Inr dg" by simp
  from put_cases [OF ok_good [OF ok] it this put] ok show ?thesis
    by (auto simp: put_condition [OF ok_good [OF ok]] node_rows_ok_def node_view_def stored_in_range split: if_splits)
qed (use ok in simp)

lemma Put_done:
  assumes ok: "node_rows_ok ncd (rows w)" and p: "node_Put d now w n = (w', Inr n')"
  shows "n' = storedNode now n \<and>
    (expectedRow (view w (NodeId n)) (NodeVersion n) \<and> view w' = (view w)(NodeId n \<mapsto> n')
     \<or> (\<exists>st. view w (NodeId n) = Some st \<and> same_node ncd st n) \<and> view w' = view w)"
  using p
proof (rule PutE)
  fix dg it res
  assume dg: "node_contentDigest ncd n = Inr dg" and it: "node_toItem ncd (storedNode now n) dg = Inr it"
    and put: "PutItem (nb_client d) w (nb_tableName d) it (putCondition (NodeVersion n)) = (w', res)"
    and r: "isOk (Inr n') \<Longrightarrow> Inr n' = Inr (storedNode now n) \<and> (res = PutOk \<or> (\<exists>old st. res = CondFailed old
         \<and> node_fetchStoredItem d w' old (NodeId n) = Inr st \<and> node_digestFromAttrs st = Some dg))"
  note g = ok_good [OF ok]
  from dg have dg': "node_contentDigest ncd (storedNode now n) = Inr dg" by simp
  from r have n': "n' = storedNode now n"
    and c: "res = PutOk \<or> (\<exists>old st. res = CondFailed old
         \<and> node_fetchStoredItem d w' old (NodeId n) = Inr st \<and> node_digestFromAttrs st = Some dg)" by (auto simp: isOk_iff)
  show ?thesis
  proof (cases "res = PutOk")
    case True
    from put_stored [OF g it dg' put [unfolded True]] n' show ?thesis by (simp add: put_condition [OF g])
  next
    case False
    with c obtain old st where o: "res = CondFailed old" "node_fetchStoredItem d w' old (NodeId n) = Inr st"
      "node_digestFromAttrs st = Some dg" by blast
    from put_refused [OF it put [unfolded o(1)]]
    have w': "rows w' = rows w" and old: "old = Map.empty \<or> old = stored_item (rows w) (NodeId n)" by simp_all
    have "st = stored_item (rows w) (NodeId n)"
      using old o(2) get_ok [of w' "NodeId n" st] w' by (auto simp: node_fetchStoredItem_def split: if_splits)
    then have "digest_attr attrNodeContentDigest (stored_item (rows w) (NodeId n)) = Some dg"
      using o(3) by (simp add: digest_attr_def node_digestFromAttrs_def)
    then obtain m where "view w (NodeId n) = Some m" "node_contentDigest ncd m = Inr dg" by (rule digest_stored [OF g])
    then show ?thesis using n' dg w' by (auto simp: same_node_def isOk_iff)
  qed
qed simp

lemma Get_view:
  assumes "node_rows_ok ncd (rows w)" "node_Get d w k = Inr n"
  shows "view w k = Some n"
proof (cases "rows w k")
  case None
  then show ?thesis
    using assms(2) get_stored [of w k] by (auto simp: node_Get_def stored_item_def isOk_iff split: sum.splits if_splits)
next
  case (Some it)
  then obtain m dg where m: "node_toItem ncd m dg = Inr it" "view w k = Some m" "it \<noteq> Map.empty"
    by (rule stored [OF ok_good [OF assms(1)]])
  then show ?thesis
    using assms(2) item_read [OF m(1), of k] Some get_ok [of w k]
    by (auto simp: node_Get_def stored_item_def split: sum.splits if_splits)
qed

lemma ok_typed:
  assumes "node_rows_ok ncd (rows w)"
  shows "node_rows_typed ncd (rows w)"
  unfolding node_rows_typed_def
proof (intro allI impI)
  fix k it
  assume it: "rows w k = Some it"
  then obtain n dg where n: "node_toItem ncd n dg = Inr it" "node_contentDigest ncd n = Inr dg" "NodeId n = k" "view w k = Some n"
    by (rule stored [OF ok_good [OF assms]])
  from n(4) assms have "in_int64 (NodeVersion n)" by (simp add: node_rows_ok_def node_view_def)
  moreover from n(1) obtain pb where "Marshal ncd n = Inr pb" "it = [attrNodeID \<mapsto> AS k,
      attrNodeStatusPhase \<mapsto> AS (NodePhaseString (NodeStatusPhase n)), attrGSIConstHK \<mapsto> AS ''node'',
      node_attrGSILmtSK \<mapsto> AS (node_gsiLmtSK n), attrNodeVersion \<mapsto> AN (fmt_d (NodeVersion n)), attrNodePB \<mapsto> AB pb,
      attrNodeContentDigest \<mapsto> AB dg]"
    using n(3) by (auto simp: node_toItem_def allNodesPartition_def split: sum.splits)
  ultimately show "node_row_typed ncd k it"
    using n(2,3) unmarshal_marshal [of n pb] unfolding node_row_typed_def
    by (intro exI [of _ n] exI [of _ pb] exI [of _ dg]) simp
qed

end

sublocale node_dynamo \<subseteq> node_db "node_Put d" "node_Get d" "\<lambda>w. node_view (nb_codec d) (rows w)"
    "\<lambda>w. node_rows_ok (nb_codec d) (rows w)" "same_node (nb_codec d)"
proof
  fix w now n w' r
  assume "node_rows_ok (nb_codec d) (rows w)" "node_Put d now w n = (w', r)"
  from Put_effect [OF this] show "node_rows_ok (nb_codec d) (rows w') \<and>
     (node_view (nb_codec d) (rows w') = node_view (nb_codec d) (rows w) \<or>
      expectedRow (node_view (nb_codec d) (rows w) (NodeId n)) (NodeVersion n) \<and>
      node_view (nb_codec d) (rows w') = (node_view (nb_codec d) (rows w))(NodeId n \<mapsto> storedNode now n))"
    by (simp add: node_view_def)
next
  fix w now n w' n'
  assume "node_rows_ok (nb_codec d) (rows w)" "node_Put d now w n = (w', Inr n')"
  from Put_done [OF this] show "n' = storedNode now n \<and>
     (expectedRow (node_view (nb_codec d) (rows w) (NodeId n)) (NodeVersion n) \<and>
      node_view (nb_codec d) (rows w') = (node_view (nb_codec d) (rows w))(NodeId n \<mapsto> n') \<or>
      (\<exists>st. node_view (nb_codec d) (rows w) (NodeId n) = Some st \<and> same_node (nb_codec d) st n) \<and>
      node_view (nb_codec d) (rows w') = node_view (nb_codec d) (rows w))"
    unfolding node_view_def .
qed (auto simp: node_view_def node_rows_ok_def intro: Get_view [unfolded node_rows_ok_def node_view_def] view_ident)

context node_dynamo
begin

lemma puts_ok: "(putStep (node_Put d))\<^sup>*\<^sup>* w w' \<Longrightarrow> node_rows_ok (nb_codec d) (rows w) \<Longrightarrow> node_rows_ok (nb_codec d) (rows w')"
  using puts_advance by blast

lemma contract: "node_db (node_Put d) (node_Get d) (\<lambda>w. node_view (nb_codec d) (rows w))
    (\<lambda>w. node_rows_ok (nb_codec d) (rows w)) (same_node (nb_codec d))"
  by (rule node_db_axioms)

end

section \<open>The implementation over a table in memory\<close>

definition mem_node_db :: "(string \<rightharpoonup> Node item, Node) nodeDynamoDB" where
  "mem_node_db = \<lparr> nb_client = mem_client attrNodeID, nb_tableName = ''nodes'', nb_codec = id_codec \<rparr>"

interpretation mndb: node_dynamo mem_node_db "\<lambda>w. w"
  by unfold_locales (auto simp: mem_node_db_def mem_client_def id_codec_def split: if_splits)

definition wit_new_node :: Node where
  "wit_new_node = \<lparr> nd_Metadata = \<lparr> nm_Id = ''n1'', nm_Version = 0, nm_CreatedAt = None, nm_LastModifiedAt = None \<rparr>,
     nd_Resources = None, nd_Metrics = None, nd_Status = Some \<lparr> ns_Phase = NODE_HEALTHY, ns_Message = [] \<rparr>, nd_AwsEc2 = None \<rparr>"

definition mem_node_item :: "Node \<Rightarrow> Node item" where
  "mem_node_item n = projr (node_toItem id_codec n (canonicalNode n))"

lemma mem_node_toItem:
  "node_toItem id_codec n (canonicalNode n) = Inr (mem_node_item n)" "mem_node_item n attrNodeID = Some (AS (NodeId n))"
  by (simp_all add: mem_node_item_def node_toItem_def id_codec_def node_attr_names)

lemma mem_node_digest: "node_contentDigest id_codec n = Inr (canonicalNode n)"
  by (simp add: node_contentDigest_def id_codec_def)

lemma canonical_stored: "canonicalNode (storedNode now n) = canonicalNode n" "canonicalNode (stampNode now n) = canonicalNode n"
  by (simp_all add: canonicalNode_def node_stamps)

lemma mem_node_Put_new:
  assumes "w (NodeId n) = None" "NodeVersion n = 0"
  shows "node_Put mem_node_db now w n = (w(NodeId n \<mapsto> mem_node_item (storedNode now n)), Inr (storedNode now n))"
  using assms mem_node_toItem [of "storedNode now n"]
  by (simp add: node_Put_def mem_node_db_def mem_node_digest canonical_stored storedNode_def [symmetric] mem_client_def
      stored_item_def putCondition_def Let_def)

lemma mem_node_item_attrs:
  "mem_node_item n attrNodeVersion = Some (AN (fmt_d (NodeVersion n)))" "mem_node_item n attrNodeContentDigest = Some (AB (canonicalNode n))"
  "mem_node_item n \<noteq> Map.empty" "nodeFromAttrs id_codec (mem_node_item n) k = Inr n"
  using mem_node_toItem(2) [of n]
  by (auto simp: mem_node_item_def node_toItem_def nodeFromAttrs_def id_codec_def node_attr_names)

lemma mem_node_Get: "node_Get mem_node_db w k = (case w k of None \<Rightarrow> Inl (nodeErr k [] ErrNotFound)
    | Some it \<Rightarrow> if it = Map.empty then Inl (nodeErr k [] ErrNotFound) else nodeFromAttrs id_codec it k)"
  by (simp add: node_Get_def mem_node_db_def mem_client_def stored_item_def split: option.split)

lemma mem_node_Put_old:
  assumes "w (NodeId n) = Some (mem_node_item st)" "NodeVersion n \<noteq> 0"
  shows "node_Put mem_node_db now w n =
    (if NodeVersion st = NodeVersion n
     then (w(NodeId n \<mapsto> mem_node_item (storedNode now n)), Inr (storedNode now n))
     else if canonicalNode st = canonicalNode n then (w, Inr (storedNode now n))
     else (w, Inl (diagnosePutConflict (NodeId n) (NodeVersion n) (mem_node_item st))))"
  using assms mem_node_toItem [of "storedNode now n"] mem_node_toItem(2) [of st] mem_node_item_attrs [of st]
  by (auto simp: node_Put_def mem_node_db_def mem_node_digest canonical_stored storedNode_def [symmetric] mem_client_def
      stored_item_def putCondition_def Let_def node_fetchStoredItem_def node_digestFromAttrs_def)

text \<open>C21: the node table is well typed. Whatever writes servers make to a table that starts empty, in whatever
  order and with whatever outcome, every row has exactly the attributes of the schema with their types;
  its key, phase, sort key and version attributes say what the encoded node says, its digest is that of
  the node, and the version is a 64-bit integer.\<close>

theorem node_table_typed:
  assumes "node_dynamo d rows" and "rows w = Map.empty" and "(putStep (node_Put d))\<^sup>*\<^sup>* w w'"
  shows "node_rows_typed (nb_codec d) (rows w')"
proof -
  have "node_rows_ok (nb_codec d) (rows w)"
    using assms(2) by (simp add: node_rows_ok_def entity_rows_def node_view_def entity_view_def)
  then have "node_rows_ok (nb_codec d) (rows w')"
    using node_dynamo.puts_ok [OF assms(1,3)] by blast
  then show ?thesis by (rule node_dynamo.ok_typed [OF assms(1)])
qed

theorem node_table_typed_witness:
  "node_rows_typed id_codec (fst (node_Put mem_node_db 7 Map.empty wit_new_node))
   \<and> fst (node_Put mem_node_db 7 Map.empty wit_new_node) ''n1'' \<noteq> None"
proof
  have "putStep (node_Put mem_node_db) Map.empty (fst (node_Put mem_node_db 7 Map.empty wit_new_node))"
    unfolding putStep_def by blast
  from node_table_typed [OF mndb.node_dynamo_axioms _ r_into_rtranclp [of "putStep (node_Put mem_node_db)", OF this]]
  show "node_rows_typed id_codec (fst (node_Put mem_node_db 7 Map.empty wit_new_node))" by (simp add: mem_node_db_def)
  show "fst (node_Put mem_node_db 7 Map.empty wit_new_node) ''n1'' \<noteq> None"
    by (simp add: mem_node_Put_new wit_new_node_def NodeId_def NodeVersion_def)
qed

end
