(* ===== verification/Api_Service.thy ===== *)
theory Api_Service
  imports Sandbox_DB
begin

text \<open>
  The sandbox handlers of the api-server, \<open>api-server/pkg/service\<close>: the database wrapper that
  publishes an event after each successful write, the mapping of database errors to gRPC codes,
  the random scheduler, and the handlers behind the sandbox RPCs. Handlers call the database
  through the record \<open>sandbox_DB\<close>, the Go interface value; both the DynamoDB implementation and the
  event-publishing wrapper fill it, and both satisfy the contract \<open>sandbox_db\<close>. Requests have passed
  validation before they reach a handler. Logging and tracing are left out.
\<close>

section \<open>The database interface and its event-publishing wrapper\<close>

record 'w sandbox_DB =
  db_Create :: "Timestamp \<Rightarrow> 'w \<Rightarrow> Sandbox \<Rightarrow> 'w \<times> Sandbox result"
  db_Update :: "Timestamp \<Rightarrow> 'w \<Rightarrow> Sandbox \<Rightarrow> 'w \<times> Sandbox result"
  db_Get :: "'w \<Rightarrow> string \<Rightarrow> Sandbox result"

definition dynamo_DB :: "('w, 'b) dynamoDB \<Rightarrow> 'w sandbox_DB" where
  "dynamo_DB d = \<lparr> db_Create = sandbox_Create d, db_Update = sandbox_Update d, db_Get = sandbox_Get d \<rparr>"

text \<open>\<open>wd_retry maxElapsed op\<close> stands for \<open>backoff.Retry\<close>: it calls \<open>op\<close> until it succeeds or the time is
  used up. \<open>wd_now\<close> reads the clock.\<close>

record 'w WatchableDB =
  wd_db :: "'w sandbox_DB"
  wd_publish :: "'w \<Rightarrow> Event \<Rightarrow> 'w \<times> unit result"
  wd_retry :: "int64 \<Rightarrow> ('w \<Rightarrow> 'w \<times> unit result) \<Rightarrow> 'w \<Rightarrow> 'w \<times> unit result"
  wd_now :: "'w \<Rightarrow> Timestamp"
  wd_publishMaxElapsedTime :: int64

definition defaultPublishMaxElapsedTime :: int64 where
  "defaultPublishMaxElapsedTime = 30 * 1000000000"

definition emitEvent :: "'w WatchableDB \<Rightarrow> 'w \<Rightarrow> Sandbox \<Rightarrow> 'w" where
  "emitEvent wd w sandbox =
    (let event = \<lparr> ev_Id = [], ev_EmittedAt = Some (wd_now wd w), ev_Sandbox = Some sandbox \<rparr>;
         maxElapsed = (if wd_publishMaxElapsedTime wd = 0 then defaultPublishMaxElapsedTime
                       else wd_publishMaxElapsedTime wd)
     in fst (wd_retry wd maxElapsed (\<lambda>w. wd_publish wd w event) w))"

definition watchable_Create ::
  "'w WatchableDB \<Rightarrow> Timestamp \<Rightarrow> 'w \<Rightarrow> Sandbox \<Rightarrow> 'w \<times> Sandbox result" where
  "watchable_Create wd now w sandbox =
    (case db_Create (wd_db wd) now w sandbox of
       (w', Inl err) \<Rightarrow> (w', Inl err)
     | (w', Inr sb) \<Rightarrow> (emitEvent wd w' sb, Inr sb))"

definition watchable_Get :: "'w WatchableDB \<Rightarrow> 'w \<Rightarrow> string \<Rightarrow> Sandbox result" where
  "watchable_Get wd w sid = db_Get (wd_db wd) w sid"

definition watchable_Update ::
  "'w WatchableDB \<Rightarrow> Timestamp \<Rightarrow> 'w \<Rightarrow> Sandbox \<Rightarrow> 'w \<times> Sandbox result" where
  "watchable_Update wd now w sandbox =
    (case db_Update (wd_db wd) now w sandbox of
       (w', Inl err) \<Rightarrow> (w', Inl err)
     | (w', Inr sb) \<Rightarrow> (emitEvent wd w' sb, Inr sb))"

definition watchable_DB :: "'w WatchableDB \<Rightarrow> 'w sandbox_DB" where
  "watchable_DB wd = \<lparr> db_Create = watchable_Create wd, db_Update = watchable_Update wd,
     db_Get = watchable_Get wd \<rparr>"

section \<open>errors.go\<close>

text \<open>\<open>status.FromError\<close>: the first gRPC status in the chain of wrapped errors.\<close>

fun grpcCode :: "goerr \<Rightarrow> code option" where
  "grpcCode (New m) = None"
| "grpcCode (GStatus c m) = Some c"
| "grpcCode (Wrap pre e post) = grpcCode e"

definition isTypedGRPCError :: "goerr \<Rightarrow> bool" where
  "isTypedGRPCError err = (case grpcCode err of None \<Rightarrow> False | Some c \<Rightarrow> c \<noteq> Unknown)"

definition dbErrToStatus :: "string \<Rightarrow> string \<Rightarrow> goerr \<Rightarrow> goerr" where
  "dbErrToStatus entity op err =
    (if isTypedGRPCError err then err
     else if errors_Is err ErrAlreadyExists then GStatus AlreadyExists (Error err)
     else if errors_Is err ErrNotFound then GStatus NotFound (Error err)
     else if errors_Is err ErrVersionConflict then GStatus Aborted (Error err)
     else if errors_Is err ErrInvalidPhaseTransition then GStatus FailedPrecondition (Error err)
     else if errors_Is err ErrInvalidListOptions \<or> errors_Is err ErrInvalidContinuationToken
     then GStatus InvalidArgument (Error err)
     else GStatus Internal (''failed to '' @ op @ '' '' @ entity))"

section \<open>The random scheduler\<close>

definition ErrNoHealthyNodes :: goerr where
  "ErrNoHealthyNodes = New ''no healthy nodes available for scheduling''"

text \<open>\<open>listHealthy\<close> stands for the first page of healthy nodes of \<open>nodeDB.List\<close>, \<open>pick\<close> for \<open>rand.IntN\<close>.\<close>

definition random_Schedule ::
  "('w \<Rightarrow> Node list result) \<Rightarrow> ('w \<Rightarrow> nat \<Rightarrow> nat) \<Rightarrow> 'w \<Rightarrow> Sandbox \<Rightarrow> Sandbox result" where
  "random_Schedule listHealthy pick w sb =
    (case listHealthy w of
       Inl err \<Rightarrow> Inl (wrapf ''random scheduler: list healthy nodes'' err)
     | Inr candidates \<Rightarrow>
         if length candidates = 0 then Inl ErrNoHealthyNodes
         else Inr (sb\<lparr> sb_Node := Some (NodeId (candidates ! pick w (length candidates))) \<rparr>))"

section \<open>sandbox.go\<close>

record 'w apiServer =
  as_db :: "'w sandbox_DB"
  as_snapshotGet :: "'w \<Rightarrow> string \<Rightarrow> Snapshot result"
  as_schedule :: "'w \<Rightarrow> Sandbox \<Rightarrow> Sandbox result"

definition validateSnapshotSource ::
  "'w apiServer \<Rightarrow> 'w \<Rightarrow> Sandbox \<Rightarrow> string \<Rightarrow> Snapshot result" where
  "validateSnapshotSource a w sb snapshotID =
    (if sb_Resources sb \<noteq> None
     then Inl (GStatus InvalidArgument
       (''sandbox.resources must not be set when metadata.source carries a snapshot_id: ''
        @ ''Firecracker bakes vCPU and memory into the snapshot and forbids overriding them on restore''))
     else case as_snapshotGet a w snapshotID of
       Inl err \<Rightarrow>
         if errors_Is err ErrNotFound
         then Inl (GStatus NotFound (''snapshot '' @ quote snapshotID
                @ '' referenced by sandbox.metadata.source not found''))
         else Inl (GStatus Internal ''failed to verify sandbox source'')
     | Inr snap \<Rightarrow>
         if sn_Namespace (snap_Metadata snap) \<noteq> GetNamespace sb
         then Inl (GStatus FailedPrecondition (''snapshot '' @ quote snapshotID @ '' belongs to namespace ''
                @ quote (sn_Namespace (snap_Metadata snap)) @ '' but sandbox is in namespace ''
                @ quote (GetNamespace sb) @ ''; cross-namespace restores are not allowed''))
         else if snap_Resources snap = None
         then Inl (GStatus FailedPrecondition (''snapshot '' @ quote snapshotID
                @ '' predates the resources contract '' @ [CHR 0xE2, CHR 0x80, CHR 0x94]
                @ '' re-take the snapshot to record its vCPU and memory configuration''))
         else Inr snap)"

definition validateSandboxSource :: "'w apiServer \<Rightarrow> 'w \<Rightarrow> Sandbox \<Rightarrow> Snapshot option result" where
  "validateSandboxSource a w sb =
    (case sm_Source (sb_Metadata sb) of
       None \<Rightarrow> Inr None
     | Some Source_unset \<Rightarrow> Inr None
     | Some (Source_SnapshotId sid) \<Rightarrow>
         (case validateSnapshotSource a w sb sid of Inl err \<Rightarrow> Inl err | Inr snap \<Rightarrow> Inr (Some snap))
     | Some (Source_ImageId iid) \<Rightarrow>
         Inl (GStatus Unimplemented (''sandbox source image_id '' @ quote iid
            @ '': image-based sandbox creation is not yet supported'')))"

definition CreateSandbox ::
  "'w apiServer \<Rightarrow> Timestamp \<Rightarrow> 'w \<Rightarrow> Sandbox \<Rightarrow> 'w \<times> Sandbox result" where
  "CreateSandbox a now w req =
    (let sb = (setVersion 0 req)\<lparr> sb_Node := None,
           sb_Status := Some \<lparr> ss_Phase = PHASE_PENDING, ss_Message = [] \<rparr>,
           sb_Intent := Some \<lparr> in_Phase = PHASE_RUNNING, in_StartSnapshot = None \<rparr> \<rparr>
     in case validateSandboxSource a w sb of
          Inl err \<Rightarrow> (w, Inl err)
        | Inr snap \<Rightarrow>
     (let resolved = (case snap of
            Some s \<Rightarrow> Inr (sb\<lparr> sb_Resources := snap_Resources s \<rparr>)
          | None \<Rightarrow> if sb_Resources sb = None
                    then Inl (GStatus InvalidArgument
                      ''sandbox.resources is required unless metadata.source carries a snapshot_id'')
                    else Inr sb)
      in case resolved of
          Inl err \<Rightarrow> (w, Inl err)
        | Inr sb1 \<Rightarrow>
      (case as_schedule a w sb1 of
          Inl err \<Rightarrow>
            if errors_Is err ErrNoHealthyNodes then (w, Inl (GStatus FailedPrecondition (Error err)))
            else (w, Inl (GStatus Internal ''failed to schedule sandbox''))
        | Inr sb2 \<Rightarrow>
       (case db_Create (as_db a) now w sb2 of
          (w', Inl err) \<Rightarrow> (w', Inl (dbErrToStatus ''sandbox'' ''create'' err))
        | (w', Inr sb3) \<Rightarrow> (w', Inr sb3)))))"

definition GetSandbox :: "'w apiServer \<Rightarrow> 'w \<Rightarrow> string \<Rightarrow> Sandbox result" where
  "GetSandbox a w sid =
    (case db_Get (as_db a) w sid of
       Inl err \<Rightarrow> Inl (dbErrToStatus ''sandbox'' ''get'' err) | Inr sb \<Rightarrow> Inr sb)"

definition transitionPhase ::
  "'w apiServer \<Rightarrow> Timestamp \<Rightarrow> 'w \<Rightarrow> string \<Rightarrow> int64 \<Rightarrow> Phase \<Rightarrow> Phase \<Rightarrow> string
   \<Rightarrow> 'w \<times> Sandbox result" where
  "transitionPhase a now w sid version targetStatus targetIntent op =
    (case db_Get (as_db a) w sid of
       Inl err \<Rightarrow> (w, Inl (dbErrToStatus ''sandbox'' op err))
     | Inr sb0 \<Rightarrow>
       (let sb = (setVersion version sb0)\<lparr>
              sb_Status := Some \<lparr> ss_Phase = targetStatus, ss_Message = [] \<rparr>,
              sb_Intent := Some \<lparr> in_Phase = targetIntent, in_StartSnapshot = None \<rparr> \<rparr>
        in case db_Update (as_db a) now w sb of
             (w', Inl err) \<Rightarrow> (w', Inl (dbErrToStatus ''sandbox'' op err))
           | (w', Inr sb') \<Rightarrow> (w', Inr sb')))"

definition PauseSandbox ::
  "'w apiServer \<Rightarrow> Timestamp \<Rightarrow> 'w \<Rightarrow> string \<Rightarrow> int64 \<Rightarrow> 'w \<times> Sandbox result" where
  "PauseSandbox a now w sid version =
    transitionPhase a now w sid version PHASE_PAUSING PHASE_PAUSED ''pause''"

definition ResumeSandbox ::
  "'w apiServer \<Rightarrow> Timestamp \<Rightarrow> 'w \<Rightarrow> string \<Rightarrow> int64 \<Rightarrow> 'w \<times> Sandbox result" where
  "ResumeSandbox a now w sid version =
    transitionPhase a now w sid version PHASE_RESUMING PHASE_RUNNING ''resume''"

definition DeleteSandbox ::
  "'w apiServer \<Rightarrow> Timestamp \<Rightarrow> 'w \<Rightarrow> string \<Rightarrow> int64 \<Rightarrow> 'w \<times> Sandbox result" where
  "DeleteSandbox a now w sid version =
    transitionPhase a now w sid version PHASE_DELETING PHASE_DELETED ''delete''"

definition StartSnapshot ::
  "'w apiServer \<Rightarrow> Timestamp \<Rightarrow> 'w \<Rightarrow> string \<Rightarrow> int64 \<Rightarrow> string \<Rightarrow> 'w \<times> Sandbox result" where
  "StartSnapshot a now w sid version description =
    (case db_Get (as_db a) w sid of
       Inl err \<Rightarrow> (w, Inl (dbErrToStatus ''sandbox'' ''start snapshot'' err))
     | Inr sb0 \<Rightarrow>
       (let savedPhase = GetStatusPhase sb0;
            sb = (setVersion version sb0)\<lparr>
              sb_Intent := Some \<lparr> in_Phase = savedPhase, in_StartSnapshot = Some description \<rparr>,
              sb_Status := Some \<lparr> ss_Phase = PHASE_SNAPSHOTTING, ss_Message = [] \<rparr> \<rparr>
        in case db_Update (as_db a) now w sb of
             (w', Inl err) \<Rightarrow> (w', Inl (dbErrToStatus ''sandbox'' ''start snapshot'' err))
           | (w', Inr sb') \<Rightarrow> (w', Inr sb')))"

section \<open>The handlers over the contract of the database\<close>

text \<open>The handlers rely on the contract \<open>sandbox_db\<close> of the interface value they are given.\<close>

locale service_db = sandbox_db "db_Create db" "db_Update db" "db_Get db" view ok same
  for db :: "'w sandbox_DB"
    and view :: "'w \<Rightarrow> string \<rightharpoonup> Sandbox"
    and ok :: "'w \<Rightarrow> bool"
    and same :: "Sandbox \<Rightarrow> Sandbox \<Rightarrow> bool"

text \<open>The sandbox that a handler asks the database to store.\<close>

definition transitioned :: "int64 \<Rightarrow> Phase \<Rightarrow> Phase \<Rightarrow> Sandbox \<Rightarrow> Sandbox" where
  "transitioned version targetStatus targetIntent sb0 =
    (setVersion version sb0)\<lparr>
      sb_Status := Some \<lparr> ss_Phase = targetStatus, ss_Message = [] \<rparr>,
      sb_Intent := Some \<lparr> in_Phase = targetIntent, in_StartSnapshot = None \<rparr> \<rparr>"

definition snapshotting :: "int64 \<Rightarrow> string \<Rightarrow> Sandbox \<Rightarrow> Sandbox" where
  "snapshotting version description sb0 =
    (setVersion version sb0)\<lparr>
      sb_Intent := Some \<lparr> in_Phase = GetStatusPhase sb0, in_StartSnapshot = Some description \<rparr>,
      sb_Status := Some \<lparr> ss_Phase = PHASE_SNAPSHOTTING, ss_Message = [] \<rparr> \<rparr>"

lemma transitioned_get [simp]:
  "GetId (transitioned v ts ti sb) = GetId sb"
  "GetVersion (transitioned v ts ti sb) = v"
  "GetStatusPhase (transitioned v ts ti sb) = ts"
  "GetIntentPhase (transitioned v ts ti sb) = ti"
  by (simp_all add: transitioned_def getters setVersion_def)

lemma snapshotting_get [simp]:
  "GetId (snapshotting v ds sb) = GetId sb"
  "GetVersion (snapshotting v ds sb) = v"
  "GetStatusPhase (snapshotting v ds sb) = PHASE_SNAPSHOTTING"
  "GetIntentPhase (snapshotting v ds sb) = GetStatusPhase sb"
  by (simp_all add: snapshotting_def getters setVersion_def)

lemma transitionPhase_alt:
  "transitionPhase a now w sid version tgS tgI op =
    (case db_Get (as_db a) w sid of
       Inl err \<Rightarrow> (w, Inl (dbErrToStatus ''sandbox'' op err))
     | Inr sb0 \<Rightarrow> onErr (dbErrToStatus ''sandbox'' op)
                   (db_Update (as_db a) now w (transitioned version tgS tgI sb0)))"
  by (simp add: transitionPhase_def transitioned_def Let_def onErr_def split: sum.splits prod.splits)

lemma StartSnapshot_alt:
  "StartSnapshot a now w sid version description =
    (case db_Get (as_db a) w sid of
       Inl err \<Rightarrow> (w, Inl (dbErrToStatus ''sandbox'' ''start snapshot'' err))
     | Inr sb0 \<Rightarrow> onErr (dbErrToStatus ''sandbox'' ''start snapshot'')
                   (db_Update (as_db a) now w (snapshotting version description sb0)))"
  by (simp add: StartSnapshot_def snapshotting_def Let_def onErr_def split: sum.splits prod.splits)

context service_db
begin

text \<open>Shared by every handler that reads a row, rewrites it with \<open>f\<close> and updates: the row changes only
  from the version the caller named and from a phase the target phase may follow.\<close>

lemma rewrite_effect:
  assumes ok: "ok w" and get: "db_Get db w sid = Inr sb0" and id: "GetId (f sb0) = sid"
    and h: "onErr g (db_Update db now w (f sb0)) = (w', r)"
  shows "ok w' \<and> (view w' = view w \<or>
    (\<exists>st. view w sid = Some st \<and> GetVersion st = GetVersion (f st)
       \<and> phase_allowed (GetStatusPhase st) (GetStatusPhase (f st))
       \<and> view w' = (view w)(sid \<mapsto> updated now (f st))))"
proof -
  have v: "view w sid = Some sb0" using db_get_ok [OF ok get] .
  obtain r' where "db_Update db now w (f sb0) = (w', r')"
    using h by (cases "db_Update db now w (f sb0)"; cases "snd (db_Update db now w (f sb0))") auto
  from update_effect [OF ok this] show ?thesis using v id by auto
qed

lemma transition_effect:
  assumes a: "as_db a = db" and ok: "ok w"
    and h: "transitionPhase a now w sid version tgS tgI op = (w', r)"
  shows "ok w' \<and> (view w' = view w \<or>
    (\<exists>st. view w sid = Some st \<and> GetVersion st = version \<and> phase_allowed (GetStatusPhase st) tgS
       \<and> view w' = (view w)(sid \<mapsto> updated now (transitioned version tgS tgI st))))"
proof (cases "db_Get db w sid")
  case (Inl e)
  then show ?thesis using h ok a by (simp add: transitionPhase_alt)
next
  case (Inr sb0)
  then have "GetId sb0 = sid" using db_get_ok view_id ok by blast
  with rewrite_effect [OF ok Inr, of "transitioned version tgS tgI"] h a Inr show ?thesis
    by (simp add: transitionPhase_alt)
qed

lemma snapshot_effect:
  assumes a: "as_db a = db" and ok: "ok w"
    and h: "StartSnapshot a now w sid version ds = (w', r)"
  shows "ok w' \<and> (view w' = view w \<or>
    (\<exists>st. view w sid = Some st \<and> GetVersion st = version
       \<and> phase_allowed (GetStatusPhase st) PHASE_SNAPSHOTTING
       \<and> view w' = (view w)(sid \<mapsto> updated now (snapshotting version ds st))))"
proof (cases "db_Get db w sid")
  case (Inl e)
  then show ?thesis using h ok a by (simp add: StartSnapshot_alt)
next
  case (Inr sb0)
  then have "GetId sb0 = sid" using db_get_ok view_id ok by blast
  with rewrite_effect [OF ok Inr, of "snapshotting version ds"] h a Inr show ?thesis
    by (simp add: StartSnapshot_alt)
qed

end

section \<open>The wrapper implements the contract\<close>

text \<open>Publishing an event does not touch the rows, and \<open>backoff.Retry\<close> does nothing but run its
  operation: whatever the operation keeps, the retries keep.\<close>

locale publishing_db = inner: service_db "wd_db wd" view ok same
  for wd :: "'w WatchableDB"
    and view :: "'w \<Rightarrow> string \<rightharpoonup> Sandbox"
    and ok :: "'w \<Rightarrow> bool"
    and same :: "Sandbox \<Rightarrow> Sandbox \<Rightarrow> bool" +
  assumes publish_rows: "view (fst (wd_publish wd w ev)) = view w"
    and publish_ok: "ok w \<Longrightarrow> ok (fst (wd_publish wd w ev))"
    and retry_keeps: "(\<And>w. I w \<Longrightarrow> I (fst (opr w))) \<Longrightarrow> I w \<Longrightarrow> I (fst (wd_retry wd t opr w))"
begin

lemma emit_keeps: "ok w \<Longrightarrow> ok (emitEvent wd w sb) \<and> view (emitEvent wd w sb) = view w"
  unfolding emitEvent_def Let_def
  by (rule retry_keeps [where I = "\<lambda>w'. ok w' \<and> view w' = view w"])
     (auto simp: publish_rows publish_ok)

end

lemma watchable_DB_sel [simp]:
  "db_Create (watchable_DB wd) = watchable_Create wd" "db_Update (watchable_DB wd) = watchable_Update wd"
  "db_Get (watchable_DB wd) = watchable_Get wd"
  by (simp_all add: watchable_DB_def)

sublocale publishing_db \<subseteq> outer: service_db "watchable_DB wd" view ok same
proof
  fix now w sb w' sb'
  assume "ok w" "db_Create (watchable_DB wd) now w sb = (w', Inr sb')"
  then obtain w1 where "db_Create (wd_db wd) now w sb = (w1, Inr sb')" "w' = emitEvent wd w1 sb'"
    by (auto simp: watchable_Create_def split: prod.splits sum.splits)
  with inner.create_ok [OF \<open>ok w\<close>] emit_keeps
  show "ok w' \<and> sb' = created now sb \<and>
      (view w (GetId sb) = None \<and> view w' = (view w)(GetId sb \<mapsto> sb') \<or>
       (\<exists>st. view w (GetId sb) = Some st \<and> same st sb) \<and> view w' = view w)" by metis
next
  fix now w sb w' e
  assume "ok w" "db_Create (watchable_DB wd) now w sb = (w', Inl e)"
  then have "db_Create (wd_db wd) now w sb = (w', Inl e)"
    by (auto simp: watchable_Create_def split: prod.splits sum.splits)
  with inner.create_err [OF \<open>ok w\<close>]
  show "ok w' \<and> (view w' = view w \<or>
        view w (GetId sb) = None \<and> view w' = (view w)(GetId sb \<mapsto> created now sb))" by blast
next
  fix now w sb w' sb'
  assume "ok w" "db_Update (watchable_DB wd) now w sb = (w', Inr sb')"
  then obtain w1 where "db_Update (wd_db wd) now w sb = (w1, Inr sb')" "w' = emitEvent wd w1 sb'"
    by (auto simp: watchable_Update_def split: prod.splits sum.splits)
  with inner.update_ok [OF \<open>ok w\<close>] emit_keeps
  show "ok w' \<and> sb' = updated now sb \<and>
      (\<exists>st. view w (GetId sb) = Some st \<and>
        (GetVersion st = GetVersion sb \<and> phase_allowed (GetStatusPhase st) (GetStatusPhase sb)
           \<and> view w' = (view w)(GetId sb \<mapsto> sb') \<or>
         same st sb \<and> view w' = view w))" by metis
next
  fix now w sb w' e
  assume "ok w" "db_Update (watchable_DB wd) now w sb = (w', Inl e)"
  then have "db_Update (wd_db wd) now w sb = (w', Inl e)"
    by (auto simp: watchable_Update_def split: prod.splits sum.splits)
  with inner.update_err [OF \<open>ok w\<close>]
  show "ok w' \<and> (view w' = view w \<or>
        (\<exists>st. view w (GetId sb) = Some st \<and> GetVersion st = GetVersion sb
           \<and> phase_allowed (GetStatusPhase st) (GetStatusPhase sb)
           \<and> view w' = (view w)(GetId sb \<mapsto> updated now sb)))" by blast
qed (auto simp: watchable_Get_def intro: inner.db_get_ok inner.view_id)

context publishing_db
begin

lemma service_outer: "service_db (watchable_DB wd) view ok same"
  by unfold_locales

end

section \<open>Placement\<close>

text \<open>A scheduler only fills in the node.\<close>

locale scheduler =
  fixes schedule :: "'w \<Rightarrow> Sandbox \<Rightarrow> Sandbox result"
  assumes only_node: "schedule w sb = Inr sb' \<Longrightarrow> \<exists>n. sb' = sb\<lparr> sb_Node := Some n \<rparr>"

interpretation rnd: scheduler "random_Schedule listHealthy pick"
  by unfold_locales (auto simp: random_Schedule_def split: sum.splits if_splits)

lemma random_Schedule_healthy:
  assumes "random_Schedule listHealthy pick w sb = Inr sb'" "\<And>n. 0 < n \<Longrightarrow> pick w n < n"
  shows "\<exists>nodes nd. listHealthy w = Inr nodes \<and> nd \<in> set nodes \<and> GetNodeId sb' = NodeId nd"
proof -
  from assms(1) obtain nodes where "listHealthy w = Inr nodes" "nodes \<noteq> []"
    "sb' = sb\<lparr> sb_Node := Some (NodeId (nodes ! pick w (length nodes))) \<rparr>"
    by (auto simp: random_Schedule_def split: sum.splits if_splits)
  moreover from this have "nodes ! pick w (length nodes) \<in> set nodes" using assms(2) by simp
  ultimately show ?thesis by (auto simp: GetNodeId_def)
qed

text \<open>What \<open>CreateSandbox\<close> hands to the database, when it gets that far.\<close>

definition pending :: "Sandbox \<Rightarrow> Sandbox" where
  "pending req = (setVersion 0 req)\<lparr> sb_Node := None,
     sb_Status := Some \<lparr> ss_Phase = PHASE_PENDING, ss_Message = [] \<rparr>,
     sb_Intent := Some \<lparr> in_Phase = PHASE_RUNNING, in_StartSnapshot = None \<rparr> \<rparr>"

lemma pending_get [simp]:
  "GetId (pending req) = GetId req" "GetNamespace (pending req) = GetNamespace req"
  "sb_Resources (pending req) = sb_Resources req" "sm_Source (sb_Metadata (pending req)) = sm_Source (sb_Metadata req)"
  by (simp_all add: pending_def getters setVersion_def GetNamespace_def)

text \<open>The admission rule for the source and the resources: from a snapshot of the same namespace with the
  snapshot's resources, or without a snapshot and with resources of its own.\<close>

definition admitted :: "'w apiServer \<Rightarrow> 'w \<Rightarrow> Sandbox \<Rightarrow> Resources \<Rightarrow> bool" where
  "admitted a w req res =
    (case sm_Source (sb_Metadata req) of
       Some (Source_SnapshotId sid) \<Rightarrow>
         sb_Resources req = None \<and>
         (case as_snapshotGet a w sid of Inl _ \<Rightarrow> False
          | Inr snap \<Rightarrow> sn_Namespace (snap_Metadata snap) = GetNamespace req \<and> snap_Resources snap = Some res)
     | Some (Source_ImageId _) \<Rightarrow> False
     | _ \<Rightarrow> sb_Resources req = Some res)"

definition resolved :: "Sandbox \<Rightarrow> Snapshot option \<Rightarrow> Sandbox result" where
  "resolved sb snap = (case snap of
     Some s \<Rightarrow> Inr (sb\<lparr> sb_Resources := snap_Resources s \<rparr>)
   | None \<Rightarrow> if sb_Resources sb = None
             then Inl (GStatus InvalidArgument
               ''sandbox.resources is required unless metadata.source carries a snapshot_id'')
             else Inr sb)"

lemma CreateSandbox_alt:
  "CreateSandbox a now w req =
    (case validateSandboxSource a w (pending req) of
       Inl err \<Rightarrow> (w, Inl err)
     | Inr snap \<Rightarrow> (case resolved (pending req) snap of
         Inl err \<Rightarrow> (w, Inl err)
       | Inr sb1 \<Rightarrow> (case as_schedule a w sb1 of
           Inl err \<Rightarrow>
             if errors_Is err ErrNoHealthyNodes then (w, Inl (GStatus FailedPrecondition (Error err)))
             else (w, Inl (GStatus Internal ''failed to schedule sandbox''))
         | Inr sb2 \<Rightarrow> (case db_Create (as_db a) now w sb2 of
             (w', Inl err) \<Rightarrow> (w', Inl (dbErrToStatus ''sandbox'' ''create'' err))
           | (w', Inr sb3) \<Rightarrow> (w', Inr sb3)))))"
  unfolding CreateSandbox_def pending_def resolved_def Let_def ..

lemma resolved_admitted:
  assumes "validateSandboxSource a w (pending req) = Inr snap" "resolved (pending req) snap = Inr sb1"
  shows "\<exists>res. admitted a w req res \<and> sb1 = pending req\<lparr> sb_Resources := Some res \<rparr>"
proof (cases snap)
  case None
  with assms(2) obtain res where res: "sb_Resources req = Some res" and "sb1 = pending req"
    by (auto simp: resolved_def split: if_splits)
  then have "sb1 = pending req\<lparr> sb_Resources := Some res \<rparr>" by (simp add: pending_def setVersion_def)
  then show ?thesis using assms(1) None res
    by (auto simp: validateSandboxSource_def admitted_def split: option.splits SandboxSource.splits sum.splits)
next
  case (Some s)
  with assms(1) obtain sid where "sm_Source (sb_Metadata req) = Some (Source_SnapshotId sid)"
    "validateSnapshotSource a w (pending req) sid = Inr s"
    by (auto simp: validateSandboxSource_def split: option.splits SandboxSource.splits sum.splits)
  then show ?thesis using assms(2) Some
    by (auto simp: resolved_def validateSnapshotSource_def admitted_def split: sum.splits if_splits)
qed

lemma CreateSandbox_success:
  assumes sch: "scheduler (as_schedule a)"
    and c: "CreateSandbox a now w req = (w', Inr sb')"
  shows "\<exists>res n. admitted a w req res \<and>
    db_Create (as_db a) now w (pending req\<lparr> sb_Resources := Some res, sb_Node := Some n \<rparr>) = (w', Inr sb')"
proof -
  from c obtain snap sb1 sb2 where s1: "validateSandboxSource a w (pending req) = Inr snap"
    "resolved (pending req) snap = Inr sb1" and s2: "as_schedule a w sb1 = Inr sb2"
    and cr: "db_Create (as_db a) now w sb2 = (w', Inr sb')"
    unfolding CreateSandbox_alt by (auto split: sum.splits prod.splits if_splits)
  from scheduler.only_node [OF sch s2] obtain n where n: "sb2 = sb1\<lparr> sb_Node := Some n \<rparr>" by blast
  from resolved_admitted [OF s1] cr n show ?thesis by auto
qed

section \<open>Error codes\<close>

lemma dbErrToStatus_typed: "isTypedGRPCError (dbErrToStatus entity op err)"
  by (simp add: dbErrToStatus_def isTypedGRPCError_def)

lemma dbErrToStatus_sandboxErr [simp]:
  "grpcCode (dbErrToStatus entity op (sandboxErr sid x ErrNotFound)) = Some NotFound"
  "grpcCode (dbErrToStatus entity op (sandboxErr sid x ErrVersionConflict)) = Some Aborted"
  "grpcCode (dbErrToStatus entity op (sandboxErr sid x ErrInvalidPhaseTransition)) = Some FailedPrecondition"
  by (simp_all add: dbErrToStatus_def isTypedGRPCError_def sandboxErr_def ErrNotFound_def
      ErrVersionConflict_def ErrInvalidPhaseTransition_def ErrAlreadyExists_def)

lemma diagnose_code:
  assumes "toItem cd st dg = Inr it"
  shows "grpcCode (dbErrToStatus entity op (diagnoseUpdateConflict sid v target it)) =
    Some (if phase_allowed (GetStatusPhase st) target then Aborted else FailedPrecondition)"
proof -
  have "\<exists>x. diagnoseUpdateConflict sid v target it = sandboxErr sid x ErrVersionConflict
          \<or> diagnoseUpdateConflict sid v target it = sandboxErr sid x ErrInvalidPhaseTransition"
    by (auto simp: diagnoseUpdateConflict_def Let_def split: option.splits)
  with diagnose_Is [OF assms, of sid v target] show ?thesis
    by (auto simp: sandboxErr_def ErrVersionConflict_def ErrInvalidPhaseTransition_def
        dbErrToStatus_def isTypedGRPCError_def ErrNotFound_def ErrAlreadyExists_def)
qed

lemma dynamo_DB_sel [simp]:
  "db_Create (dynamo_DB d) = sandbox_Create d" "db_Update (dynamo_DB d) = sandbox_Update d"
  "db_Get (dynamo_DB d) = sandbox_Get d"
  by (simp_all add: dynamo_DB_def)

section \<open>A server over a table in memory\<close>

definition mem_wd :: "(string \<rightharpoonup> Sandbox item) WatchableDB" where
  "mem_wd = \<lparr> wd_db = dynamo_DB mem_db, wd_publish = (\<lambda>w ev. (w, Inr ())), wd_retry = (\<lambda>t opr w. opr w),
     wd_now = (\<lambda>w. 0), wd_publishMaxElapsedTime = 0 \<rparr>"

lemma mem_wd_sel [simp]:
  "wd_db mem_wd = dynamo_DB mem_db" "emitEvent mem_wd w sb = w"
  by (simp_all add: mem_wd_def emitEvent_def Let_def)

interpretation memwd: publishing_db mem_wd "row_view id_codec" "rows_ok id_codec" "same_digest id_codec"
proof -
  have "sandbox_db (sandbox_Create mem_db) (sandbox_Update mem_db) (sandbox_Get mem_db)
      (row_view id_codec) (rows_ok id_codec) (same_digest id_codec)"
    using memdb.implements_db by simp
  then show "publishing_db mem_wd (row_view id_codec) (rows_ok id_codec) (same_digest id_codec)"
    by (simp add: publishing_db_def service_db_def publishing_db_axioms_def mem_wd_def)
qed

definition wit_node :: Node where
  "wit_node = \<lparr> nd_Metadata = \<lparr> nm_Id = ''node-a'', nm_Version = 1, nm_CreatedAt = None, nm_LastModifiedAt = None \<rparr>,
     nd_Resources = None, nd_Metrics = None,
     nd_Status = Some \<lparr> ns_Phase = NODE_HEALTHY, ns_Message = [] \<rparr>, nd_AwsEc2 = None \<rparr>"

definition mem_api :: "(string \<rightharpoonup> Sandbox item) apiServer" where
  "mem_api = \<lparr> as_db = watchable_DB mem_wd, as_snapshotGet = (\<lambda>w sid. Inl ErrNotFound),
     as_schedule = random_Schedule (\<lambda>w. Inr [wit_node]) (\<lambda>w n. 0) \<rparr>"

definition wit_resources :: Resources where
  "wit_resources = \<lparr> rs_VcpuCount = 1, rs_MemoryMib = 512, rs_DiskMib = 1024 \<rparr>"

definition wit_request :: Sandbox where
  "wit_request = wit_sandbox\<lparr> sb_Resources := Some wit_resources \<rparr>"

section \<open>Properties\<close>

text \<open>The life-cycle requests of a client: from which status, to which status and intent.\<close>

fun request_step :: "Phase \<Rightarrow> Phase \<Rightarrow> Phase \<Rightarrow> bool" where
  "request_step from PHASE_PAUSING intent = (from = PHASE_RUNNING \<and> intent = PHASE_PAUSED)"
| "request_step from PHASE_RESUMING intent = (from = PHASE_PAUSED \<and> intent = PHASE_RUNNING)"
| "request_step from PHASE_SNAPSHOTTING intent =
     (from \<in> {PHASE_RUNNING, PHASE_PAUSED} \<and> intent = from)"
| "request_step from PHASE_DELETING intent = (intent = PHASE_DELETED)"
| "request_step from _ intent = False"

definition client_update :: "int64 \<Rightarrow> Sandbox \<Rightarrow> Sandbox \<Rightarrow> bool" where
  "client_update v st st' \<longleftrightarrow> GetVersion st = v \<and> GetVersion st' = wrap64 (v + 1)
     \<and> request_step (GetStatusPhase st) (GetStatusPhase st') (GetIntentPhase st')
     \<and> sb_Node st' = sb_Node st \<and> sb_Resources st' = sb_Resources st"

lemma client_update_transitioned:
  assumes "phase_allowed (GetStatusPhase st) s" "GetVersion st = v"
    "(s, i) \<in> {(PHASE_PAUSING, PHASE_PAUSED), (PHASE_RESUMING, PHASE_RUNNING), (PHASE_DELETING, PHASE_DELETED)}"
  shows "client_update v st (updated now (transitioned v s i st))"
  using assms
  by (auto simp: client_update_def phase_allowed_def requiredPriorPhases_def updated_def transitioned_def getters)

lemma client_update_snapshotting:
  assumes "phase_allowed (GetStatusPhase st) PHASE_SNAPSHOTTING" "GetVersion st = v"
  shows "client_update v st (updated now (snapshotting v ds st))"
  using assms
  by (auto simp: client_update_def phase_allowed_def requiredPriorPhases_def updated_def snapshotting_def getters)

text \<open>C8: a pause, resume, delete or snapshot request, on the database behind the event-publishing
  wrapper and whatever it returns, changes at most the row it names, and only as the life cycle
  allows: from the version the caller named, from a status the request may follow, to the
  matching status and intent, with the version bumped and the placement and resources kept.\<close>

theorem handlers_guarded:
  assumes db: "publishing_db wd view ok same" and a: "as_db a = watchable_DB wd" and ok: "ok w"
    and h: "(w', r) \<in> {PauseSandbox a now w sid v, ResumeSandbox a now w sid v,
       DeleteSandbox a now w sid v, StartSnapshot a now w sid v ds}"
  shows "ok w' \<and> (view w' = view w \<or>
    (\<exists>st st'. view w sid = Some st \<and> client_update v st st' \<and> view w' = (view w)(sid \<mapsto> st')))"
proof -
  note sv = publishing_db.service_outer [OF db]
  from h consider
    (t) s i op where "transitionPhase a now w sid v s i op = (w', r)"
      "(s, i) \<in> {(PHASE_PAUSING, PHASE_PAUSED), (PHASE_RESUMING, PHASE_RUNNING), (PHASE_DELETING, PHASE_DELETED)}"
  | (s) "StartSnapshot a now w sid v ds = (w', r)"
    by (auto simp: PauseSandbox_def ResumeSandbox_def DeleteSandbox_def)
  then show ?thesis
  proof cases
    case t
    from service_db.transition_effect [OF sv a ok t(1)] show ?thesis
      using client_update_transitioned [OF _ _ t(2)] by blast
  next
    case s
    from service_db.snapshot_effect [OF sv a ok s] show ?thesis
      using client_update_snapshotting by blast
  qed
qed

theorem handlers_guarded_witness:
  "\<exists>w' r. PauseSandbox mem_api 7 wit_rows ''sb-1'' 0 = (w', r) \<and> isOk r \<and>
     row_view id_codec w' \<noteq> row_view id_codec wit_rows \<and>
     (\<exists>st'. client_update 0 wit_sandbox st' \<and> row_view id_codec w' ''sb-1'' = Some st')"
proof -
  let ?sb = "transitioned 0 PHASE_PAUSING PHASE_PAUSED wit_sandbox"
  let ?w = "wit_rows(''sb-1'' \<mapsto> mem_item (updated 7 ?sb))"
  have p: "PauseSandbox mem_api 7 wit_rows ''sb-1'' 0 = (?w, Inr (updated 7 ?sb))"
    using memrel.Get_result_total [of wit_rows "''sb-1''"]
    by (simp add: PauseSandbox_def transitionPhase_alt mem_api_def watchable_Get_def watchable_Update_def
        wit_rows_ok wit_view mem_Update phase_allowed_def requiredPriorPhases_def)
  have "row_view id_codec ?w ''sb-1'' \<noteq> row_view id_codec wit_rows ''sb-1''"
    by (simp add: mem_view wit_view updated_def transitioned_def wit_sandbox_def getters)
  then have ne: "row_view id_codec ?w \<noteq> row_view id_codec wit_rows" by metis
  from handlers_guarded [OF memwd.publishing_db_axioms, of mem_api wit_rows ?w "Inr (updated 7 ?sb)" 7 "''sb-1''" 0 "[]"]
    p ne wit_rows_ok
  obtain st st' where "row_view id_codec wit_rows ''sb-1'' = Some st" "client_update 0 st st'"
    "row_view id_codec ?w = (row_view id_codec wit_rows)(''sb-1'' \<mapsto> st')" by (auto simp: mem_api_def)
  then show ?thesis using p ne by (simp add: wit_view)
qed

text \<open>C39: when DynamoDB answers, the outcome of a life-cycle request is decided by the stored row.
  It is the bumped sandbox when the row is at the named version and in an allowed phase or already
  has the requested content; otherwise the code is \<open>NotFound\<close> without a row, \<open>FailedPrecondition\<close>
  from a phase that does not allow the request, and \<open>Aborted\<close> on a stale version.\<close>

theorem transition_outcome:
  assumes rel: "reliable_dynamo d rows" and ok: "rows_ok (dd_codec d) (rows w)"
    and a: "as_db a = dynamo_DB d"
  shows "case (row_view (dd_codec d) (rows w) sid, snd (transitionPhase a now w sid v tgS tgI op)) of
      (None, r) \<Rightarrow> (\<exists>e. r = Inl e \<and> grpcCode e = Some NotFound)
    | (Some st, r) \<Rightarrow>
        if GetVersion st = v \<and> phase_allowed (GetStatusPhase st) tgS
           \<or> same_digest (dd_codec d) st (transitioned v tgS tgI st)
        then r = Inr (updated now (transitioned v tgS tgI st))
        else \<exists>e. r = Inl e \<and> grpcCode e =
               Some (if phase_allowed (GetStatusPhase st) tgS then Aborted else FailedPrecondition)"
proof (cases "rows w sid")
  case None
  then show ?thesis
    using reliable_dynamo.Get_result_total [OF rel ok, of sid] a
    by (auto simp: transitionPhase_alt row_view_def)
next
  case (Some si)
  note dyn = reliable_dynamo.axioms(1) [OF rel]
  from sandbox_dynamo.stored_row [OF dyn ok Some] obtain st dg where
    st: "toItem (dd_codec d) st dg = Inr si" "row_view (dd_codec d) (rows w) sid = Some st" "GetId st = sid"
    by metis
  from st(2,3) show ?thesis
    using reliable_dynamo.Get_result_total [OF rel ok, of sid] a Some
      reliable_dynamo.Update_result [OF rel ok, of now "transitioned v tgS tgI st"]
      diagnose_code [OF st(1)]
    by (auto simp: transitionPhase_alt stored_item_def onErr_def split: prod.splits sum.splits if_splits)
qed

theorem transition_outcome_witness:
  "\<exists>e. snd (transitionPhase (mem_api\<lparr> as_db := dynamo_DB mem_db \<rparr>) 7 wit_rows ''sb-1'' 0
        PHASE_RESUMING PHASE_RUNNING ''resume'') = Inl e \<and> grpcCode e = Some FailedPrecondition"
proof -
  have "\<not> same_digest id_codec wit_sandbox (transitioned 0 PHASE_RESUMING PHASE_RUNNING wit_sandbox)"
    by (simp add: same_digest_def canonicalSandbox_def transitioned_def wit_sandbox_def getters)
  moreover have "\<not> phase_allowed PHASE_RUNNING PHASE_RESUMING"
    by (simp add: phase_allowed_def requiredPriorPhases_def)
  ultimately show ?thesis
    using transition_outcome [OF memrel.reliable_dynamo_axioms, where w = wit_rows and sid = "''sb-1''"
        and a = "mem_api\<lparr> as_db := dynamo_DB mem_db \<rparr>" and now = 7 and v = 0 and tgS = PHASE_RESUMING
        and tgI = PHASE_RUNNING and op = "''resume''"]
    by (simp add: wit_rows_ok wit_view)
qed



end
