(* ===== verification/Node_Service.thy ===== *)
theory Node_Service
  imports Node_DB Api_Service
begin

text \<open>
  The node half of the cluster service, \<open>api-server/pkg/service/cluster_node.go\<close>: registration of a connecting
  node and the patches of a connected one, both read-modify-write loops over \<open>node.DB\<close>, and the read
  handlers. Other servers write to the same table between the read and the write of an attempt; the
  field \<open>cs_others\<close> says what they do there, by the number of attempts left. The theorem below holds for
  every such interference that is made of calls of \<open>Put\<close>.
\<close>

section \<open>cluster_node.go\<close>

record NodeListOptions =
  no_StatusPhase :: NodePhase
  no_SortOrder :: SandboxOrder
  no_PageSize :: int
  no_ContinuationToken :: string

record 'w nodeServer =
  cs_Put :: "Timestamp \<Rightarrow> 'w \<Rightarrow> Node \<Rightarrow> 'w \<times> Node result"
  cs_Get :: "'w \<Rightarrow> string \<Rightarrow> Node result"
  cs_List :: "'w \<Rightarrow> NodeListOptions \<Rightarrow> (Node list \<times> string) result"
  cs_now :: "'w \<Rightarrow> Timestamp"
  cs_others :: "nat \<Rightarrow> 'w \<Rightarrow> 'w"

definition nodeWriteMaxAttempts :: nat where
  "nodeWriteMaxAttempts = 3"

definition defaultListNodesPageSize :: int where
  "defaultListNodesPageSize = 30"

definition GetNode :: "'w nodeServer \<Rightarrow> 'w \<Rightarrow> string \<Rightarrow> Node result" where
  "GetNode a w ident =
    (case cs_Get a w ident of Inl err \<Rightarrow> Inl (dbErrToStatus ''node'' ''get'' err) | Inr n \<Rightarrow> Inr n)"

definition ListNodes :: "'w nodeServer \<Rightarrow> 'w \<Rightarrow> NodeListOptions \<Rightarrow> (Node list \<times> string) result" where
  "ListNodes a w req =
    (let opts = (if no_PageSize req = 0 then req\<lparr>no_PageSize := defaultListNodesPageSize\<rparr> else req);
         opts = (if no_SortOrder opts = ORDER_UNSPECIFIED then opts\<lparr>no_SortOrder := ORDER_NEWEST_FIRST\<rparr> else opts)
     in case cs_List a w opts of
          Inl err \<Rightarrow> Inl (dbErrToStatus ''node'' ''list'' err) | Inr r \<Rightarrow> Inr r)"

text \<open>The daemon-owned fields of a stored row, refreshed from the payload.\<close>

definition overlayNode :: "Node \<Rightarrow> Node \<Rightarrow> Node" where
  "overlayNode payload persisted =
    persisted\<lparr>nd_Resources := nd_Resources payload, nd_AwsEc2 := nd_AwsEc2 payload,
      nd_Status := nd_Status payload, nd_Metrics := nd_Metrics payload\<rparr>"

definition freshNode :: "string \<Rightarrow> Node \<Rightarrow> Node" where
  "freshNode nodeID payload =
    payload\<lparr>nd_Metadata := \<lparr> nm_Id = nodeID, nm_Version = 0, nm_CreatedAt = None, nm_LastModifiedAt = None \<rparr>\<rparr>"

fun registerAttempts :: "'w nodeServer \<Rightarrow> string \<Rightarrow> nat \<Rightarrow> 'w \<Rightarrow> Node \<Rightarrow> 'w \<times> unit result" where
  "registerAttempts a nodeID 0 w payload = (w, Inl ErrVersionConflict)"
| "registerAttempts a nodeID (Suc n) w payload =
    (case cs_Get a w nodeID of
       Inl err \<Rightarrow>
         if errors_Is err ErrNotFound then
           (let payload = freshNode nodeID payload; w = cs_others a n w in
            case cs_Put a (cs_now a w) w payload of
              (w', Inr _) \<Rightarrow> (w', Inr ())
            | (w', Inl putErr) \<Rightarrow>
                if errors_Is putErr ErrAlreadyExists then registerAttempts a nodeID n w' payload else (w', Inl putErr))
         else (w, Inl err)
     | Inr persisted \<Rightarrow>
         (let w = cs_others a n w in
          case cs_Put a (cs_now a w) w (overlayNode payload persisted) of
            (w', Inr _) \<Rightarrow> (w', Inr ())
          | (w', Inl putErr) \<Rightarrow>
              if errors_Is putErr ErrVersionConflict then registerAttempts a nodeID n w' payload else (w', Inl putErr)))"

definition registerNode :: "'w nodeServer \<Rightarrow> 'w \<Rightarrow> Node \<Rightarrow> 'w \<times> unit result" where
  "registerNode a w payload = registerAttempts a (NodeId payload) nodeWriteMaxAttempts w payload"

definition patchNode :: "NodePatch \<Rightarrow> Node \<Rightarrow> Node" where
  "patchNode patch node = (case patch of
     Patch_NodeMetrics m \<Rightarrow> node\<lparr>nd_Metrics := Some m\<rparr>
   | Patch_NodeStatus s \<Rightarrow> node\<lparr>nd_Status := Some s\<rparr>
   | Patch_unset \<Rightarrow> node)"

fun patchAttempts :: "'w nodeServer \<Rightarrow> string \<Rightarrow> NodePatch \<Rightarrow> nat \<Rightarrow> 'w \<Rightarrow> 'w \<times> unit result" where
  "patchAttempts a nodeID patch 0 w = (w, Inl ErrVersionConflict)"
| "patchAttempts a nodeID patch (Suc n) w =
    (case cs_Get a w nodeID of
       Inl err \<Rightarrow> (w, Inl err)
     | Inr node \<Rightarrow>
         (let w = cs_others a n w in
          case cs_Put a (cs_now a w) w (patchNode patch node) of
            (w', Inr _) \<Rightarrow> (w', Inr ())
          | (w', Inl putErr) \<Rightarrow>
              if errors_Is putErr ErrVersionConflict then patchAttempts a nodeID patch n w' else (w', Inl putErr)))"

definition applyNodePatch :: "'w nodeServer \<Rightarrow> 'w \<Rightarrow> string \<Rightarrow> NodePatch \<Rightarrow> 'w \<times> unit result" where
  "applyNodePatch a w nodeID patch =
    (if patch = Patch_unset
     then (w, Inl (GStatus InvalidArgument ''PatchNodeRequest must set node_metrics or node_status''))
     else patchAttempts a nodeID patch nodeWriteMaxAttempts w)"

section \<open>Read-modify-write\<close>

text \<open>\<open>applied\<close>: the row of a node in the world \<open>w\<close> was changed by \<open>f\<close> and by nothing else to give \<open>w'\<close>; or the
  row already had the content \<open>f\<close> gives to a row read earlier, and nothing changed (\<open>already\<close>).\<close>

definition already :: "('w \<Rightarrow> string \<rightharpoonup> Node) \<Rightarrow> (Node \<Rightarrow> Node \<Rightarrow> bool) \<Rightarrow> string \<Rightarrow> Node \<Rightarrow> 'w \<Rightarrow> 'w \<Rightarrow> bool" where
  "already view same k n w w' = ((\<exists>st. view w k = Some st \<and> same st n) \<and> view w' = view w)"

definition applied ::
  "('w \<Rightarrow> string \<rightharpoonup> Node) \<Rightarrow> (Node \<Rightarrow> Node \<Rightarrow> bool) \<Rightarrow> string \<Rightarrow> (Node \<Rightarrow> Node) \<Rightarrow> 'w \<Rightarrow> 'w \<Rightarrow> bool" where
  "applied view same k f w w' =
    ((\<exists>st now. view w k = Some st \<and> NodeVersion st \<noteq> 0 \<and> view w' = (view w)(k \<mapsto> storedNode now (f st)))
     \<or> (\<exists>read. already view same k (f read) w w'))"

definition inserted ::
  "('w \<Rightarrow> string \<rightharpoonup> Node) \<Rightarrow> string \<Rightarrow> Node \<Rightarrow> 'w \<Rightarrow> 'w \<Rightarrow> bool" where
  "inserted view k n w w' = (view w k = None \<and> (\<exists>now. view w' = (view w)(k \<mapsto> storedNode now n)))"

lemma puts_fst: "(putStep put)\<^sup>*\<^sup>* w (fst (put now w n))"
proof -
  have "putStep put w (fst (put now w n))" unfolding putStep_def by blast
  then show ?thesis by (rule r_into_rtranclp)
qed

locale node_server = node_db "cs_Put a" "cs_Get a" view ok same
  for a :: "'w nodeServer" and view :: "'w \<Rightarrow> string \<rightharpoonup> Node" and ok :: "'w \<Rightarrow> bool" and same :: "Node \<Rightarrow> Node \<Rightarrow> bool" +
  assumes others_put: "(putStep (cs_Put a))\<^sup>*\<^sup>* w (cs_others a n w)"
begin

abbreviation writes :: "'w \<Rightarrow> 'w \<Rightarrow> bool" where "writes \<equiv> (putStep (cs_Put a))\<^sup>*\<^sup>*"

lemma writes_put: "cs_Put a now w n = (w', r) \<Longrightarrow> writes w w'"
  using puts_fst [of "cs_Put a" w now n] by simp

text \<open>One attempt: a row read, written by others, and put back changed.\<close>

lemma attempt:
  assumes ok: "ok w" and g: "cs_Get a w k = Inr read" and keeps: "nd_Metadata (f read) = nd_Metadata read"
    and p: "cs_Put a now (cs_others a n w) (f read) = (w', Inr n')"
  shows "applied view same k f (cs_others a n w) w'"
proof -
  let ?v = "cs_others a n w"
  have okv: "ok ?v" using puts_advance [OF others_put ok] by blast
  have r: "view w k = Some read" by (rule node_get [OF ok g])
  have id: "NodeId (f read) = k" "NodeVersion (f read) = NodeVersion read"
    using keeps node_ident [OF ok r] by (simp_all add: NodeId_def NodeVersion_def)
  from puts_advance [OF others_put ok] r obtain st where st: "view ?v k = Some st" by blast
  from node_put_done [OF okv p] id consider
      "expectedRow (view ?v k) (NodeVersion read)" "view w' = (view ?v)(k \<mapsto> storedNode now (f read))"
    | "same st (f read)" "view w' = view ?v" using st by auto
  then show ?thesis
  proof cases
    case 1
    then have v: "NodeVersion read \<noteq> 0" "NodeVersion st = NodeVersion read" using st by (simp_all add: expectedRow_def)
    have "read = st" by (rule version_identifies [OF ok others_put [of w n] r st v(2) [symmetric]])
    with 1(2) v(1) have "view w' = (view ?v)(k \<mapsto> storedNode now (f st))" "NodeVersion st \<noteq> 0" by simp_all
    with st show ?thesis unfolding applied_def by blast
  next
    case 2
    with st show ?thesis unfolding applied_def already_def by blast
  qed
qed

lemma patch_attempts:
  assumes "ok w" "patchAttempts a k patch n w = (w', Inr ())"
  shows "\<exists>v. writes w v \<and> applied view same k (patchNode patch) v w'"
  using assms
proof (induction n arbitrary: w)
  case (Suc n)
  obtain read where g: "cs_Get a w k = Inr read" using Suc.prems(2) by (cases "cs_Get a w k") auto
  let ?v = "cs_others a n w"
  obtain w1 r where p: "cs_Put a (cs_now a ?v) ?v (patchNode patch read) = (w1, r)" by fastforce
  have wr: "writes w w1" using others_put [of w n] writes_put [OF p] by (rule rtranclp_trans)
  show ?case
  proof (cases r)
    case (Inl e)
    then have "patchAttempts a k patch n w1 = (w', Inr ())" using Suc.prems(2) g p by (auto simp: Let_def split: if_splits)
    moreover have "ok w1" using puts_advance [OF wr Suc.prems(1)] by simp
    ultimately obtain v where v: "writes w1 v" "applied view same k (patchNode patch) v w'" using Suc.IH by blast
    show ?thesis by (intro exI [of _ v] conjI rtranclp_trans [OF wr v(1)] v(2))
  next
    case (Inr n')
    have "nd_Metadata (patchNode patch read) = nd_Metadata read" by (simp add: patchNode_def split: NodePatch.split)
    from attempt [where f = "patchNode patch", OF Suc.prems(1) g this p [unfolded Inr]]
    have "applied view same k (patchNode patch) ?v w1" .
    moreover have "w1 = w'" using Suc.prems(2) g p Inr by (simp add: Let_def)
    ultimately show ?thesis using others_put [of w n] by blast
  qed
qed simp

lemma overlay_fresh:
  "overlayNode (freshNode k payload) = overlayNode payload" "freshNode k (freshNode k payload) = freshNode k payload"
  "nd_Metadata (overlayNode payload n) = nd_Metadata n" "NodeId (freshNode k payload) = k" "NodeVersion (freshNode k payload) = 0"
  by (auto simp: overlayNode_def freshNode_def NodeId_def NodeVersion_def fun_eq_iff)

lemma register_attempts:
  assumes "ok w" "registerAttempts a k n w payload = (w', Inr ())"
  shows "\<exists>v. writes w v \<and> (applied view same k (overlayNode payload) v w'
    \<or> already view same k (freshNode k payload) v w' \<or> inserted view k (freshNode k payload) v w')"
    (is "\<exists>v. writes w v \<and> ?done payload v")
  using assms
proof (induction n arbitrary: w payload)
  case (Suc n)
  let ?v = "cs_others a n w"
  have okv: "ok ?v" using puts_advance [OF others_put [of w n] Suc.prems(1)] by simp
  define sent where "sent = (case cs_Get a w k of Inl _ \<Rightarrow> freshNode k payload | Inr read \<Rightarrow> overlayNode payload read)"
  define next_payload where "next_payload = (if isOk (cs_Get a w k) then payload else freshNode k payload)"
  obtain w1 r where p: "cs_Put a (cs_now a ?v) ?v sent = (w1, r)" by fastforce
  have wr: "writes w w1" using others_put [of w n] writes_put [OF p] by (rule rtranclp_trans)
  show ?case
  proof (cases r)
    case (Inl e)
    then have "registerAttempts a k n w1 next_payload = (w', Inr ())"
      using Suc.prems(2) p by (auto simp: Let_def sent_def next_payload_def isOk_iff split: if_splits sum.splits)
    moreover have "ok w1" using puts_advance [OF wr Suc.prems(1)] by simp
    ultimately obtain v where v: "writes w1 v" "?done next_payload v" using Suc.IH by blast
    have "?done next_payload = ?done payload" by (simp add: next_payload_def overlay_fresh)
    then have "?done payload v" using v(2) by (rule subst [where P = "\<lambda>D. D v"])
    then show ?thesis by (intro exI [of _ v] conjI rtranclp_trans [OF wr v(1)])
  next
    case (Inr n')
    have w': "w1 = w'" using Suc.prems(2) p Inr by (auto simp: Let_def sent_def split: if_splits sum.splits)
    have "?done payload ?v"
    proof (cases "cs_Get a w k")
      case (Inl e)
      then have "sent = freshNode k payload" by (simp add: sent_def)
      with node_put_done [OF okv p [unfolded Inr]] w' overlay_fresh(4,5) [of k payload]
      have "inserted view k (freshNode k payload) ?v w' \<or> already view same k (freshNode k payload) ?v w'"
        by (auto simp: expectedRow_def inserted_def already_def split: option.splits)
      then show ?thesis by blast
    next
      case read: (Inr read)
      then have "sent = overlayNode payload read" by (simp add: sent_def)
      then have "applied view same k (overlayNode payload) ?v w1"
        using attempt [where f = "overlayNode payload", OF Suc.prems(1) read overlay_fresh(3)] p Inr by simp
      then show ?thesis using w' by simp
    qed
    then show ?thesis using others_put [of w n] by blast
  qed
qed simp

end


text \<open>A server that patches the metrics of a node while another one patches its status.\<close>

definition wit_row :: Node where
  "wit_row = storedNode 7 wit_new_node"

definition wit_nodes :: "string \<rightharpoonup> Node item" where
  "wit_nodes = [''n1'' \<mapsto> mem_node_item wit_row]"

definition wit_lost :: Node where
  "wit_lost = patchNode (Patch_NodeStatus \<lparr> ns_Phase = NODE_LOST, ns_Message = [] \<rparr>) wit_row"

definition wit_metrics :: NodeMetrics where
  "wit_metrics = \<lparr> nx_SampledAt = None, nx_ActiveSandboxCount = 1, nx_CpuUsedMillicores = 2, nx_MemoryUsedBytes = 3, nx_DiskUsedBytes = 4 \<rparr>"

definition wit_server :: "(string \<rightharpoonup> Node item) nodeServer" where
  "wit_server = \<lparr> cs_Put = node_Put mem_node_db, cs_Get = node_Get mem_node_db, cs_List = \<lambda>w q. Inr ([], []), cs_now = \<lambda>w. 9,
     cs_others = \<lambda>n w. if n = 2 then fst (node_Put mem_node_db 8 w wit_lost) else w \<rparr>"

lemmas wit_node_simps = wit_row_def wit_new_node_def wit_lost_def wit_metrics_def patchNode_def node_stamps wrap64_def
  node_initialVersion_def canonicalNode_def

lemma wit_patch: "snd (applyNodePatch wit_server wit_nodes ''n1'' (Patch_NodeMetrics wit_metrics)) = Inr ()"
proof -
  let ?m = "Patch_NodeMetrics wit_metrics"
  have n: "NodeId wit_row = ''n1''" "NodeVersion wit_row = 1" "NodeId wit_lost = ''n1''" "NodeVersion wit_lost = 1"
    "NodeId (patchNode ?m x) = NodeId x" "NodeVersion (patchNode ?m x) = NodeVersion x" "NodeVersion (storedNode 8 wit_lost) = 2" for x
    by (simp_all add: wit_node_simps)
  have c: "canonicalNode (storedNode 8 wit_lost) \<noteq> canonicalNode (patchNode ?m wit_row)"
    by (simp add: wit_node_simps)
  define w1 where "w1 = wit_nodes(''n1'' \<mapsto> mem_node_item (storedNode 8 wit_lost))"
  have o: "cs_others wit_server 2 wit_nodes = w1" "cs_others wit_server 1 w1 = w1"
    using mem_node_Put_old [of wit_nodes wit_lost wit_row 8] n by (simp_all add: wit_server_def wit_nodes_def w1_def)
  have g: "node_Get mem_node_db wit_nodes ''n1'' = Inr wit_row" "node_Get mem_node_db w1 ''n1'' = Inr (storedNode 8 wit_lost)"
    by (simp_all add: mem_node_Get wit_nodes_def w1_def mem_node_item_attrs)
  obtain e where p1: "node_Put mem_node_db 9 w1 (patchNode ?m wit_row) = (w1, Inl e)" "errors_Is e ErrVersionConflict"
    using mem_node_Put_old [of w1 "patchNode ?m wit_row" "storedNode 8 wit_lost" 9] n c
    by (auto simp: w1_def diagnosePutConflict_def mem_node_item_attrs node_stringFromAttrs_def nodeErr_def)
  obtain w2 y where p2: "node_Put mem_node_db 9 w1 (patchNode ?m (storedNode 8 wit_lost)) = (w2, Inr y)"
    using mem_node_Put_old [of w1 "patchNode ?m (storedNode 8 wit_lost)" "storedNode 8 wit_lost" 9] n by (auto simp: w1_def)
  show ?thesis
    using o g p1 p2 by (simp add: applyNodePatch_def nodeWriteMaxAttempts_def eval_nat_numeral wit_server_def)
qed


end
