(* ===== verification/Snapshot_DB.thy ===== *)
theory Snapshot_DB
  imports Node_DB Api_Service
begin

text \<open>
  Persistence of snapshots, \<open>api-server/pkg/db/snapshot\<close>, and the snapshot handlers over it,
  \<open>api-server/pkg/service/snapshot.go\<close>. Snapshots are immutable: a row is created once, under a condition, and
  deleted. The message \<open>Create\<close> stamps in place is returned on success; the wall clock is an argument.
\<close>

section \<open>The item of a snapshot\<close>

definition attrSnapshotID :: string where "attrSnapshotID = ''snapshot_id''"
definition attrSnapshotNamespace :: string where "attrSnapshotNamespace = ''snapshot_namespace''"
definition attrSandboxRefID :: string where "attrSandboxRefID = ''sandbox_ref_id''"
definition attrGSICtSK :: string where "attrGSICtSK = ''gsi_ct_sk''"
definition attrSnapshotPB :: string where "attrSnapshotPB = ''snapshot_pb''"
definition attrSnapshotContentDigest :: string where "attrSnapshotContentDigest = ''snapshot_content_digest''"

lemmas snapshot_attr_names = attrSnapshotID_def attrSnapshotNamespace_def attrSandboxRefID_def attrGSICtSK_def
  attrSnapshotPB_def attrSnapshotContentDigest_def

definition SnapshotId :: "Snapshot \<Rightarrow> string" where
  "SnapshotId sn = sn_Id (snap_Metadata sn)"

definition setSnapshotCreatedAt :: "Timestamp option \<Rightarrow> Snapshot \<Rightarrow> Snapshot" where
  "setSnapshotCreatedAt t sn = sn\<lparr>snap_Metadata := (snap_Metadata sn)\<lparr>sn_CreatedAt := t\<rparr>\<rparr>"

definition gsiCtSK :: "Snapshot \<Rightarrow> string" where
  "gsiCtSK sn = RFC3339Nano (case sn_CreatedAt (snap_Metadata sn) of None \<Rightarrow> 0 | Some t \<Rightarrow> t) @ ''#'' @ SnapshotId sn"

definition snapshot_contentDigest :: "(Snapshot, 'b) codec \<Rightarrow> Snapshot \<Rightarrow> 'b result" where
  "snapshot_contentDigest cd sn =
    (case MarshalDeterministic cd (setSnapshotCreatedAt None sn) of
       Inl err \<Rightarrow> Inl (wrapf ''marshal canonical snapshot'' err)
     | Inr encoded \<Rightarrow> Inr (Sum256 cd encoded))"

definition snapshot_digestFromAttrs :: "'b item \<Rightarrow> 'b option" where
  "snapshot_digestFromAttrs attrs = (case attrs attrSnapshotContentDigest of Some (AB b) \<Rightarrow> Some b | _ \<Rightarrow> None)"

definition snapshot_toItem :: "(Snapshot, 'b) codec \<Rightarrow> Snapshot \<Rightarrow> 'b \<Rightarrow> 'b item result" where
  "snapshot_toItem cd sn digest =
    (case Marshal cd sn of
       Inl err \<Rightarrow> Inl (wrapf ''marshal snapshot'' err)
     | Inr pb \<Rightarrow>
       Inr [attrSnapshotID \<mapsto> AS (SnapshotId sn), attrSnapshotNamespace \<mapsto> AS (sn_Namespace (snap_Metadata sn)),
            attrSandboxRefID \<mapsto> AS (case snap_Sandbox sn of None \<Rightarrow> [] | Some i \<Rightarrow> i), attrGSICtSK \<mapsto> AS (gsiCtSK sn),
            attrSnapshotPB \<mapsto> AB pb, attrSnapshotContentDigest \<mapsto> AB digest])"

definition snapshotFromAttrs :: "(Snapshot, 'b) codec \<Rightarrow> 'b item \<Rightarrow> string \<Rightarrow> Snapshot result" where
  "snapshotFromAttrs cd attrs ident =
    (case attrs attrSnapshotPB of
       None \<Rightarrow> Inl (New (''snapshot '' @ quote ident @ '': stored row has no '' @ attrSnapshotPB @ '' attribute''))
     | Some (AB b) \<Rightarrow>
         (case Unmarshal cd b of
            Inl err \<Rightarrow> Inl (Wrap (''snapshot '' @ quote ident @ '': unmarshal stored row: '') err [])
          | Inr sn \<Rightarrow> Inr sn)
     | Some _ \<Rightarrow> Inl (New (''snapshot '' @ quote ident @ '': stored '' @ attrSnapshotPB @ '' is not bytes'')))"

section \<open>dynamodb.go\<close>

record ('w, 'b) snapshotDynamoDB =
  sd_client :: "('w, 'b) dynamo_client"
  sd_tableName :: string
  sd_codec :: "(Snapshot, 'b) codec"

definition snapshotErr :: "string \<Rightarrow> string \<Rightarrow> goerr \<Rightarrow> goerr" where
  "snapshotErr ident what err = Wrap (''snapshot '' @ quote ident @ '': '' @ what) err []"

definition snapshot_fetchStoredItem :: "('w, 'b) snapshotDynamoDB \<Rightarrow> 'w \<Rightarrow> 'b item \<Rightarrow> string \<Rightarrow> 'b item result" where
  "snapshot_fetchStoredItem d w cceItem ident =
    (if cceItem \<noteq> Map.empty then Inr cceItem
     else GetItem (sd_client d) w (sd_tableName d) attrSnapshotID ident)"

definition snapshot_Create :: "('w, 'b) snapshotDynamoDB \<Rightarrow> Timestamp \<Rightarrow> 'w \<Rightarrow> Snapshot \<Rightarrow> 'w \<times> Snapshot result" where
  "snapshot_Create d now w sn0 =
    (let ident = SnapshotId sn0; sn = setSnapshotCreatedAt (Some now) sn0 in
     case snapshot_contentDigest (sd_codec d) sn of
       Inl err \<Rightarrow> (w, Inl (snapshotErr ident ''build digest: '' err))
     | Inr digest \<Rightarrow>
    (case snapshot_toItem (sd_codec d) sn digest of
       Inl err \<Rightarrow> (w, Inl (snapshotErr ident ''build item: '' err))
     | Inr item \<Rightarrow>
    (case PutItem (sd_client d) w (sd_tableName d) item (AttributeNotExists attrSnapshotID) of
       (w', PutOk) \<Rightarrow> (w', Inr sn)
     | (w', PutErr err) \<Rightarrow> (w', Inl (snapshotErr ident ''put item: '' err))
     | (w', CondFailed cceItem) \<Rightarrow>
       (case snapshot_fetchStoredItem d w' cceItem ident of
          Inl err \<Rightarrow> (w', Inl (snapshotErr ident ''read stored row after conflict: '' err))
        | Inr stored \<Rightarrow>
          (case snapshot_digestFromAttrs stored of
             None \<Rightarrow> (w', Inl (New (''snapshot '' @ quote ident @ '': stored row has no content digest'')))
           | Some storedDigest \<Rightarrow>
             if digest = storedDigest then (w', Inr sn) else (w', Inl (snapshotErr ident [] ErrAlreadyExists)))))))"

definition snapshot_Get :: "('w, 'b) snapshotDynamoDB \<Rightarrow> 'w \<Rightarrow> string \<Rightarrow> Snapshot result" where
  "snapshot_Get d w ident =
    (case GetItem (sd_client d) w (sd_tableName d) attrSnapshotID ident of
       Inl err \<Rightarrow> Inl (snapshotErr ident ''get item: '' err)
     | Inr item \<Rightarrow>
         if item = Map.empty then Inl (snapshotErr ident [] ErrNotFound)
         else snapshotFromAttrs (sd_codec d) item ident)"

definition snapshot_Delete :: "('w, 'b) snapshotDynamoDB \<Rightarrow> 'w \<Rightarrow> string \<Rightarrow> 'w \<times> unit result" where
  "snapshot_Delete d w ident =
    (case DeleteItem (sd_client d) w (sd_tableName d) attrSnapshotID ident of
       (w', Inl err) \<Rightarrow> (w', Inl (snapshotErr ident ''delete item: '' err))
     | (w', Inr _) \<Rightarrow> (w', Inr ()))"

section \<open>The handlers\<close>

definition svc_CreateSnapshot :: "('w, 'b) snapshotDynamoDB \<Rightarrow> Timestamp \<Rightarrow> 'w \<Rightarrow> Snapshot \<Rightarrow> 'w \<times> Snapshot result" where
  "svc_CreateSnapshot d now w req =
    (let sn = setSnapshotCreatedAt None req in
     case snapshot_Create d now w sn of
       (w', Inl err) \<Rightarrow> (w', Inl (dbErrToStatus ''snapshot'' ''create'' err))
     | (w', Inr sn') \<Rightarrow> (w', Inr sn'))"

definition svc_GetSnapshot :: "('w, 'b) snapshotDynamoDB \<Rightarrow> 'w \<Rightarrow> string \<Rightarrow> Snapshot result" where
  "svc_GetSnapshot d w ident =
    (case snapshot_Get d w ident of
       Inl err \<Rightarrow> Inl (dbErrToStatus ''snapshot'' ''get'' err) | Inr sn \<Rightarrow> Inr sn)"

definition svc_DeleteSnapshot :: "('w, 'b) snapshotDynamoDB \<Rightarrow> 'w \<Rightarrow> string \<Rightarrow> 'w \<times> unit result" where
  "svc_DeleteSnapshot d w ident =
    (case snapshot_Delete d w ident of
       (w', Inl err) \<Rightarrow> (w', Inl (dbErrToStatus ''snapshot'' ''delete'' err))
     | (w', Inr _) \<Rightarrow> (w', Inr ()))"

section \<open>Facts\<close>

definition snapshot_rows_ok :: "(Snapshot, 'b) codec \<Rightarrow> (string \<rightharpoonup> 'b item) \<Rightarrow> bool" where
  "snapshot_rows_ok cd = entity_rows (snapshot_toItem cd) (snapshot_contentDigest cd) SnapshotId"

definition snapshot_view :: "(Snapshot, 'b) codec \<Rightarrow> (string \<rightharpoonup> 'b item) \<Rightarrow> string \<rightharpoonup> Snapshot" where
  "snapshot_view cd = entity_view (snapshotFromAttrs cd)"

lemma snapshot_stamp [simp]:
  "SnapshotId (setSnapshotCreatedAt t sn) = SnapshotId sn"
  "snapshot_contentDigest cd (setSnapshotCreatedAt t sn) = snapshot_contentDigest cd sn"
  "setSnapshotCreatedAt t (setSnapshotCreatedAt u sn) = setSnapshotCreatedAt t sn"
  by (simp_all add: SnapshotId_def setSnapshotCreatedAt_def snapshot_contentDigest_def)

locale snapshot_dynamo = dynamo_table "sd_client d" "sd_tableName d" attrSnapshotID rows + faithful_codec "sd_codec d"
  for d :: "('w, 'b) snapshotDynamoDB" and rows :: "'w \<Rightarrow> string \<rightharpoonup> 'b item"

sublocale snapshot_dynamo \<subseteq> entity_table "sd_client d" "sd_tableName d" attrSnapshotID rows
    "snapshot_toItem (sd_codec d)" "snapshotFromAttrs (sd_codec d)" "snapshot_contentDigest (sd_codec d)" SnapshotId
    attrSnapshotContentDigest
  by unfold_locales
    (auto simp: snapshot_toItem_def snapshotFromAttrs_def snapshot_attr_names unmarshal_marshal split: sum.splits)

context snapshot_dynamo
begin

abbreviation scd :: "(Snapshot, 'b) codec" where "scd \<equiv> sd_codec d"

text \<open>A create changes nothing or inserts the stamped snapshot where there was none; if it succeeds without
  inserting, a snapshot with the same content is stored.\<close>

lemma Create_cases:
  assumes ok: "good w" and c: "snapshot_Create d now w sn = (w', r)"
  shows "good w' \<and> (view w' = view w \<or> view w (SnapshotId sn) = None \<and> view w' = (view w)(SnapshotId sn \<mapsto> setSnapshotCreatedAt (Some now) sn))
    \<and> (\<forall>sn'. r = Inr sn' \<longrightarrow> sn' = setSnapshotCreatedAt (Some now) sn
        \<and> (view w' (SnapshotId sn) = Some sn' \<or> (\<exists>st. view w' (SnapshotId sn) = Some st \<and> snapshot_contentDigest scd st = snapshot_contentDigest scd sn)))"
proof (cases "snapshot_contentDigest scd sn")
  case (Inl e)
  then show ?thesis using ok c by (auto simp: snapshot_Create_def Let_def)
next
  case dg: (Inr dg)
  let ?sn = "setSnapshotCreatedAt (Some now) sn"
  show ?thesis
  proof (cases "snapshot_toItem scd ?sn dg")
    case (Inl e)
    then show ?thesis using ok c dg by (auto simp: snapshot_Create_def Let_def)
  next
    case it: (Inr it)
    obtain w1 res where put: "PutItem (sd_client d) w (sd_tableName d) it (AttributeNotExists attrSnapshotID) = (w1, res)" by fastforce
    have w1: "w' = w1" using c dg it put by (auto simp: snapshot_Create_def Let_def split: put_result.splits sum.splits option.splits if_splits)
    have dg': "snapshot_contentDigest scd ?sn = Inr dg" using dg by simp
    note cs = put_cases [OF ok it dg' put, simplified absent [OF ok]]
    show ?thesis
    proof (cases res)
      case PutOk
      then show ?thesis using put_stored [OF ok it dg'] put cs w1 c dg it by (auto simp: snapshot_Create_def Let_def)
    next
      case (PutErr e)
      then show ?thesis using cs w1 c dg it put by (auto simp: snapshot_Create_def Let_def)
    next
      case (CondFailed old)
      from put_refused [OF it put [unfolded CondFailed]]
      have same: "rows w1 = rows w" and old: "old = Map.empty \<or> old = stored_item (rows w) (SnapshotId sn)" by simp_all
      have "\<exists>st. view w1 (SnapshotId sn) = Some st \<and> snapshot_contentDigest scd st = snapshot_contentDigest scd sn \<and> sn' = ?sn"
        if "r = Inr sn'" for sn'
      proof -
        from that c dg it put CondFailed obtain stored where s: "snapshot_fetchStoredItem d w1 old (SnapshotId sn) = Inr stored"
          "snapshot_digestFromAttrs stored = Some dg" "sn' = ?sn"
          by (auto simp: snapshot_Create_def Let_def split: sum.splits option.splits if_splits)
        have "stored = stored_item (rows w1) (SnapshotId sn)"
          using old s(1) same get_ok [of w1 "SnapshotId sn" stored] by (auto simp: snapshot_fetchStoredItem_def split: if_splits)
        with s(2) have "digest_attr attrSnapshotContentDigest (stored_item (rows w) (SnapshotId sn)) = Some dg"
          by (simp add: digest_attr_def snapshot_digestFromAttrs_def same)
        then obtain m where "view w (SnapshotId sn) = Some m" "snapshot_contentDigest scd m = Inr dg" by (rule digest_stored [OF ok])
        then show ?thesis using same dg s(3) by auto
      qed
      then show ?thesis using ok same w1 by auto
    qed
  qed
qed

lemma Delete_rows:
  assumes "snapshot_Delete d w k = (w', r)"
  shows "rows w' = (rows w)(k := None) \<or> r \<noteq> Inr () \<and> rows w' = rows w"
proof (cases "DeleteItem (sd_client d) w (sd_tableName d) attrSnapshotID k")
  case (Pair w1 x)
  then show ?thesis
    using assms delete_ok [of w k w1] delete_err [of w k w1] by (cases x) (auto simp: snapshot_Delete_def)
qed

lemma Delete_good:
  assumes "good w" "rows w' = (rows w)(k := None)"
  shows "good w' \<and> view w' = (view w)(k := None)"
  using assms by (auto simp: entity_rows_def entity_view_def)

lemma Get_found:
  assumes "good w" "snapshot_Get d w k = r"
  shows "r = (case view w k of None \<Rightarrow> Inl (snapshotErr k [] ErrNotFound) | Some sn \<Rightarrow> Inr sn) \<or> (\<exists>e. r = Inl (snapshotErr k ''get item: '' e))"
proof (cases "GetItem (sd_client d) w (sd_tableName d) attrSnapshotID k")
  case (Inl e)
  then show ?thesis using assms(2) by (auto simp: snapshot_Get_def)
next
  case (Inr it)
  then have it: "it = stored_item (rows w) k" by (rule get_ok)
  show ?thesis
  proof (cases "rows w k")
    case None
    then show ?thesis using assms(2) Inr it by (simp add: snapshot_Get_def stored_item_def entity_view_def)
  next
    case (Some si)
    then obtain m dg where m: "snapshot_toItem scd m dg = Inr si" "view w k = Some m" "si \<noteq> Map.empty" by (rule stored [OF assms(1)])
    then show ?thesis using assms(2) Inr it Some item_read [OF m(1), of k] by (simp add: snapshot_Get_def stored_item_def)
  qed
qed

end

text \<open>C33: stored snapshots are immutable. Whatever a create request is answered, every snapshot that was
  stored still is, unchanged, and at most the requested one is new; when it succeeds, a snapshot with the requested
  content is stored under the id, and a read that reaches the table returns it. A delete request removes at
  most its own row, and does when it succeeds. The rows stay well formed throughout.\<close>

theorem snapshot_immutable:
  assumes "snapshot_dynamo d rows" and "snapshot_rows_ok (sd_codec d) (rows w)"
    and c: "svc_CreateSnapshot d now w sn = (w1, r)" and x: "svc_DeleteSnapshot d w k = (w2, q)"
  shows "snapshot_rows_ok (sd_codec d) (rows w1) \<and> snapshot_view (sd_codec d) (rows w) \<subseteq>\<^sub>m snapshot_view (sd_codec d) (rows w1)
      \<and> dom (snapshot_view (sd_codec d) (rows w1)) \<subseteq> insert (SnapshotId sn) (dom (snapshot_view (sd_codec d) (rows w)))
    \<and> (isOk r \<longrightarrow> (\<exists>st. snapshot_view (sd_codec d) (rows w1) (SnapshotId sn) = Some st
        \<and> snapshot_contentDigest (sd_codec d) st = snapshot_contentDigest (sd_codec d) sn
        \<and> (snapshot_Get d w1 (SnapshotId sn) = Inr st \<or> (\<exists>e. snapshot_Get d w1 (SnapshotId sn) = Inl (snapshotErr (SnapshotId sn) ''get item: '' e)))))
    \<and> snapshot_rows_ok (sd_codec d) (rows w2) \<and> (\<forall>j. j \<noteq> k \<longrightarrow> snapshot_view (sd_codec d) (rows w2) j = snapshot_view (sd_codec d) (rows w) j)
    \<and> (isOk q \<longrightarrow> snapshot_view (sd_codec d) (rows w2) k = None)"
proof (intro conjI)
  let ?sn = "setSnapshotCreatedAt None sn"
  note ok = assms(2) [unfolded snapshot_rows_ok_def]
  obtain r0 where c0: "snapshot_Create d now w ?sn = (w1, r0)" and r: "isOk r \<longleftrightarrow> isOk r0"
    using c by (cases "snapshot_Create d now w ?sn") (auto simp: svc_CreateSnapshot_def isOk_iff split: sum.splits)
  note cc = snapshot_dynamo.Create_cases [OF assms(1) ok c0]
  show "snapshot_rows_ok (sd_codec d) (rows w1)" using cc by (simp add: snapshot_rows_ok_def)
  show "snapshot_view (sd_codec d) (rows w) \<subseteq>\<^sub>m snapshot_view (sd_codec d) (rows w1)"
    "dom (snapshot_view (sd_codec d) (rows w1)) \<subseteq> insert (SnapshotId sn) (dom (snapshot_view (sd_codec d) (rows w)))"
    using cc by (auto simp: snapshot_view_def map_le_def)
  show "isOk r \<longrightarrow> (\<exists>st. snapshot_view (sd_codec d) (rows w1) (SnapshotId sn) = Some st
        \<and> snapshot_contentDigest (sd_codec d) st = snapshot_contentDigest (sd_codec d) sn
        \<and> (snapshot_Get d w1 (SnapshotId sn) = Inr st \<or> (\<exists>e. snapshot_Get d w1 (SnapshotId sn) = Inl (snapshotErr (SnapshotId sn) ''get item: '' e))))"
  proof
    assume "isOk r"
    then obtain sn' where "r0 = Inr sn'" using r by (auto simp: isOk_iff)
    with cc obtain st where st: "entity_view (snapshotFromAttrs (sd_codec d)) (rows w1) (SnapshotId sn) = Some st"
      "snapshot_contentDigest (sd_codec d) st = snapshot_contentDigest (sd_codec d) sn" by auto
    with snapshot_dynamo.Get_found [OF assms(1) _ refl, of w1 "SnapshotId sn"] cc
    show "\<exists>st. snapshot_view (sd_codec d) (rows w1) (SnapshotId sn) = Some st
        \<and> snapshot_contentDigest (sd_codec d) st = snapshot_contentDigest (sd_codec d) sn
        \<and> (snapshot_Get d w1 (SnapshotId sn) = Inr st \<or> (\<exists>e. snapshot_Get d w1 (SnapshotId sn) = Inl (snapshotErr (SnapshotId sn) ''get item: '' e)))"
      by (auto simp: snapshot_view_def)
  qed
  obtain q0 where x0: "snapshot_Delete d w k = (w2, q0)" and q: "isOk q \<longleftrightarrow> isOk q0"
    using x by (cases "snapshot_Delete d w k") (auto simp: svc_DeleteSnapshot_def isOk_iff split: sum.splits)
  note dd = snapshot_dynamo.Delete_rows [OF assms(1) x0]
  have v: "rows w2 = rows w \<and> \<not> isOk q \<or> entity_rows (snapshot_toItem (sd_codec d)) (snapshot_contentDigest (sd_codec d)) SnapshotId (rows w2)
      \<and> entity_view (snapshotFromAttrs (sd_codec d)) (rows w2) = (entity_view (snapshotFromAttrs (sd_codec d)) (rows w))(k := None)"
    using dd
  proof
    assume "rows w2 = (rows w)(k := None)"
    from snapshot_dynamo.Delete_good [OF assms(1) ok this] show ?thesis by blast
  next
    assume "q0 \<noteq> Inr () \<and> rows w2 = rows w"
    then show ?thesis using q by (cases q0) (simp_all add: isOk_iff)
  qed
  show "snapshot_rows_ok (sd_codec d) (rows w2)" using v ok by (auto simp: snapshot_rows_ok_def)
  show "\<forall>j. j \<noteq> k \<longrightarrow> snapshot_view (sd_codec d) (rows w2) j = snapshot_view (sd_codec d) (rows w) j"
    using v by (auto simp: snapshot_view_def)
  show "isOk q \<longrightarrow> snapshot_view (sd_codec d) (rows w2) k = None" using v by (auto simp: snapshot_view_def)
qed

definition mem_snapshot_db :: "(string \<rightharpoonup> Snapshot item, Snapshot) snapshotDynamoDB" where
  "mem_snapshot_db = \<lparr> sd_client = mem_client attrSnapshotID, sd_tableName = ''snapshots'', sd_codec = id_codec \<rparr>"

interpretation msdb: snapshot_dynamo mem_snapshot_db "\<lambda>w. w"
  by unfold_locales (auto simp: mem_snapshot_db_def mem_client_def id_codec_def split: if_splits)

definition wit_snapshot :: Snapshot where
  "wit_snapshot = \<lparr> snap_Metadata = \<lparr> sn_Id = ''s1'', sn_Namespace = ''ns'', sn_Description = [], sn_CreatedAt = None \<rparr>,
     snap_Sandbox = Some ''b1'', snap_Resources = None \<rparr>"

theorem snapshot_immutable_witness:
  "\<exists>st. snapshot_view id_codec (fst (svc_CreateSnapshot mem_snapshot_db 7 Map.empty wit_snapshot)) ''s1'' = Some st"
proof -
  let ?c = "svc_CreateSnapshot mem_snapshot_db 7 Map.empty wit_snapshot"
  have "isOk (snd ?c)" "SnapshotId wit_snapshot = ''s1''"
    by (simp_all add: svc_CreateSnapshot_def snapshot_Create_def Let_def mem_snapshot_db_def snapshot_contentDigest_def id_codec_def
        snapshot_toItem_def mem_client_def stored_item_def isOk_iff wit_snapshot_def SnapshotId_def setSnapshotCreatedAt_def
        snapshot_attr_names)
  moreover have "snapshot_rows_ok (sd_codec mem_snapshot_db) Map.empty" by (simp add: snapshot_rows_ok_def entity_rows_def)
  moreover obtain w1 r where "?c = (w1, r)" by fastforce
  moreover obtain w2 q where "svc_DeleteSnapshot mem_snapshot_db Map.empty [] = (w2, q)" by fastforce
  ultimately show ?thesis
    using snapshot_immutable [OF msdb.snapshot_dynamo_axioms, of Map.empty 7 wit_snapshot w1 r "[]" w2 q]
    by (auto simp: mem_snapshot_db_def)
qed

end
