(* ===== verification/Base64.thy ===== *)
theory Base64
  imports Prelude
begin

text \<open>
  \<open>encoding/base64.RawURLEncoding\<close>, which the event stream and the continuation tokens use: the URL-safe
  alphabet without padding. The decoder skips line breaks and ignores the unused bits of a last, incomplete
  group, as Go's does.
\<close>

definition b64char :: "nat \<Rightarrow> char" where
  "b64char n = ''ABCDEFGHIJKLMNOPQRSTUVWXYZabcdefghijklmnopqrstuvwxyz0123456789-_'' ! n"

definition b64val :: "char \<Rightarrow> nat option" where
  "b64val c = map_of (zip ''ABCDEFGHIJKLMNOPQRSTUVWXYZabcdefghijklmnopqrstuvwxyz0123456789-_'' [0..<64]) c"

fun EncodeToString :: "byte list \<Rightarrow> string" where
  "EncodeToString [] = []"
| "EncodeToString [a] = [b64char (unat a div 4), b64char (unat a mod 4 * 16)]"
| "EncodeToString [a, b] =
    [b64char (unat a div 4), b64char (unat a mod 4 * 16 + unat b div 16), b64char (unat b mod 16 * 4)]"
| "EncodeToString (a # b # c # r) =
    b64char (unat a div 4) # b64char (unat a mod 4 * 16 + unat b div 16)
    # b64char (unat b mod 16 * 4 + unat c div 64) # b64char (unat c mod 64) # EncodeToString r"

definition CorruptInputError :: "nat \<Rightarrow> goerr" where
  "CorruptInputError n = New (''illegal base64 data at input byte '' @ dec_nat n)"

definition b64bytes :: "nat list \<Rightarrow> byte list" where
  "b64bytes vs = (case vs of
     [x, y] \<Rightarrow> [of_nat (x * 4 + y div 16)]
   | [x, y, z] \<Rightarrow> [of_nat (x * 4 + y div 16), of_nat (y mod 16 * 16 + z div 4)]
   | [x, y, z, v] \<Rightarrow> [of_nat (x * 4 + y div 16), of_nat (y mod 16 * 16 + z div 4), of_nat (z mod 4 * 64 + v)]
   | _ \<Rightarrow> [])"

text \<open>\<open>si\<close> is the position in the input, \<open>dbuf\<close> the values of the group being read.\<close>

fun decodeFrom :: "nat \<Rightarrow> nat list \<Rightarrow> string \<Rightarrow> byte list result" where
  "decodeFrom si dbuf [] = (if length dbuf = 1 then Inl (CorruptInputError (si - 1)) else Inr (b64bytes dbuf))"
| "decodeFrom si dbuf (c # cs) =
    (if c = CHR 10 \<or> c = CHR 13 then decodeFrom (Suc si) dbuf cs
     else case b64val c of
       None \<Rightarrow> Inl (CorruptInputError si)
     | Some v \<Rightarrow>
         if length dbuf = 3 then
           (case decodeFrom (Suc si) [] cs of Inl err \<Rightarrow> Inl err | Inr bs \<Rightarrow> Inr (b64bytes (dbuf @ [v]) @ bs))
         else decodeFrom (Suc si) (dbuf @ [v]) cs)"

definition DecodeString :: "string \<Rightarrow> byte list result" where
  "DecodeString s = decodeFrom 0 [] s"

section \<open>Decoding undoes encoding\<close>

lemma b64_table: "\<forall>n\<in>{0..<64}. b64val (b64char n) = Some n \<and> b64char n \<noteq> CHR 10 \<and> b64char n \<noteq> CHR 13"
  by code_simp

lemma b64val_char [simp]: "n < 64 \<Longrightarrow> b64val (b64char n) = Some n" "n < 64 \<Longrightarrow> b64char n \<noteq> CHR 10" "n < 64 \<Longrightarrow> b64char n \<noteq> CHR 13"
  using b64_table by simp_all

lemma byte_lt: "unat (a :: byte) < 256"
  using unsigned_less [of a] by simp

lemma b64_limits [simp]:
  "unat (a :: byte) div 4 < 64" "unat a mod 4 * 16 < 64" "unat a mod 4 * 16 + unat (b :: byte) div 16 < 64"
  "unat b mod 16 * 4 < 64" "unat b mod 16 * 4 + unat (c :: byte) div 64 < 64"
  using byte_lt [of a] byte_lt [of b] byte_lt [of c] by linarith+

text \<open>The groups of six bits put together again.\<close>

lemma b64_join:
  fixes a b c :: byte
  shows "unat a div 4 * 4 + (unat a mod 4 * 16) div 16 = unat a"
    "unat a div 4 * 4 + (unat a mod 4 * 16 + unat b div 16) div 16 = unat a"
    "(unat a mod 4 * 16 + unat b div 16) mod 16 * 16 + (unat b mod 16 * 4) div 4 = unat b"
    "(unat a mod 4 * 16 + unat b div 16) mod 16 * 16 + (unat b mod 16 * 4 + unat c div 64) div 4 = unat b"
    "(unat b mod 16 * 4 + unat c div 64) mod 4 * 64 + unat c mod 64 = unat c"
proof -
  have q: "unat b div 16 < 16" "unat c div 64 < 4" using byte_lt [of b] byte_lt [of c] by linarith+
  then have "unat b div 16 div 16 = 0" "unat c div 64 div 4 = 0" "unat b div 16 mod 16 = unat b div 16" "unat c div 64 mod 4 = unat c div 64"
    by (simp_all only: div_less mod_less)
  then show "unat a div 4 * 4 + (unat a mod 4 * 16) div 16 = unat a"
    "unat a div 4 * 4 + (unat a mod 4 * 16 + unat b div 16) div 16 = unat a"
    "(unat a mod 4 * 16 + unat b div 16) mod 16 * 16 + (unat b mod 16 * 4) div 4 = unat b"
    "(unat a mod 4 * 16 + unat b div 16) mod 16 * 16 + (unat b mod 16 * 4 + unat c div 64) div 4 = unat b"
    "(unat b mod 16 * 4 + unat c div 64) mod 4 * 64 + unat c mod 64 = unat c"
    by simp_all
qed

lemma b64_groups:
  "b64bytes [unat a div 4, unat a mod 4 * 16] = [a]"
  "b64bytes [unat a div 4, unat a mod 4 * 16 + unat b div 16, unat b mod 16 * 4] = [a, b]"
  "b64bytes [unat a div 4, unat a mod 4 * 16 + unat b div 16, unat b mod 16 * 4 + unat c div 64, unat c mod 64] = [a, b, c]"
  unfolding b64bytes_def list.case b64_join by simp_all

lemma decode_encode: "decodeFrom si [] (EncodeToString bs) = Inr bs"
  by (induction bs arbitrary: si rule: EncodeToString.induct) (simp_all add: b64_groups, simp add: b64bytes_def)

lemma Decode_Encode: "DecodeString (EncodeToString bs) = Inr bs"
  by (simp add: DecodeString_def decode_encode)

end
