(* ===== verification/Watch_Stream.thy ===== *)
theory Watch_Stream
  imports Api_Service Base64 "HOL-Library.Sublist"
begin

text \<open>
  The event stream of the api-server, \<open>api-server/pkg/watch\<close>: watchers with their filter and buffer
  (\<open>watcher.go\<close>), and the stream over Redis (\<open>providers/redis/watch.go\<close>): publishing, the position a
  watcher starts from, the read loop that hands the entries of the stream to the watcher one by one and
  records the last one acknowledged, and the registry of watchers. The Redis client is a parameter; the read loop,
  the consumer of the watcher and the publishers are interleaved in the relation \<open>wstep\<close>.
\<close>

section \<open>watcher.go\<close>

definition defaultBufferCapacity :: nat where
  "defaultBufferCapacity = 100"

definition ErrWatcherClosed :: goerr where
  "ErrWatcherClosed = New ''watcher has been closed and cannot receive further events''"

definition ErrInvalidWatcherID :: goerr where
  "ErrInvalidWatcherID = New ''watcher id must be greater than zero''"

text \<open>A filter that panics has no value.\<close>

type_synonym FilterFunc = "Event \<Rightarrow> bool option"

fun and_filters :: "FilterFunc list \<Rightarrow> FilterFunc" where
  "and_filters [] event = Some True"
| "and_filters (f # fs) event =
    (case f event of None \<Rightarrow> None | Some b \<Rightarrow> if b then and_filters fs event else Some False)"

definition applyFilter :: "FilterFunc \<Rightarrow> Event \<Rightarrow> bool" where
  "applyFilter f event = (case f event of None \<Rightarrow> False | Some b \<Rightarrow> b)"

record Watcher =
  wt_id :: int64
  wt_filter :: FilterFunc
  wt_messages :: "Event list"
  wt_closed :: bool

definition newWatcher :: "int64 \<Rightarrow> FilterFunc list \<Rightarrow> Watcher" where
  "newWatcher ident filters = \<lparr> wt_id = ident, wt_filter = and_filters filters, wt_messages = [], wt_closed = False \<rparr>"

definition NewWatcher :: "int64 \<Rightarrow> FilterFunc list \<Rightarrow> Watcher result" where
  "NewWatcher ident filters =
    (if ident \<le> 0 then Inl (Wrap [] ErrInvalidWatcherID ('': got '' @ fmt_d ident)) else Inr (newWatcher ident filters))"

text \<open>\<open>drawn\<close> is what \<open>rand.Int\<close> returns for the bound \<open>MaxInt64 - 1\<close>.\<close>

definition NewAutoIDWatcher :: "int64 result \<Rightarrow> FilterFunc list \<Rightarrow> Watcher result" where
  "NewAutoIDWatcher drawn filters =
    (case drawn of
       Inl err \<Rightarrow> Inl (wrapf ''unable to auto-generate watcher id'' err)
     | Inr i \<Rightarrow> Inr (newWatcher (wrap64 (i + 1)) filters))"

definition watcher_Close :: "Watcher \<Rightarrow> Watcher" where
  "watcher_Close w = w\<lparr>wt_closed := True\<rparr>"

text \<open>The ways \<open>Receive\<close> can end in a given state of the watcher: closed, filtered out (acknowledged at once),
  put into the buffer, or, with \<open>ctxErr\<close>, given up because the context ended first.\<close>

datatype received = Refused goerr | Filtered | Buffered

definition Receive :: "goerr option \<Rightarrow> Watcher \<Rightarrow> Event \<Rightarrow> (Watcher \<times> received) set" where
  "Receive ctxErr w event =
    (if wt_closed w then {(w, Refused ErrWatcherClosed)}
     else if \<not> applyFilter (wt_filter w) event then {(w, Filtered)}
     else (case ctxErr of None \<Rightarrow> {} | Some err \<Rightarrow> {(w, Refused err)})
        \<union> (if length (wt_messages w) < defaultBufferCapacity
           then {(w\<lparr>wt_messages := wt_messages w @ [event]\<rparr>, Buffered)} else {}))"

section \<open>watch.go: positions and messages\<close>

datatype redis_value = VString string | VOther

record entry =
  en_ID :: string
  en_Values :: "string \<rightharpoonup> redis_value"

definition eventKey :: string where
  "eventKey = ''event''"

definition maxSeenID :: string where
  "maxSeenID = ''$''"

definition lastEventIDFmt :: "int64 \<Rightarrow> string" where
  "lastEventIDFmt ident = ''yaghan/'' @ fmt_d ident @ ''/last-event-id''"

definition redis_Nil :: goerr where
  "redis_Nil = New ''redis: nil''"

record 'w redisEventStream =
  rc_XAdd :: "'w \<Rightarrow> string \<Rightarrow> string \<Rightarrow> 'w \<times> unit result"
  rc_XRead :: "'w \<Rightarrow> string \<Rightarrow> 'w \<times> entry list result"
  rc_XRevRangeN :: "'w \<Rightarrow> entry list result"
  rc_Get :: "'w \<Rightarrow> string \<Rightarrow> string result"
  rc_Set :: "'w \<Rightarrow> string \<Rightarrow> string \<Rightarrow> 'w \<times> unit result"
  rc_codec :: "(Event, byte list) codec"
  rc_stream :: string

definition setSandboxEventID :: "string \<Rightarrow> Event \<Rightarrow> Event" where
  "setSandboxEventID eventID event = event\<lparr>ev_Id := eventID\<rparr>"

definition Publish :: "'w redisEventStream \<Rightarrow> 'w \<Rightarrow> Event \<Rightarrow> 'w \<times> unit result" where
  "Publish r w event =
    (case Marshal (rc_codec r) event of
       Inl err \<Rightarrow> (w, Inl (wrapf ''unable to marshal event'' err))
     | Inr wire \<Rightarrow>
       onErr (wrapf (''unable to publish event to Redis stream '' @ rc_stream r))
         (rc_XAdd r w eventKey (EncodeToString wire)))"

definition streamTail :: "'w redisEventStream \<Rightarrow> 'w \<Rightarrow> string" where
  "streamTail r w =
    (case rc_XRevRangeN r w of Inl err \<Rightarrow> maxSeenID | Inr entries \<Rightarrow>
       (case entries of [] \<Rightarrow> maxSeenID | e # _ \<Rightarrow> en_ID e))"

definition getLastEventID :: "'w redisEventStream \<Rightarrow> 'w \<Rightarrow> Watcher \<Rightarrow> string" where
  "getLastEventID r w watcher =
    (case rc_Get r w (lastEventIDFmt (wt_id watcher)) of Inl err \<Rightarrow> maxSeenID | Inr eventID \<Rightarrow> eventID)"

definition startPosition :: "'w redisEventStream \<Rightarrow> 'w \<Rightarrow> Watcher \<Rightarrow> string" where
  "startPosition r w watcher =
    (let startAfter = getLastEventID r w watcher in
     if startAfter = maxSeenID then streamTail r w else startAfter)"

definition setLastEventID :: "'w redisEventStream \<Rightarrow> 'w \<Rightarrow> Watcher \<Rightarrow> string \<Rightarrow> 'w \<times> unit result" where
  "setLastEventID r w watcher eventID =
    (let key = lastEventIDFmt (wt_id watcher) in
     onErr (wrapf (''unable to set key '' @ key)) (rc_Set r w key eventID))"

text \<open>The event of an entry, stamped with the id of the entry; none when it is malformed.\<close>

definition decodeMessage :: "'w redisEventStream \<Rightarrow> entry \<Rightarrow> Event option" where
  "decodeMessage r message =
    (case en_Values message eventKey of
       None \<Rightarrow> None
     | Some VOther \<Rightarrow> None
     | Some (VString data) \<Rightarrow>
       (case DecodeString data of
          Inl err \<Rightarrow> None
        | Inr wire \<Rightarrow>
          (case Unmarshal (rc_codec r) wire of
             Inl err \<Rightarrow> None
           | Inr event \<Rightarrow> Some (setSandboxEventID (en_ID message) event))))"

section \<open>watch.go: the read loop\<close>

text \<open>\<open>context.DeadlineExceeded\<close>, the error of a context whose time is up.\<close>

definition DeadlineExceeded :: goerr where
  "DeadlineExceeded = New ''context deadline exceeded''"

text \<open>Where the loop is: about to read after a position; going through the entries of a read, the last one
  delivered first; waiting for the acknowledgement of an entry; ended.\<close>

datatype reader_pc =
    RdIdle string
  | RdBatch string "entry list"
  | RdAwait string string "entry list"
  | RdStopped

text \<open>A session: the world of the Redis client, the watcher, the loop, the ids of the acknowledged events, whether
  the consumer is alive, and whether a read has failed.\<close>

record 'w wsession =
  ws_w :: 'w
  ws_watcher :: Watcher
  ws_reader :: reader_pc
  ws_acked :: "string list"
  ws_alive :: bool
  ws_failed :: bool

definition newSession :: "'w redisEventStream \<Rightarrow> 'w \<Rightarrow> Watcher \<Rightarrow> 'w wsession" where
  "newSession r w watcher = \<lparr> ws_w = w, ws_watcher = watcher, ws_reader = RdIdle (startPosition r w watcher),
     ws_acked = [], ws_alive = True, ws_failed = False \<rparr>"

text \<open>\<open>readStream\<close> up to the entries, and the end of an iteration of \<open>readLoop\<close>. A failed read loses the
  position.\<close>

definition beginRead :: "'w redisEventStream \<Rightarrow> string \<Rightarrow> 'w wsession \<Rightarrow> 'w wsession" where
  "beginRead r pos s =
    (case rc_XRead r (ws_w s) pos of
       (w, Inl err) \<Rightarrow>
         if errors_Is err redis_Nil then s\<lparr>ws_w := w, ws_reader := RdIdle pos\<rparr>
         else s\<lparr>ws_w := w, ws_failed := True, ws_reader := (if wt_closed (ws_watcher s) then RdStopped else RdIdle maxSeenID)\<rparr>
     | (w, Inr messages) \<Rightarrow> s\<lparr>ws_w := w, ws_reader := RdBatch pos messages\<rparr>)"

definition recordDelivered :: "'w redisEventStream \<Rightarrow> string \<Rightarrow> entry list \<Rightarrow> 'w wsession \<Rightarrow> 'w wsession" where
  "recordDelivered r eventID rest s =
    s\<lparr>ws_w := fst (setLastEventID r (ws_w s) (ws_watcher s) eventID), ws_reader := RdBatch eventID rest\<rparr>"

definition evictWatcher :: "'w wsession \<Rightarrow> 'w wsession" where
  "evictWatcher s = s\<lparr>ws_watcher := watcher_Close (ws_watcher s), ws_reader := RdStopped\<rparr>"

inductive wstep :: "'w redisEventStream \<Rightarrow> 'w wsession \<Rightarrow> 'w wsession \<Rightarrow> bool" for r where
  publish: "wstep r s (s\<lparr>ws_w := fst (Publish r (ws_w s) event)\<rparr>)"
| close: "wstep r s (s\<lparr>ws_watcher := watcher_Close (ws_watcher s)\<rparr>)"
| stop: "\<lbrakk> ws_reader s = RdIdle pos; wt_closed (ws_watcher s) \<rbrakk> \<Longrightarrow> wstep r s (s\<lparr>ws_reader := RdStopped\<rparr>)"
| read: "ws_reader s = RdIdle pos \<Longrightarrow> wstep r s (beginRead r pos s)"
| malformed: "\<lbrakk> ws_reader s = RdBatch pre (m # ms); decodeMessage r m = None \<rbrakk> \<Longrightarrow> wstep r s (s\<lparr>ws_reader := RdBatch pre ms\<rparr>)"
| batch_end: "ws_reader s = RdBatch pre [] \<Longrightarrow> wstep r s (s\<lparr>ws_reader := RdIdle pre\<rparr>)"
| filtered: "\<lbrakk> ws_reader s = RdBatch pre (m # ms); decodeMessage r m = Some event; (w, Filtered) \<in> Receive None (ws_watcher s) event \<rbrakk> \<Longrightarrow>
    wstep r s (recordDelivered r (en_ID m) ms s)"
| buffered: "\<lbrakk> ws_reader s = RdBatch pre (m # ms); decodeMessage r m = Some event; (w, Buffered) \<in> Receive None (ws_watcher s) event \<rbrakk> \<Longrightarrow>
    wstep r s (s\<lparr>ws_watcher := w, ws_reader := RdAwait pre (en_ID m) ms\<rparr>)"
| refused: "\<lbrakk> ws_reader s = RdBatch pre (m # ms); decodeMessage r m = Some event; (w, Refused err) \<in> Receive ctxErr (ws_watcher s) event \<rbrakk> \<Longrightarrow>
    wstep r s (s\<lparr>ws_reader := RdStopped\<rparr>)"
| overfull: "\<lbrakk> ws_reader s = RdBatch pre (m # ms); decodeMessage r m = Some event; (w, Refused DeadlineExceeded) \<in> Receive (Some DeadlineExceeded) (ws_watcher s) event \<rbrakk> \<Longrightarrow>
    wstep r s (evictWatcher s)"
| acknowledged: "\<lbrakk> ws_reader s = RdAwait pre eventID ms; eventID \<in> set (ws_acked s) \<rbrakk> \<Longrightarrow> wstep r s (recordDelivered r eventID ms s)"
| await_timeout: "ws_reader s = RdAwait pre eventID ms \<Longrightarrow> wstep r s (evictWatcher s)"
| cancelled: "wstep r s (s\<lparr>ws_reader := RdStopped\<rparr>)"
| forward: "\<lbrakk> ws_alive s; wt_messages (ws_watcher s) = event # events \<rbrakk> \<Longrightarrow>
    wstep r s (s\<lparr>ws_watcher := (ws_watcher s)\<lparr>wt_messages := events\<rparr>, ws_acked := ws_acked s @ [ev_Id event], ws_alive := sent\<rparr>)"

section \<open>watch.go: the registry\<close>

text \<open>The registered watchers by id; a watcher is named by a number here, and the closed ones are kept.\<close>

record registry =
  rg_watchers :: "int64 \<rightharpoonup> nat"
  rg_closed :: "nat set"

definition Watch_replace :: "int64 \<Rightarrow> registry \<Rightarrow> registry" where
  "Watch_replace ident g =
    (case rg_watchers g ident of
       None \<Rightarrow> g
     | Some existing \<Rightarrow> \<lparr> rg_watchers = (rg_watchers g)(ident := None), rg_closed = insert existing (rg_closed g) \<rparr>)"

text \<open>\<open>ready\<close> is what the read loop reports before \<open>Watch\<close> registers the watcher.\<close>

definition Watch :: "int64 \<Rightarrow> nat \<Rightarrow> unit result \<Rightarrow> registry \<Rightarrow> registry \<times> unit result" where
  "Watch ident watcher ready g =
    (let g = Watch_replace ident g in
     case ready of
       Inl err \<Rightarrow> (g, Inl (wrapf ''unable to check stream readiness'' err))
     | Inr _ \<Rightarrow> (g\<lparr>rg_watchers := (rg_watchers g)(ident \<mapsto> watcher)\<rparr>, Inr ()))"

definition StopWatching :: "int64 \<Rightarrow> registry \<Rightarrow> registry \<times> unit result" where
  "StopWatching watcherID g =
    (case rg_watchers g watcherID of
       None \<Rightarrow> (g, Inl (New (''no such watcher #'' @ fmt_d watcherID)))
     | Some entry \<Rightarrow> (\<lparr> rg_watchers = (rg_watchers g)(watcherID := None), rg_closed = insert entry (rg_closed g) \<rparr>, Inr ()))"

definition GetWatchersCount :: "registry \<Rightarrow> nat" where
  "GetWatchersCount g = card (dom (rg_watchers g))"

text \<open>A session ends by stopping the watcher under its id. When the id has been taken over by a later session meanwhile, it is
  the watcher of the later session that this stops.\<close>

theorem takeover_stops_successor:
  assumes "Watch ident a (Inr ()) g = (g1, Inr ())" "Watch ident b (Inr ()) g1 = (g2, Inr ())"
  shows "a \<in> rg_closed g2 \<and> rg_watchers g2 ident = Some b
    \<and> StopWatching ident g2 = (\<lparr> rg_watchers = (rg_watchers g2)(ident := None), rg_closed = insert b (rg_closed g2) \<rparr>, Inr ())"
  using assms by (auto simp: Watch_def Watch_replace_def StopWatching_def Let_def split: option.splits)

section \<open>What Redis promises\<close>

text \<open>\<open>at i n es\<close>: the first \<open>n\<close> entries of \<open>es\<close> end with the one whose id is \<open>i\<close>.\<close>

definition at :: "string \<Rightarrow> nat \<Rightarrow> entry list \<Rightarrow> bool" where
  "at i n es = (0 < n \<and> n \<le> length es \<and> en_ID (es ! (n - 1)) = i)"

text \<open>The stream only grows, its ids are distinct, and none is the special one; a read after an id returns entries that follow it
  without a gap, and one after \<open>$\<close> only entries added meanwhile; only a set changes a key, to the given value, and if it fails it may or may not have done so.\<close>

locale redis_stream =
  fixes r :: "'w redisEventStream" and log :: "'w \<Rightarrow> entry list" and saved :: "'w \<Rightarrow> string \<rightharpoonup> string"
  assumes ids: "distinct (map en_ID (log w))" "maxSeenID \<notin> set (map en_ID (log w))"
    and xadd: "rc_XAdd r w k v = (w', x) \<Longrightarrow> prefix (log w) (log w') \<and> saved w' = saved w"
    and xread: "rc_XRead r w pos = (w', y) \<Longrightarrow> prefix (log w) (log w') \<and> saved w' = saved w"
    and xread_after: "rc_XRead r w pos = (w', Inr es) \<Longrightarrow> at pos n (log w') \<Longrightarrow> prefix es (drop n (log w'))"
    and xread_new: "rc_XRead r w maxSeenID = (w', Inr es) \<Longrightarrow> set es \<subseteq> set (drop (length (log w)) (log w'))"
    and xset: "rc_Set r w k v = (w', x) \<Longrightarrow> prefix (log w) (log w') \<and> (saved w' = (saved w)(k \<mapsto> v) \<or> x \<noteq> Inr () \<and> saved w' = saved w)"
    and xget: "rc_Get r w k = Inr v \<Longrightarrow> saved w k = Some v"
    and xtail: "rc_XRevRangeN r w = Inr es \<Longrightarrow> es = take 1 (rev (log w))"

text \<open>An entry a watcher is to be told about; that it was told about all of those between two places in the
  stream; and that it was, from \<open>start\<close> to the entry with a given id.\<close>

definition relevant :: "'w redisEventStream \<Rightarrow> Watcher \<Rightarrow> entry \<Rightarrow> bool" where
  "relevant r wt e = (case decodeMessage r e of None \<Rightarrow> False | Some event \<Rightarrow> applyFilter (wt_filter wt) event)"

definition told :: "'w redisEventStream \<Rightarrow> Watcher \<Rightarrow> nat \<Rightarrow> nat \<Rightarrow> entry list \<Rightarrow> string list \<Rightarrow> bool" where
  "told r wt start n es acked = (\<forall>k. start \<le> k \<and> k < n \<and> relevant r wt (es ! k) \<longrightarrow> en_ID (es ! k) \<in> set acked)"

definition reached :: "'w redisEventStream \<Rightarrow> Watcher \<Rightarrow> nat \<Rightarrow> string \<Rightarrow> entry list \<Rightarrow> string list \<Rightarrow> bool" where
  "reached r wt start i es acked = (\<exists>n. at i n es \<and> start \<le> n \<and> told r wt start n es acked)"

lemma at_grows: "at i n es \<Longrightarrow> prefix es es' \<Longrightarrow> at i n es'"
  by (auto simp: at_def prefix_def nth_append)

lemma told_grows:
  assumes "told r wt start n es acked" "n \<le> length es" "prefix es es'" "set acked \<subseteq> set acked'"
  shows "told r wt start n es' acked'"
  using assms by (fastforce simp: told_def prefix_def nth_append)

lemma reached_grows:
  assumes "reached r wt start i es acked" "prefix es es'" "set acked \<subseteq> set acked'"
  shows "reached r wt start i es' acked'"
  using assms at_grows told_grows unfolding reached_def by (metis at_def)

lemma told_next:
  assumes "told r wt start n es acked" "relevant r wt (es ! n) \<Longrightarrow> en_ID (es ! n) \<in> set acked"
  shows "told r wt start (Suc n) es acked"
  using assms by (auto simp: told_def less_Suc_eq)

section \<open>The read loop leaves no gap\<close>

text \<open>The entries a position of the loop still has to go through follow what the watcher was told.\<close>

definition upcoming ::
  "'w redisEventStream \<Rightarrow> Watcher \<Rightarrow> nat \<Rightarrow> entry list \<Rightarrow> string list \<Rightarrow> entry list \<Rightarrow> bool" where
  "upcoming r wt start es acked ms =
    (\<exists>m. start \<le> m \<and> m \<le> length es \<and> told r wt start m es acked \<and> prefix ms (drop m es))"

definition at_reader ::
  "'w redisEventStream \<Rightarrow> Watcher \<Rightarrow> nat \<Rightarrow> entry list \<Rightarrow> string list \<Rightarrow> reader_pc \<Rightarrow> bool" where
  "at_reader r wt start es acked pc = (case pc of
     RdIdle pos \<Rightarrow> reached r wt start pos es acked
   | RdBatch pre ms \<Rightarrow> reached r wt start pre es acked \<and> upcoming r wt start es acked ms
   | RdAwait pre i ms \<Rightarrow> reached r wt start pre es acked \<and> (\<exists>e. en_ID e = i \<and> upcoming r wt start es acked (e # ms))
   | RdStopped \<Rightarrow> True)"

lemma upcoming_grows:
  assumes "upcoming r wt start es acked ms" "prefix es es'" "set acked \<subseteq> set acked'"
  shows "upcoming r wt start es' acked' ms"
proof -
  from assms(1) obtain m where m: "start \<le> m" "m \<le> length es" "told r wt start m es acked" "prefix ms (drop m es)"
    unfolding upcoming_def by blast
  from assms(2) obtain zs where z: "es' = es @ zs" by (auto simp: prefix_def)
  have "prefix ms (drop m es')" using m(2,4) z by (auto intro: prefix_prefix)
  then show ?thesis using m told_grows [OF m(3,2) assms(2,3)] z unfolding upcoming_def by (intro exI [of _ m]) simp
qed

lemma at_reader_grows:
  assumes "at_reader r wt start es acked pc" "prefix es es'" "set acked \<subseteq> set acked'"
  shows "at_reader r wt start es' acked' pc"
  using assms(1) reached_grows [OF _ assms(2,3)] upcoming_grows [OF _ assms(2,3)]
  by (fastforce simp: at_reader_def split: reader_pc.splits)

lemma upcoming_step:
  assumes "upcoming r wt start es acked (e # ms)" "relevant r wt e \<Longrightarrow> en_ID e \<in> set acked"
  shows "upcoming r wt start es acked ms \<and> reached r wt start (en_ID e) es acked"
proof -
  from assms(1) obtain m where m: "start \<le> m" "told r wt start m es acked" "prefix (e # ms) (drop m es)"
    unfolding upcoming_def by blast
  then obtain zs where "drop m es = e # ms @ zs" by (auto simp: prefix_def)
  then have l: "m < length es" "es ! m = e" "drop (Suc m) es = ms @ zs"
    by (auto simp: drop_Suc nth_via_drop simp flip: tl_drop intro: ccontr)
  have t: "told r wt start (Suc m) es acked" using told_next [OF m(2)] assms(2) l(2) by simp
  have "upcoming r wt start es acked ms" unfolding upcoming_def using m(1) l t by (intro exI [of _ "Suc m"]) simp
  moreover have "reached r wt start (en_ID e) es acked"
    unfolding reached_def at_def using m(1) l t by (intro exI [of _ "Suc m"]) simp
  ultimately show ?thesis ..
qed

lemma upcoming_skip:
  assumes "upcoming r wt start es acked (e # ms)" "\<not> relevant r wt e"
  shows "upcoming r wt start es acked ms"
  using upcoming_step [OF assms(1)] assms(2) by simp

definition watch_inv ::
  "'w redisEventStream \<Rightarrow> ('w \<Rightarrow> entry list) \<Rightarrow> ('w \<Rightarrow> string \<rightharpoonup> string) \<Rightarrow> Watcher \<Rightarrow> nat \<Rightarrow> string option \<Rightarrow> 'w wsession \<Rightarrow> bool" where
  "watch_inv r log saved wt start sv s =
    (wt_id (ws_watcher s) = wt_id wt \<and> wt_filter (ws_watcher s) = wt_filter wt
     \<and> (\<not> ws_failed s \<longrightarrow> at_reader r wt start (log (ws_w s)) (ws_acked s) (ws_reader s)
        \<and> (saved (ws_w s) (lastEventIDFmt (wt_id wt)) = sv
           \<or> (\<exists>i. saved (ws_w s) (lastEventIDFmt (wt_id wt)) = Some i \<and> reached r wt start i (log (ws_w s)) (ws_acked s)))))"

context redis_stream
begin

abbreviation winv :: "Watcher \<Rightarrow> nat \<Rightarrow> string option \<Rightarrow> 'w wsession \<Rightarrow> bool" where
  "winv \<equiv> watch_inv r log saved"

lemma publish_grows:
  "prefix (log w) (log (fst (Publish r w event))) \<and> saved (fst (Publish r w event)) = saved w"
proof (cases "Marshal (rc_codec r) event")
  case (Inr wire)
  obtain w' x where a: "rc_XAdd r w eventKey (EncodeToString wire) = (w', x)" by fastforce
  then have "fst (Publish r w event) = w'" using Inr by (cases x) (simp_all add: Publish_def onErr_def)
  then show ?thesis using xadd [OF a] by simp
qed (simp add: Publish_def)

lemma record_cases:
  obtains x w' where "rc_Set r w (lastEventIDFmt (wt_id wt)) i = (w', x)" "fst (setLastEventID r w wt i) = w'"
proof -
  obtain w' x where s: "rc_Set r w (lastEventIDFmt (wt_id wt)) i = (w', x)" by fastforce
  then have "fst (setLastEventID r w wt i) = w'" by (cases x) (simp_all add: setLastEventID_def Let_def onErr_def)
  with s show thesis by (rule that)
qed

lemma record_grows: "prefix (log w) (log (fst (setLastEventID r w wt i)))"
  using xset by (rule_tac w = w and wt = wt and i = i in record_cases) blast

lemma inv_upd:
  assumes "winv wt start sv s" "prefix (log (ws_w s)) (log (ws_w s'))" "set (ws_acked s) \<subseteq> set (ws_acked s')"
    and "wt_id (ws_watcher s') = wt_id (ws_watcher s)" "wt_filter (ws_watcher s') = wt_filter (ws_watcher s)"
    and "ws_failed s \<Longrightarrow> ws_failed s'"
    and "\<not> ws_failed s' \<Longrightarrow> at_reader r wt start (log (ws_w s')) (ws_acked s') (ws_reader s')"
    and "\<not> ws_failed s' \<Longrightarrow> saved (ws_w s') = saved (ws_w s)
      \<or> (\<exists>i. saved (ws_w s') (lastEventIDFmt (wt_id wt)) = Some i \<and> reached r wt start i (log (ws_w s')) (ws_acked s'))"
  shows "winv wt start sv s'"
  using assms reached_grows [OF _ assms(2,3)] unfolding watch_inv_def by metis

text \<open>Steps that leave the loop where it is, or end it.\<close>

lemma inv_same:
  assumes "winv wt start sv s" "prefix (log (ws_w s)) (log (ws_w s'))" "set (ws_acked s) \<subseteq> set (ws_acked s')"
    and "wt_id (ws_watcher s') = wt_id (ws_watcher s)" "wt_filter (ws_watcher s') = wt_filter (ws_watcher s)"
    and "ws_failed s' = ws_failed s" "saved (ws_w s') = saved (ws_w s)" "ws_reader s' = ws_reader s \<or> ws_reader s' = RdStopped"
  shows "winv wt start sv s'"
proof (rule inv_upd [OF assms(1-5)])
  assume "\<not> ws_failed s'"
  then have "at_reader r wt start (log (ws_w s)) (ws_acked s) (ws_reader s)" using assms(1,6) by (simp add: watch_inv_def)
  from at_reader_grows [OF this assms(2,3)] assms(8) show "at_reader r wt start (log (ws_w s')) (ws_acked s') (ws_reader s')"
    by (auto simp: at_reader_def)
qed (use assms(6,7) in simp_all)

lemma inv_reader:
  "winv wt start sv s \<Longrightarrow> \<not> ws_failed s \<Longrightarrow> at_reader r wt start (log (ws_w s)) (ws_acked s) (ws_reader s)"
  by (simp add: watch_inv_def)

lemma inv_read:
  assumes "winv wt start sv s" "ws_reader s = RdIdle pos"
  shows "winv wt start sv (beginRead r pos s)"
proof -
  obtain w y where x: "rc_XRead r (ws_w s) pos = (w, y)" by fastforce
  from xread [OF x] have g: "prefix (log (ws_w s)) (log w)" "saved w = saved (ws_w s)" by simp_all
  show ?thesis
  proof (cases y)
    case (Inl err)
    then show ?thesis
      using x g inv_reader [OF assms(1)] assms(2) reached_grows [OF _ g(1) subset_refl]
      by (intro inv_upd [OF assms(1)]) (auto simp: beginRead_def at_reader_def)
  next
    case (Inr es)
    have "at_reader r wt start (log w) (ws_acked s) (RdBatch pos es)" if "\<not> ws_failed s"
    proof -
      have "reached r wt start pos (log w) (ws_acked s)"
        using reached_grows [OF _ g(1) subset_refl] inv_reader [OF assms(1) that] assms(2) by (simp add: at_reader_def)
      moreover from this obtain n where n: "at pos n (log w)" "start \<le> n" "told r wt start n (log w) (ws_acked s)"
        unfolding reached_def by blast
      moreover have "upcoming r wt start (log w) (ws_acked s) es"
        unfolding upcoming_def using n xread_after [OF x [unfolded Inr] n(1)] by (intro exI [of _ n]) (simp add: at_def)
      ultimately show ?thesis by (simp add: at_reader_def)
    qed
    then show ?thesis using x g Inr by (intro inv_upd [OF assms(1)]) (auto simp: beginRead_def)
  qed
qed

lemma inv_record:
  assumes "winv wt start sv s" "\<not> ws_failed s \<Longrightarrow> upcoming r wt start (log (ws_w s)) (ws_acked s) ms"
    "\<not> ws_failed s \<Longrightarrow> reached r wt start i (log (ws_w s)) (ws_acked s)"
  shows "winv wt start sv (recordDelivered r i ms s)"
proof -
  obtain w x where set: "rc_Set r (ws_w s) (lastEventIDFmt (wt_id (ws_watcher s))) i = (w, x)"
    and w: "fst (setLastEventID r (ws_w s) (ws_watcher s) i) = w" by (rule record_cases)
  note g = xset [OF set]
  note w
  moreover have "wt_id (ws_watcher s) = wt_id wt" using assms(1) by (simp add: watch_inv_def)
  ultimately show ?thesis
    using g reached_grows [OF assms(3) _ subset_refl] upcoming_grows [OF assms(2) _ subset_refl]
    by (intro inv_upd [OF assms(1)]) (auto simp: recordDelivered_def at_reader_def)
qed

lemma wstep_inv:
  assumes "wstep r s s'" "winv wt start sv s"
  shows "winv wt start sv s'"
  using assms(1)
proof cases
  case (publish event)
  then show ?thesis using publish_grows [of "ws_w s" event] by (intro inv_same [OF assms(2)]) simp_all
next
  case (read pos)
  then show ?thesis using inv_read [OF assms(2)] by simp
next
  case (malformed pre m ms)
  then have "upcoming r wt start (log (ws_w s)) (ws_acked s) ms \<and> reached r wt start pre (log (ws_w s)) (ws_acked s)" if "\<not> ws_failed s"
    using inv_reader [OF assms(2) that] upcoming_skip [of r wt start _ _ m ms] by (simp add: at_reader_def relevant_def)
  then show ?thesis using malformed by (intro inv_upd [OF assms(2)]) (auto simp: at_reader_def)
next
  case (batch_end pre)
  then show ?thesis using inv_reader [OF assms(2)] by (intro inv_upd [OF assms(2)]) (auto simp: at_reader_def)
next
  case (filtered pre m ms event w)
  have "\<not> relevant r wt m"
    using filtered(3,4) assms(2) by (auto simp: relevant_def Receive_def watch_inv_def split: if_splits)
  then have "upcoming r wt start (log (ws_w s)) (ws_acked s) ms \<and> reached r wt start (en_ID m) (log (ws_w s)) (ws_acked s)" if "\<not> ws_failed s"
    using upcoming_step [of r wt start _ _ m ms] inv_reader [OF assms(2) that] filtered(2) by (simp add: at_reader_def)
  then show ?thesis using filtered inv_record [OF assms(2)] by simp
next
  case (buffered pre m ms event w)
  then show ?thesis
    using inv_reader [OF assms(2)] by (intro inv_upd [OF assms(2)]) (auto simp: at_reader_def Receive_def split: if_splits)
next
  case (acknowledged pre eventID ms)
  have "upcoming r wt start (log (ws_w s)) (ws_acked s) ms \<and> reached r wt start eventID (log (ws_w s)) (ws_acked s)" if f: "\<not> ws_failed s"
  proof -
    from inv_reader [OF assms(2) f] acknowledged(2) obtain e where e: "en_ID e = eventID" "upcoming r wt start (log (ws_w s)) (ws_acked s) (e # ms)"
      by (auto simp: at_reader_def)
    from upcoming_step [OF e(2)] e(1) acknowledged(3) show ?thesis by simp
  qed
  then show ?thesis using acknowledged inv_record [OF assms(2)] by simp
qed (use assms(2) in \<open>auto intro!: inv_same [OF assms(2)] simp: watcher_Close_def evictWatcher_def\<close>)

end


section \<open>A failed read loses events\<close>

text \<open>From a place \<open>base\<close> on, with the position lost: what the loop has in hand, what is buffered and what is
  acknowledged was so before or was added after \<open>base\<close>.\<close>

definition later :: "entry list \<Rightarrow> nat \<Rightarrow> string set" where
  "later es base = en_ID ` set (drop base es)"

definition lost_reader :: "string set \<Rightarrow> reader_pc \<Rightarrow> bool" where
  "lost_reader new pc = (case pc of
     RdIdle pos \<Rightarrow> pos \<in> insert maxSeenID new
   | RdBatch pre ms \<Rightarrow> pre \<in> insert maxSeenID new \<and> en_ID ` set ms \<subseteq> new
   | RdAwait pre i ms \<Rightarrow> pre \<in> insert maxSeenID new \<and> insert i (en_ID ` set ms) \<subseteq> new
   | RdStopped \<Rightarrow> True)"

definition lost_inv :: "('w \<Rightarrow> entry list) \<Rightarrow> string set \<Rightarrow> nat \<Rightarrow> 'w wsession \<Rightarrow> bool" where
  "lost_inv log old base s =
    (base \<le> length (log (ws_w s))
     \<and> set (ws_acked s) \<union> ev_Id ` set (wt_messages (ws_watcher s)) \<subseteq> old \<union> later (log (ws_w s)) base
     \<and> lost_reader (later (log (ws_w s)) base) (ws_reader s))"

lemma lost_reader_simps [simp]:
  "lost_reader new (RdIdle pos) \<longleftrightarrow> pos = maxSeenID \<or> pos \<in> new"
  "lost_reader new (RdBatch pre ms) \<longleftrightarrow> (pre = maxSeenID \<or> pre \<in> new) \<and> en_ID ` set ms \<subseteq> new"
  "lost_reader new (RdAwait pre i ms) \<longleftrightarrow> (pre = maxSeenID \<or> pre \<in> new) \<and> i \<in> new \<and> en_ID ` set ms \<subseteq> new"
  "lost_reader new RdStopped"
  by (simp_all add: lost_reader_def)

lemma lost_reader_mono: "lost_reader a pc \<Longrightarrow> a \<subseteq> b \<Longrightarrow> lost_reader b pc"
  by (cases pc) auto

lemma later_grows: "prefix es es' \<Longrightarrow> base \<le> length es \<Longrightarrow> later es base \<subseteq> later es' base"
  by (auto simp: later_def prefix_def)

lemma later_at:
  assumes "pos \<in> later es base"
  obtains n where "at pos n es" "base < n"
proof -
  from assms obtain k where k: "k < length (drop base es)" "en_ID (drop base es ! k) = pos"
    unfolding later_def by (auto simp: in_set_conv_nth)
  then show thesis using that [of "Suc (base + k)"] by (simp add: at_def)
qed

context redis_stream
begin

lemma lost_upd:
  assumes "lost_inv log old base s" "prefix (log (ws_w s)) (log (ws_w s'))"
    and "set (ws_acked s') \<union> ev_Id ` set (wt_messages (ws_watcher s')) \<subseteq> set (ws_acked s) \<union> ev_Id ` set (wt_messages (ws_watcher s))"
    and "ws_reader s' = ws_reader s \<or> ws_reader s' = RdStopped"
  shows "lost_inv log old base s'"
proof -
  have l: "base \<le> length (log (ws_w s'))" "later (log (ws_w s)) base \<subseteq> later (log (ws_w s')) base"
    using assms(1,2) later_grows [OF assms(2), of base] by (auto simp: lost_inv_def dest: prefix_length_le)
  have "lost_reader (later (log (ws_w s')) base) (ws_reader s')"
    using assms(1,4) lost_reader_mono [OF _ l(2), of "ws_reader s"] by (auto simp: lost_inv_def)
  moreover have "set (ws_acked s') \<union> ev_Id ` set (wt_messages (ws_watcher s')) \<subseteq> old \<union> later (log (ws_w s')) base"
    using assms(1,3) l(2) unfolding lost_inv_def by blast
  ultimately show ?thesis using l(1) by (simp add: lost_inv_def)
qed

lemma lost_read:
  assumes i: "lost_inv log old base s" and pc: "ws_reader s = RdIdle pos"
  shows "lost_inv log old base (beginRead r pos s)"
proof -
  obtain w y where x: "rc_XRead r (ws_w s) pos = (w, y)" by fastforce
  from xread [OF x] have g: "prefix (log (ws_w s)) (log w)" by simp
  have b: "base \<le> length (log (ws_w s))" using i by (simp add: lost_inv_def)
  have l: "base \<le> length (log w)" "later (log (ws_w s)) base \<subseteq> later (log w) base"
    using later_grows [OF g b] prefix_length_le [OF g] b by simp_all
  have "en_ID ` set es \<subseteq> later (log w) base" if "y = Inr es" for es
  proof (cases "pos = maxSeenID")
    case True
    then have "set es \<subseteq> set (drop (length (log (ws_w s))) (log w))" using xread_new x that by simp
    then show ?thesis using set_drop_subset_set_drop [OF b, of "log w"] unfolding later_def by blast
  next
    case False
    then have "pos \<in> later (log w) base" using i pc l(2) by (auto simp: lost_inv_def)
    then obtain n where n: "at pos n (log w)" "base < n" by (rule later_at)
    from xread_after [OF x [unfolded that] n(1)] have "set es \<subseteq> set (drop n (log w))" by (rule set_mono_prefix)
    then show ?thesis using set_drop_subset_set_drop [of base n "log w"] n(2) unfolding later_def by auto
  qed
  then show ?thesis
    using i pc l x by (cases y) (auto simp: lost_inv_def beginRead_def split: if_splits)
qed

lemma lost_record:
  assumes "lost_inv log old base s" "i \<in> later (log (ws_w s)) base" "en_ID ` set ms \<subseteq> later (log (ws_w s)) base"
  shows "lost_inv log old base (recordDelivered r i ms s)"
proof -
  obtain w x where set: "rc_Set r (ws_w s) (lastEventIDFmt (wt_id (ws_watcher s))) i = (w, x)"
    and w: "fst (setLastEventID r (ws_w s) (ws_watcher s) i) = w" by (rule record_cases)
  have g: "prefix (log (ws_w s)) (log w)" using xset [OF set] by simp
  have b: "base \<le> length (log (ws_w s))" using assms(1) by (simp add: lost_inv_def)
  have "base \<le> length (log w)" "later (log (ws_w s)) base \<subseteq> later (log w) base"
    using later_grows [OF g b] prefix_length_le [OF g] b by simp_all
  then show ?thesis using assms by (auto simp: lost_inv_def recordDelivered_def w)
qed

lemma decode_id: "decodeMessage r m = Some event \<Longrightarrow> ev_Id event = en_ID m"
  by (auto simp: decodeMessage_def setSandboxEventID_def split: option.splits redis_value.splits sum.splits)

lemma wstep_lost:
  assumes "wstep r s s'" "lost_inv log old base s"
  shows "lost_inv log old base s'"
  using assms(1)
proof cases
  case (publish event)
  then show ?thesis using publish_grows [of "ws_w s" event] by (intro lost_upd [OF assms(2)]) simp_all
next
  case (read pos)
  then show ?thesis using lost_read [OF assms(2)] by simp
next
  case (filtered pre m ms event w)
  then show ?thesis using lost_record [OF assms(2), of "en_ID m" ms] assms(2) by (simp add: lost_inv_def)
next
  case (buffered pre m ms event w)
  then show ?thesis
    using assms(2) decode_id [OF buffered(3)] by (auto simp: lost_inv_def Receive_def split: if_splits)
next
  case (acknowledged pre eventID ms)
  then show ?thesis using lost_record [OF assms(2), of eventID ms] assms(2) by (simp add: lost_inv_def)
next
  case close
  then show ?thesis by (intro lost_upd [OF assms(2)]) (simp_all add: watcher_Close_def)
next
  case (forward event events sent)
  then show ?thesis by (intro lost_upd [OF assms(2)]) auto
qed (use assms(2) in \<open>auto simp: lost_inv_def watcher_Close_def evictWatcher_def\<close>)

end

context redis_stream
begin

lemma wstep_grows:
  assumes "wstep r s s'"
  shows "prefix (log (ws_w s)) (log (ws_w s'))"
  using assms
proof cases
  case (publish event)
  then show ?thesis using publish_grows [of "ws_w s" event] by simp
next
  case (read pos)
  then show ?thesis
    using xread [of "ws_w s" pos] by (cases "rc_XRead r (ws_w s) pos") (auto simp: beginRead_def split: sum.splits)
qed (auto simp: evictWatcher_def recordDelivered_def record_grows)

lemma log_grows: "(wstep r)\<^sup>*\<^sup>* s s' \<Longrightarrow> prefix (log (ws_w s)) (log (ws_w s'))"
  by (induction rule: rtranclp_induct) (auto intro: wstep_grows prefix_order.order_trans)

end

text \<open>C25: a failed read loses events. When a read of the stream fails, the loop forgets its position and goes on after
  whatever the stream then ends with: an event that was in the stream by then, and that the watcher had not
  received, is never acknowledged in that session, however it continues; and between two reads the position of the loop is
  the forgotten one or lies behind that event.\<close>

theorem watch_error_loses:
  assumes "redis_stream r log saved" and "ws_reader s = RdIdle pos" and "rc_XRead r (ws_w s) pos = (w, Inl err)"
    and "\<not> errors_Is err redis_Nil" and "(wstep r)\<^sup>*\<^sup>* (beginRead r pos s) s'"
    and "e \<in> set (log w)" and "en_ID e \<notin> set (ws_acked s) \<union> ev_Id ` set (wt_messages (ws_watcher s))"
  shows "en_ID e \<notin> set (ws_acked s') \<and> (\<forall>i. ws_reader s' = RdIdle i \<longrightarrow> i = maxSeenID \<or> i \<in> later (log (ws_w s')) (length (log w)))"
proof -
  have "lost_inv log (set (ws_acked s) \<union> ev_Id ` set (wt_messages (ws_watcher s))) (length (log w)) (beginRead r pos s)"
    using assms(3,4) by (auto simp: beginRead_def lost_inv_def)
  from assms(5) this have i: "lost_inv log (set (ws_acked s) \<union> ev_Id ` set (wt_messages (ws_watcher s))) (length (log w)) s'"
    by (induction rule: rtranclp_induct) (auto intro: redis_stream.wstep_lost [OF assms(1)])
  have "prefix (log (ws_w (beginRead r pos s))) (log (ws_w s'))"
    using assms(5) by (rule redis_stream.log_grows [OF assms(1)])
  then have "prefix (log w) (log (ws_w s'))" using assms(3,4) by (simp add: beginRead_def)
  then obtain zs where z: "log (ws_w s') = log w @ zs" by (auto simp: prefix_def)
  have "en_ID e \<notin> later (log (ws_w s')) (length (log w))"
    using redis_stream.ids(1) [OF assms(1), of "ws_w s'"] assms(6) z by (auto simp: later_def)
  with i assms(7) show ?thesis by (auto simp: lost_inv_def)
qed

section \<open>A stream in memory\<close>

record memredis =
  mr_data :: "(string \<rightharpoonup> redis_value) list"
  mr_keys :: "string \<rightharpoonup> string"
  mr_fail :: bool

definition mr_log :: "memredis \<Rightarrow> entry list" where
  "mr_log w = map (\<lambda>i. \<lparr> en_ID = dec_nat i @ ''-0'', en_Values = mr_data w ! i \<rparr>) [0..<length (mr_data w)]"

definition wit_event :: Event where
  "wit_event = \<lparr> ev_Id = [], ev_EmittedAt = None, ev_Sandbox = None \<rparr>"

definition mem_redis :: "memredis redisEventStream" where
  "mem_redis =
    \<lparr> rc_XAdd = \<lambda>w k v. (w\<lparr>mr_data := mr_data w @ [[k \<mapsto> VString v]]\<rparr>, Inr ()),
      rc_XRead = \<lambda>w pos.
        if mr_fail w then (w\<lparr>mr_fail := False\<rparr>, Inl (New ''connection reset by peer''))
        else (case (if pos = maxSeenID then [] else tl (dropWhile (\<lambda>e. en_ID e \<noteq> pos) (mr_log w))) of
                [] \<Rightarrow> (w, Inl redis_Nil) | e # es \<Rightarrow> (w, Inr (e # es))),
      rc_XRevRangeN = \<lambda>w. Inr (take 1 (rev (mr_log w))),
      rc_Get = \<lambda>w k. (case mr_keys w k of None \<Rightarrow> Inl redis_Nil | Some v \<Rightarrow> Inr v),
      rc_Set = \<lambda>w k v. (w\<lparr>mr_keys := (mr_keys w)(k \<mapsto> v)\<rparr>, Inr ()),
      rc_codec = \<lparr> Marshal = \<lambda>e. Inr [1], MarshalDeterministic = \<lambda>e. Inr [1], Unmarshal = \<lambda>b. Inr wit_event, Sum256 = \<lambda>b. b \<rparr>,
      rc_stream = ''events:sandboxes'' \<rparr>"

lemma at_dropWhile:
  assumes "at pos n es" "distinct (map en_ID es)"
  shows "tl (dropWhile (\<lambda>e. en_ID e \<noteq> pos) es) = drop n es"
proof -
  from assms(1) have n: "0 < n" "n \<le> length es" "en_ID (es ! (n - 1)) = pos" by (simp_all add: at_def)
  have es: "es = take (n - 1) es @ es ! (n - 1) # drop n es"
    using n id_take_nth_drop [of "n - 1" es] by simp
  have "en_ID e \<noteq> pos" if "e \<in> set (take (n - 1) es)" for e
  proof -
    from that obtain k where "k < n - 1" "e = es ! k" by (auto simp: in_set_conv_nth)
    then show ?thesis using nth_eq_iff_index_eq [OF assms(2), of k "n - 1"] n by auto
  qed
  then have "dropWhile (\<lambda>e. en_ID e \<noteq> pos) (take (n - 1) es @ es ! (n - 1) # drop n es) = es ! (n - 1) # drop n es"
    using n(3) by (subst dropWhile_append2) auto
  then show ?thesis using es by simp
qed

lemma mr_ids: "distinct (map en_ID (mr_log w))" "maxSeenID \<notin> set (map en_ID (mr_log w))"
  by (auto simp: mr_log_def distinct_map inj_on_def maxSeenID_def)

lemma mr_log_add:
  "mr_log (w\<lparr>mr_data := mr_data w @ [d]\<rparr>) = mr_log w @ [\<lparr> en_ID = dec_nat (length (mr_data w)) @ ''-0'', en_Values = d \<rparr>]"
  by (simp add: mr_log_def nth_append)

lemma mr_log_same: "mr_log (w\<lparr>mr_fail := b\<rparr>) = mr_log w" "mr_log (w\<lparr>mr_keys := m\<rparr>) = mr_log w"
  by (simp_all add: mr_log_def)

interpretation mred: redis_stream mem_redis mr_log mr_keys
proof
  fix w pos w' es n
  assume x: "rc_XRead mem_redis w pos = (w', Inr es)" and a: "at pos n (mr_log w')"
  then have "w' = w" "es = tl (dropWhile (\<lambda>e. en_ID e \<noteq> pos) (mr_log w))"
    by (auto simp: mem_redis_def split: if_splits list.splits)
  then show "prefix es (drop n (mr_log w'))" using at_dropWhile [OF a mr_ids(1)] by simp
next
  show "maxSeenID \<notin> set (map en_ID (mr_log w))" for w by (rule mr_ids(2))
qed (auto simp: mem_redis_def mr_ids(1) mr_log_add mr_log_same split: if_splits list.splits option.splits)

text \<open>A stream with one event, which a new watcher starts after; and the same with a read about to fail.\<close>

definition wit_redis :: memredis where
  "wit_redis = \<lparr> mr_data = [Map.empty], mr_keys = Map.empty, mr_fail = False \<rparr>"

definition wit_watcher :: Watcher where
  "wit_watcher = newWatcher 5 []"

definition wit_added :: memredis where
  "wit_added = fst (Publish mem_redis wit_redis wit_event)"

lemmas wit_watch_simps = wit_redis_def wit_watcher_def wit_added_def newWatcher_def newSession_def mem_redis_def mr_log_def Publish_def
  onErr_def startPosition_def getLastEventID_def streamTail_def Let_def maxSeenID_def

lemma wit_start: "startPosition mem_redis wit_redis wit_watcher = ''0-0''" "at ''0-0'' 1 (mr_log wit_redis)"
  by code_simp+


definition wit_failing :: "memredis wsession" where
  "wit_failing = (newSession mem_redis wit_redis wit_watcher)\<lparr>ws_w := wit_added\<lparr>mr_fail := True\<rparr>\<rparr>"

theorem watch_error_loses_witness:
  "relevant mem_redis wit_watcher (mr_log wit_added ! 1) \<and> en_ID (mr_log wit_added ! 1) = ''1-0''
   \<and> ''1-0'' \<notin> set (ws_acked (beginRead mem_redis maxSeenID (beginRead mem_redis ''0-0'' wit_failing)))"
proof (intro conjI)
  show "relevant mem_redis wit_watcher (mr_log wit_added ! 1)" by code_simp
  show i: "en_ID (mr_log wit_added ! 1) = ''1-0''" by code_simp
  let ?s = "beginRead mem_redis ''0-0'' wit_failing"
  have pc: "ws_reader wit_failing = RdIdle ''0-0''" by (simp add: wit_failing_def newSession_def wit_start)
  have x: "rc_XRead mem_redis (ws_w wit_failing) ''0-0'' = (wit_added\<lparr>mr_fail := False\<rparr>, Inl (New ''connection reset by peer''))"
    by (simp add: mem_redis_def wit_failing_def)
  have n: "\<not> errors_Is (New ''connection reset by peer'') redis_Nil" by (simp add: redis_Nil_def)
  have "ws_reader ?s = RdIdle maxSeenID"
    using n by (simp add: beginRead_def x) (simp add: wit_failing_def newSession_def wit_watcher_def newWatcher_def)
  then have "wstep mem_redis ?s (beginRead mem_redis maxSeenID ?s)" by (rule wstep.read)
  then have r: "(wstep mem_redis)\<^sup>*\<^sup>* ?s (beginRead mem_redis maxSeenID ?s)" by (rule r_into_rtranclp)
  have "length (mr_log wit_added) = 2" by code_simp
  then have e: "mr_log wit_added ! 1 \<in> set (mr_log (wit_added\<lparr>mr_fail := False\<rparr>))" by (simp add: mr_log_same)
  have "ws_acked wit_failing = []" "wt_messages (ws_watcher wit_failing) = []"
    by (simp_all add: wit_failing_def newSession_def wit_watcher_def newWatcher_def)
  then have o: "en_ID (mr_log wit_added ! 1) \<notin> set (ws_acked wit_failing) \<union> ev_Id ` set (wt_messages (ws_watcher wit_failing))" by simp
  from watch_error_loses [OF mred.redis_stream_axioms pc x n r e o] show "''1-0'' \<notin> set (ws_acked (beginRead mem_redis maxSeenID ?s))"
    unfolding i by blast
qed

end
