(* ===== verification/Spec2Isabelle.thy ===== *)
theory Spec2Isabelle
  imports DNS Controller_Properties Guest_Properties Node_Service Snapshot_DB Watch_Stream
begin

text \<open>
  A verification of yaghan, which runs sandboxes in Firecracker microVMs. An api-server keeps the wanted
  state of every sandbox in DynamoDB and announces changes. On each node a daemon keeps a session with the
  api-server, receives the sandboxes scheduled to it and reconciles them: it starts, pauses, snapshots and
  destroys microVMs, gives each its own network namespace with an egress firewall, and answers the DNS
  queries of the sandboxes under their policy. An agent inside every VM executes commands and moves files
  on behalf of the daemon, over one vsock connection.

  \<^bold>\<open>How the program is represented.\<close> A Go struct is a record and a \<open>oneof\<close> or enumeration a datatype. A
  function that only computes is a HOL function. A function with effects takes the world \<open>'w\<close> and returns
  it with an \<open>'a result\<close>, which is an error or a value, so that every error return of the source is a branch
  of the model (\<open>bindr\<close>, \<open>onErr\<close> and \<open>wrapf\<close> of theory \<open>Prelude\<close> are the early return and
  \<open>fmt.Errorf\<close> with \<open>%w\<close>). Integers whose width matters are machine words. What is not in the
  repository (DynamoDB, netlink, iptables, the Firecracker API, S3, the work queue of client-go, the protobuf
  runtime, the host) is a record of operations given to the definitions that call it; a locale states the
  documented behaviour that a lemma relies on, and every locale is interpreted on an instance that computes,
  from which the witnesses are taken. Goroutines that share memory are interleaved in an inductive step
  relation whose steps are their critical sections.

  \<^bold>\<open>Shared theories.\<close> \<open>Prelude\<close>: errors, results, strings and decimal numerals. \<open>Netip\<close>: the part of
  \<open>net/netip\<close> in use. \<open>Host\<close>: \<open>path/filepath\<close> and the host's files and processes. \<open>Dynamo\<close>: DynamoDB tables
  with conditional writes, and the encoding of items. \<open>Protos\<close>: the control-plane messages.
  \<open>Atomic_File\<close>: replacing a file through a temporary one. \<open>Base64\<close>: the URL-safe encoding, which decoding undoes.
  \<open>Entity_Store\<close>: what a conditional put does to a table whose rows encode messages.

  \<^bold>\<open>The api-server.\<close>
  \<^item> \<open>Sandbox_DB\<close> models api-server/pkg/db/sandbox/dynamodb: items, conditional expressions, \<open>Create\<close>,
    \<open>Update\<close>, \<open>Get\<close> and the diagnosis of a refused write. Its lemmas refine the table to
    an abstract map of rows with versions and phases (locale \<open>sandbox_db\<close>): updates are guarded, none is lost,
    and a stored sandbox is read back.
  \<^item> \<open>Api_Service\<close> models the sandbox handlers of api-server/pkg/service, the database wrapper that publishes
    every write, and the random scheduler: every handler is a step of the life-cycle specification
    (\<open>handlers_guarded\<close>), and its outcome is determined by the stored row.
  \<^item> \<open>Node_DB\<close> and \<open>Node_Service\<close> model api-server/pkg/db/node/dynamodb and service/cluster_node.go: the node table is
    well typed after any sequence of writes, versions never come back (also when they wrap), and so registration and
    patches are atomic although other servers write between their read and their write.
  \<^item> \<open>Snapshot_DB\<close> models api-server/pkg/db/snapshot/dynamodb and service/snapshot.go: stored snapshots are immutable.
  \<^item> \<open>Watch_Stream\<close> models api-server/pkg/watch: watchers, the stream over Redis and its registry. The interleaving of
    read loop, consumer, closing and publishers shows that events arrive without a gap as long as no read fails, and that
    a failed read loses events.

  \<^bold>\<open>The daemon.\<close>
  \<^item> \<open>Controller\<close>, \<open>Session_Properties\<close> and \<open>Controller_Properties\<close> model daemon/pkg/controller: indexer,
    session file, connection, reader, worker, retries and resync. The interleaved model shows that no event is
    lost, and that its worker steps compose to \<open>processNext\<close>.
  \<^item> \<open>Reconciler\<close> and \<open>Reconciler_Properties\<close> model daemon/pkg/reconciler, over the models of the
    provider, the network driver, the DNS policies and the snapshot store. Here the components meet: a started
    sandbox is isolated from the others and filtered by its own policy; a failed start is undone; a delete
    removes everything.
  \<^item> \<open>Firecracker\<close>, \<open>Microvm_Frame\<close>, \<open>Microvm_Provider\<close> and \<open>Microvm_Properties\<close> model
    daemon/pkg/firecracker: the provider refines a map from ids to VMs, its index is fresh, directories are
    confined, a restarted daemon gets its VMs back, and the bounded waits end.
  \<^item> \<open>Snapshot_Store\<close> models daemon/pkg/snapshot: downloads are published whole or not at all, and an uploaded
    snapshot is loaded back, with the two concurrent transfers in both orders.
  \<^item> \<open>Allocator\<close>, \<open>Firewall\<close>, \<open>Linux_Driver\<close> and \<open>Linux_Network\<close> model daemon/pkg/network: the address
    arithmetic on 32-bit words, every iptables rule with a reading of the resulting chain as a packet filter,
    and the namespaces, devices and routes of one sandbox with rollback.
  \<^item> \<open>DNS\<close> models daemon/pkg/dns: matchers, policy store and query handler; only vouched addresses are opened.

  \<^bold>\<open>The agent.\<close>
  \<^item> \<open>Agent_Transport\<close> models agent/internal/framing and agent/transport/vsock.go: frames, handshake, and the
    conversations multiplexed over one connection, as steps of the reader, the owners and the closing.
  \<^item> \<open>Guest\<close> and \<open>Guest_Properties\<close> model agent/internal/guest/server.go: execution with its streams, standard
    input, resizing, cancellation, upload and download.

  \<^bold>\<open>Bounds.\<close> A loop over data is structural recursion. The polls of \<open>Firecracker\<close> take the number of ticks the
  source's timeout allows, and the lemmas on them say that these are enough. The resync of the controller is
  bounded by \<open>resyncMaxPages\<close>, and the read-modify-write loops of \<open>Node_Service\<close> by \<open>nodeWriteMaxAttempts\<close>, in the source itself.
  The loops of the controller that may run forever are partial functions; that the read loop ends when its stream does is
  \<open>readLoop_delivers\<close>. Reading all frames of a stream takes fuel, and one more than the number of frames suffices
  (\<open>framing_roundtrip\<close>).

  \<^bold>\<open>Not modelled.\<close> Logging, tracing and metrics; the generated code of the protobuf, gRPC gateway and
  Firecracker clients beyond the messages in use, which is serialisation that the development takes as a codec; the
  listings, whose continuation tokens are JSON; JWT validation and the scopes read by reflection; the handler of the session
  stream, the daemon's RPC service and the node agent, which pass messages between modelled parts; the mocks and end-to-end
  tests; the command-line client; the loading of configuration; the processes' main functions and the servers they start,
  which are input and output only.
\<close>

end
